(* ===== verification/Dambi_Prelude.thy ===== *)
theory Dambi_Prelude
  imports Main "HOL-Library.Word" "HOL-Library.Finite_Map" "HOL-Library.Sublist"
    "HOL-Library.Product_Lexorder" "HOL-Library.List_Lexorder" "HOL-Library.Char_ord"
begin

text \<open>
  Shared vocabulary of the development.

  \<^item> Rust's \<open>Result<T, E>\<close> is the sum \<open>'e + 'a\<close>: \<open>Err\<close> is \<open>Inl\<close>, \<open>Ok\<close> is \<open>Inr\<close>; the
    question-mark operator is \<open>bind_result\<close>, a loop with an early return is \<open>try_fold\<close>, and
    \<open>collect::<Result<Vec<_>, _>>\<close> is \<open>try_map\<close>.
  \<^item> \<open>U256\<close>, \<open>U128\<close>, \<open>u64\<close>, \<open>u32\<close>, \<open>u8\<close> and the 20-byte \<open>Address\<close> are words of that width.
    \<open>SignedI256\<close> is a 256-bit word read through \<open>sint\<close>, with the saturating operations of the
    source written out.
  \<^item> \<open>BTreeMap\<close> is \<open>fmap\<close> and \<open>BTreeSet\<close> is \<open>fset\<close>; where the source iterates one, the model
    iterates the key order.
  \<^item> \<open>String\<close> is the list of its bytes.
\<close>

named_theorems result_simps \<open>equations and inversions of the result combinators\<close>
named_theorems i256_simps \<open>reading saturating 256-bit arithmetic as integers\<close>

section \<open>Results\<close>

abbreviation Ok :: "'a \<Rightarrow> 'e + 'a" where
  "Ok \<equiv> Inr"

abbreviation Err :: "'e \<Rightarrow> 'e + 'a" where
  "Err \<equiv> Inl"

definition is_ok :: "'e + 'a \<Rightarrow> bool" where
  "is_ok r = (case r of Ok _ \<Rightarrow> True | Err _ \<Rightarrow> False)"

definition bind_result :: "'e + 'a \<Rightarrow> ('a \<Rightarrow> 'e + 'b) \<Rightarrow> 'e + 'b" where
  "bind_result r f = (case r of Err e \<Rightarrow> Err e | Ok x \<Rightarrow> f x)"

definition map_err :: "('e \<Rightarrow> 'f) \<Rightarrow> 'e + 'a \<Rightarrow> 'f + 'a" where
  "map_err g r = (case r of Err e \<Rightarrow> Err (g e) | Ok x \<Rightarrow> Ok x)"

definition ok_or :: "'e \<Rightarrow> 'a option \<Rightarrow> 'e + 'a" where
  "ok_or e x = (case x of None \<Rightarrow> Err e | Some v \<Rightarrow> Ok v)"

definition guard_or :: "'e \<Rightarrow> bool \<Rightarrow> 'e + unit" where
  "guard_or e b = (if b then Ok () else Err e)"

fun try_fold :: "('s \<Rightarrow> 'a \<Rightarrow> 'e + 's) \<Rightarrow> 's \<Rightarrow> 'a list \<Rightarrow> 'e + 's" where
  "try_fold f s [] = Ok s"
| "try_fold f s (x # xs) = bind_result (f s x) (\<lambda>s'. try_fold f s' xs)"

fun try_map :: "('a \<Rightarrow> 'e + 'b) \<Rightarrow> 'a list \<Rightarrow> 'e + 'b list" where
  "try_map f [] = Ok []"
| "try_map f (x # xs) = bind_result (f x) (\<lambda>y. bind_result (try_map f xs) (\<lambda>ys. Ok (y # ys)))"

lemma is_ok_simps [simp, result_simps]:
  "is_ok (Ok x)"
  "\<not> is_ok (Err e)"
  by (simp_all add: is_ok_def)

lemma is_ok_iff: "is_ok r \<longleftrightarrow> (\<exists>x. r = Ok x)"
  by (cases r) simp_all

lemma bind_result_simps [simp, result_simps]:
  "bind_result (Ok x) f = f x"
  "bind_result (Err e) f = Err e"
  by (simp_all add: bind_result_def)

lemma bind_result_eq_Ok [simp, result_simps]:
  "bind_result r f = Ok y \<longleftrightarrow> (\<exists>x. r = Ok x \<and> f x = Ok y)"
  by (cases r) simp_all

lemma bind_result_eq_Err:
  "bind_result r f = Err e \<longleftrightarrow> r = Err e \<or> (\<exists>x. r = Ok x \<and> f x = Err e)"
  by (cases r) simp_all

lemma bind_result_assoc:
  "bind_result (bind_result r f) g = bind_result r (\<lambda>x. bind_result (f x) g)"
  by (cases r) simp_all

lemma bind_result_Ok_right [simp]: "bind_result r Ok = r"
  by (cases r) simp_all

lemma bind_result_cong [fundef_cong]:
  "r = r' \<Longrightarrow> (\<And>x. r' = Ok x \<Longrightarrow> f x = f' x) \<Longrightarrow> bind_result r f = bind_result r' f'"
  by (cases r') simp_all

lemma map_err_simps [simp, result_simps]:
  "map_err g (Ok x) = Ok x"
  "map_err g (Err e) = Err (g e)"
  by (simp_all add: map_err_def)

lemma map_err_eq_Ok [simp, result_simps]: "map_err g r = Ok x \<longleftrightarrow> r = Ok x"
  by (cases r) simp_all

lemma ok_or_simps [simp, result_simps]:
  "ok_or e (Some v) = Ok v"
  "ok_or e None = Err e"
  by (simp_all add: ok_or_def)

lemma ok_or_eq_Ok [simp, result_simps]: "ok_or e x = Ok v \<longleftrightarrow> x = Some v"
  by (cases x) simp_all

lemma guard_or_simps [simp, result_simps]:
  "guard_or e True = Ok ()"
  "guard_or e False = Err e"
  by (simp_all add: guard_or_def)

lemma guard_or_eq_Ok [simp, result_simps]: "guard_or e b = Ok u \<longleftrightarrow> b"
  by (simp add: guard_or_def)

lemma try_fold_append:
  "try_fold f s (xs @ ys) = bind_result (try_fold f s xs) (\<lambda>s'. try_fold f s' ys)"
  by (induction xs arbitrary: s) (simp_all add: bind_result_assoc)

lemma try_fold_snoc:
  "try_fold f s (xs @ [x]) = bind_result (try_fold f s xs) (\<lambda>s'. f s' x)"
  by (simp add: try_fold_append)

lemma try_fold_cong [fundef_cong]:
  "s = s' \<Longrightarrow> xs = xs' \<Longrightarrow> (\<And>t x. x \<in> set xs' \<Longrightarrow> f t x = f' t x)
    \<Longrightarrow> try_fold f s xs = try_fold f' s' xs'"
  by (induction xs arbitrary: xs' s s') (auto intro!: bind_result_cong)

text \<open>An invariant kept by every successful step is kept by the loop.\<close>

lemma try_fold_invariant:
  assumes "try_fold f s xs = Ok s'" and "P s"
    and "\<And>t x t'. x \<in> set xs \<Longrightarrow> P t \<Longrightarrow> f t x = Ok t' \<Longrightarrow> P t'"
  shows "P s'"
  using assms by (induction xs arbitrary: s) auto

text \<open>A view of the state that no step changes is unchanged by the loop.\<close>

lemma try_fold_frame:
  assumes "try_fold f s xs = Ok s'"
    and "\<And>t x t'. x \<in> set xs \<Longrightarrow> f t x = Ok t' \<Longrightarrow> g t' = g t"
  shows "g s' = g s"
  using try_fold_invariant [of f s xs s' "\<lambda>t. g t = g s"] assms by auto

lemma try_map_Ok_iff:
  "try_map f xs = Ok ys \<longleftrightarrow> list_all2 (\<lambda>x y. f x = Ok y) xs ys"
proof (induction xs arbitrary: ys)
  case Nil
  then show ?case by auto
next
  case (Cons x xs)
  then show ?case by (cases ys) auto
qed

lemma try_map_length: "try_map f xs = Ok ys \<Longrightarrow> length ys = length xs"
  by (simp add: try_map_Ok_iff list_all2_lengthD)

lemma try_map_total: "(\<And>x. x \<in> set xs \<Longrightarrow> is_ok (f x)) \<Longrightarrow> \<exists>ys. try_map f xs = Ok ys"
  by (induction xs) (fastforce simp: is_ok_iff)+

section \<open>Machine integers\<close>

type_synonym u8 = "8 word"
type_synonym u32 = "32 word"
type_synonym u64 = "64 word"
type_synonym u128 = "128 word"
type_synonym u256 = "256 word"
type_synonym i256 = "256 word"
type_synonym address = "160 word"

definition u256_max :: u256 where
  "u256_max = - 1"

definition saturating_sub_u :: "'a::len word \<Rightarrow> 'a word \<Rightarrow> 'a word" where
  "saturating_sub_u a b = (if a < b then 0 else a - b)"

definition saturating_add_u :: "'a::len word \<Rightarrow> 'a word \<Rightarrow> 'a word" where
  "saturating_add_u a b = (if unat a + unat b < 2 ^ LENGTH('a) then a + b else - 1)"

definition checked_sub_u :: "'a::len word \<Rightarrow> 'a word \<Rightarrow> 'a word option" where
  "checked_sub_u a b = (if a < b then None else Some (a - b))"

definition checked_add_u :: "'a::len word \<Rightarrow> 'a word \<Rightarrow> 'a word option" where
  "checked_add_u a b = (if uint a + uint b < 2 ^ LENGTH('a) then Some (a + b) else None)"

definition checked_mul_u :: "'a::len word \<Rightarrow> 'a word \<Rightarrow> 'a word option" where
  "checked_mul_u a b = (if uint a * uint b < 2 ^ LENGTH('a) then Some (a * b) else None)"

definition abs_diff_u :: "'a::len word \<Rightarrow> 'a word \<Rightarrow> 'a word" where
  "abs_diff_u a b = (if b < a then a - b else b - a)"

lemma unat_saturating_sub_u: "unat (saturating_sub_u a b) = unat a - unat b"
  by (auto simp: saturating_sub_u_def word_less_nat_alt unat_sub word_le_nat_alt)

lemma unat_saturating_add_u:
  fixes a b :: "'a::len word"
  shows "unat (saturating_add_u a b) = min (unat a + unat b) (2 ^ LENGTH('a) - 1)"
  by (auto simp: saturating_add_u_def unat_word_ariths unsigned_minus_1_eq_mask mask_eq_exp_minus_1 min_def)

lemma checked_sub_u_Some: "checked_sub_u a b = Some c \<longleftrightarrow> b \<le> a \<and> c = a - b"
  by (auto simp: checked_sub_u_def not_less)

lemma checked_sub_u_unat: "checked_sub_u a b = Some c \<longleftrightarrow> unat a = unat b + unat c"
  by (auto simp: checked_sub_u_Some unat_sub word_le_nat_alt word_unat_eq_iff)

lemma unat_mult_fits:
  fixes a b :: "'a::len word"
  assumes "unat a * unat b < 2 ^ LENGTH('a)"
  shows "unat (a * b) = unat a * unat b"
  using assms by (simp add: unat_word_ariths)

lemma unat_add_fits:
  fixes a b :: "'a::len word"
  assumes "unat a + unat b < 2 ^ LENGTH('a)"
  shows "unat (a + b) = unat a + unat b"
  using assms by (simp add: unat_word_ariths)

lemma checked_fits_nat:
  fixes a b :: "'a::len word"
  shows "uint a + uint b < 2 ^ LENGTH('a) \<longleftrightarrow> unat a + unat b < 2 ^ LENGTH('a)"
    and "uint a * uint b < 2 ^ LENGTH('a) \<longleftrightarrow> unat a * unat b < 2 ^ LENGTH('a)"
proof -
  have size: "(2 :: int) ^ LENGTH('a) = int (2 ^ LENGTH('a))"
    by simp
  show "uint a + uint b < 2 ^ LENGTH('a) \<longleftrightarrow> unat a + unat b < 2 ^ LENGTH('a)"
    unfolding size uint_nat of_nat_add [symmetric] of_nat_less_iff by (rule refl)
  show "uint a * uint b < 2 ^ LENGTH('a) \<longleftrightarrow> unat a * unat b < 2 ^ LENGTH('a)"
    unfolding size uint_nat of_nat_mult [symmetric] of_nat_less_iff by (rule refl)
qed

lemma saturating_add_u_code [code]:
  "saturating_add_u (a :: 'a::len word) b = (if uint a + uint b < 2 ^ LENGTH('a) then a + b else - 1)"
  by (simp only: saturating_add_u_def checked_fits_nat)

lemma unat_fits: "unat (c :: 'a::len word) < 2 ^ LENGTH('a)"
  by (rule unsigned_less)

lemma unat_ucast_up:
  assumes "LENGTH('a) \<le> LENGTH('b)"
  shows "unat (ucast (w :: 'a::len word) :: 'b::len word) = unat w"
proof -
  have "unat w < 2 ^ LENGTH('b)"
    using unat_fits [of w] power_increasing [OF assms, of "2 :: nat"] by linarith
  then show ?thesis
    by (simp add: unsigned_ucast_eq take_bit_nat_eq_self)
qed

lemma checked_add_u_unat:
  fixes a b c :: "'a::len word"
  shows "checked_add_u a b = Some c \<longleftrightarrow> unat c = unat a + unat b"
proof -
  have "unat c = unat a + unat b \<Longrightarrow> unat a + unat b < 2 ^ LENGTH('a)"
    using unat_fits [of c] by (simp only:)
  then show ?thesis
    using unat_add_fits [of a b] by (auto simp: checked_add_u_def checked_fits_nat word_unat_eq_iff)
qed

lemma checked_mul_u_unat:
  fixes a b c :: "'a::len word"
  shows "checked_mul_u a b = Some c \<longleftrightarrow> unat c = unat a * unat b"
proof -
  have "unat c = unat a * unat b \<Longrightarrow> unat a * unat b < 2 ^ LENGTH('a)"
    using unat_fits [of c] by (simp only:)
  then show ?thesis
    using unat_mult_fits [of a b] by (auto simp: checked_mul_u_def checked_fits_nat word_unat_eq_iff)
qed

lemma abs_diff_u_le_1: "abs_diff_u a b \<le> 1 \<longleftrightarrow> unat a \<le> unat b + 1 \<and> unat b \<le> unat a + 1"
  by (auto simp: abs_diff_u_def word_le_nat_alt word_less_nat_alt unat_sub)

lemma unat_checked_sub_u: "checked_sub_u a b = Some c \<Longrightarrow> unat c = unat a - unat b \<and> unat b \<le> unat a"
  by (auto simp: checked_sub_u_Some unat_sub word_le_nat_alt)

subsection \<open>Signed 256-bit integers\<close>

definition i256_max :: int where
  "i256_max = 2 ^ 255 - 1"

definition i256_min :: int where
  "i256_min = - (2 ^ 255)"

definition clamp_i256 :: "int \<Rightarrow> int" where
  "clamp_i256 x = max i256_min (min i256_max x)"

definition i256_sat :: "int \<Rightarrow> i256" where
  "i256_sat x = word_of_int (clamp_i256 x)"

definition saturating_add_i :: "i256 \<Rightarrow> i256 \<Rightarrow> i256" where
  "saturating_add_i a b = i256_sat (sint a + sint b)"

definition is_negative :: "i256 \<Rightarrow> bool" where
  "is_negative v \<longleftrightarrow> sint v < 0"

lemma sint_i256_range: "i256_min \<le> sint (w :: i256) \<and> sint w \<le> i256_max"
  using sint_ge [of w] sint_lt [of w] by (simp add: i256_min_def i256_max_def)

lemma sint_i256_bounds [simp]: "i256_min \<le> sint (w :: i256)" "sint (w :: i256) \<le> i256_max"
  using sint_i256_range [of w] by simp_all

lemma clamp_i256_id: "i256_min \<le> x \<Longrightarrow> x \<le> i256_max \<Longrightarrow> clamp_i256 x = x"
  by (simp add: clamp_i256_def)

lemma clamp_i256_range [simp]: "i256_min \<le> clamp_i256 x" "clamp_i256 x \<le> i256_max"
  by (simp_all add: clamp_i256_def i256_min_def i256_max_def)

lemma sint_i256_sat [simp, i256_simps]: "sint (i256_sat x) = clamp_i256 x"
proof -
  have "- (2 ^ 255) \<le> clamp_i256 x" "clamp_i256 x < 2 ^ 255"
    using clamp_i256_range [of x] by (simp_all add: i256_min_def i256_max_def)
  then have "signed_take_bit 255 (clamp_i256 x) = clamp_i256 x"
    by (simp add: signed_take_bit_int_eq_self)
  then show ?thesis
    by (simp add: i256_sat_def sint_sbintrunc')
qed

lemma sint_saturating_add_i [i256_simps]:
  "sint (saturating_add_i a b) = clamp_i256 (sint a + sint b)"
  by (simp add: saturating_add_i_def)

lemma uint_eq_sint_nonneg:
  fixes w :: i256
  assumes "0 \<le> sint w"
  shows "uint w = sint w"
proof -
  have "uint w = take_bit 256 (sint w)"
    using uint_sint [of w] by simp
  also have "\<dots> = sint w"
    using assms sint_i256_range [of w]
    by (simp add: take_bit_int_eq_self i256_max_def)
  finally show ?thesis .
qed

lemma sint_uminus_i256:
  fixes w :: i256
  assumes "0 \<le> sint w"
  shows "sint (- w) = - sint w"
proof -
  have b: "sint w < 2 ^ 255"
    using sint_i256_range [of w] by (simp add: i256_max_def)
  have "sint (- w) = sint (word_of_int (- sint w) :: i256)"
    by simp
  also have "\<dots> = signed_take_bit 255 (- sint w)"
    by (subst sint_sbintrunc') simp
  also have "\<dots> = - sint w"
    using assms b by (simp add: signed_take_bit_int_eq_self)
  finally show ?thesis .
qed

section \<open>Text formatting\<close>

text \<open>
  \<open>format!("{a:#x}")\<close> on an \<open>Address\<close> prints \<open>0x\<close> and the twenty bytes in lower-case
  hexadecimal; \<open>format!("{n}")\<close> on an unsigned integer prints its decimal digits.
\<close>

definition digit_char :: "nat \<Rightarrow> char" where
  "digit_char n = (if n < 10 then char_of (48 + n) else char_of (87 + n))"

definition char_digit :: "char \<Rightarrow> nat" where
  "char_digit c = (let k = of_char c in if k < 58 then k - 48 else k - 87)"

fun hex_fixed :: "nat \<Rightarrow> nat \<Rightarrow> string" where
  "hex_fixed 0 n = []"
| "hex_fixed (Suc k) n = hex_fixed k (n div 16) @ [digit_char (n mod 16)]"

fun dec_string :: "nat \<Rightarrow> string" where
  "dec_string n = (if n < 10 then [digit_char n] else dec_string (n div 10) @ [digit_char (n mod 10)])"

declare dec_string.simps [simp del]

definition is_ascii_digit :: "char \<Rightarrow> bool" where
  "is_ascii_digit c \<longleftrightarrow> 48 \<le> (of_char c :: nat) \<and> (of_char c :: nat) \<le> 57"

definition undigits :: "nat \<Rightarrow> string \<Rightarrow> nat" where
  "undigits b s = foldl (\<lambda>a c. b * a + char_digit c) 0 s"

definition hex_address :: "address \<Rightarrow> string" where
  "hex_address a = ''0x'' @ hex_fixed 40 (unat a)"

definition dec_word :: "'a::len word \<Rightarrow> string" where
  "dec_word w = dec_string (unat w)"

lemma char_digit_digit_char [simp]: "n < 16 \<Longrightarrow> char_digit (digit_char n) = n"
  by (auto simp: char_digit_def digit_char_def)

lemma digit_char_neq_colon [simp]: "n < 16 \<Longrightarrow> digit_char n \<noteq> CHR '':''"
proof
  assume n: "n < 16" and "digit_char n = CHR '':''"
  then have "of_char (digit_char n) = (58 :: nat)" by simp
  with n show False by (auto simp: digit_char_def split: if_splits)
qed

lemma undigits_snoc: "undigits b (s @ [c]) = b * undigits b s + char_digit c"
  by (simp add: undigits_def)

lemma length_hex_fixed [simp]: "length (hex_fixed k n) = k"
  by (induction k arbitrary: n) simp_all

lemma undigits_hex_fixed: "n < 16 ^ k \<Longrightarrow> undigits 16 (hex_fixed k n) = n"
proof (induction k arbitrary: n)
  case 0
  then show ?case by (simp add: undigits_def)
next
  case (Suc k)
  then have "n div 16 < 16 ^ k" by (simp add: less_mult_imp_div_less mult.commute)
  then show ?case by (simp add: undigits_snoc Suc.IH)
qed

lemma undigits_dec_string: "undigits 10 (dec_string n) = n"
proof (induction n rule: dec_string.induct)
  case (1 n)
  show ?case
  proof (cases "n < 10")
    case True
    then show ?thesis by (simp add: dec_string.simps undigits_def)
  next
    case False
    with 1 show ?thesis by (simp add: dec_string.simps [of n] undigits_snoc)
  qed
qed

lemma digit_char_is_digit: "n < 10 \<Longrightarrow> is_ascii_digit (digit_char n)"
  by (simp add: is_ascii_digit_def digit_char_def)

lemma dec_string_digits: "\<forall>c\<in>set (dec_string n). is_ascii_digit c"
proof (induction n rule: dec_string.induct)
  case (1 n)
  then show ?case
    by (cases "n < 10") (auto simp: dec_string.simps [of n] digit_char_is_digit)
qed

lemma dec_string_not_Nil [simp]: "dec_string n \<noteq> []"
  by (subst dec_string.simps) simp

lemma dec_string_inject [simp]: "dec_string m = dec_string n \<longleftrightarrow> m = n"
  by (metis undigits_dec_string)

lemma dec_word_inject [simp]: "dec_word a = dec_word b \<longleftrightarrow> a = b"
  by (simp add: dec_word_def word_unat_eq_iff)

lemma colon_notin_dec_string [simp]: "CHR '':'' \<notin> set (dec_string n)"
proof (induction n rule: dec_string.induct)
  case (1 n)
  then show ?case by (cases "n < 10") (auto simp: dec_string.simps [of n] dest: sym)
qed

lemma colon_notin_dec_word [simp]: "CHR '':'' \<notin> set (dec_word w)"
  by (simp add: dec_word_def)

lemma length_hex_address [simp]: "length (hex_address a) = 42"
  by (simp add: hex_address_def)

lemma hex_address_inject [simp]: "hex_address a = hex_address b \<longleftrightarrow> a = b"
proof
  assume eq: "hex_address a = hex_address b"
  have lt: "unat x < 16 ^ 40" for x :: address
  proof -
    have "unat x < 2 ^ LENGTH(160)" by (rule unsigned_less)
    then show ?thesis by simp
  qed
  from eq have "unat a = unat b"
    by (metis lt hex_address_def same_append_eq undigits_hex_fixed)
  then show "a = b" by (simp add: word_unat_eq_iff)
qed simp

text \<open>A separator that occurs in neither head splits two equal texts at the same place.\<close>

lemma append_sep_eq:
  assumes "c \<notin> set xs" and "c \<notin> set xs'"
  shows "xs @ c # ys = xs' @ c # ys' \<longleftrightarrow> xs = xs' \<and> ys = ys'"
  using assms
proof (induction xs arbitrary: xs')
  case Nil
  then show ?case by (cases xs') auto
next
  case (Cons x xs)
  then show ?case by (cases xs') auto
qed

end
