(* ===== verification/F64.thy ===== *)
theory F64
  imports Dambi_Prelude Complex_Main
begin

text \<open>
  Rust's \<open>f64\<close> as the scam filter uses it: IEEE 754 binary64 with round-to-nearest-even. A
  value is a NaN, an infinity (the flag is its sign) or a finite rational; the two zeros are
  identified, which no operation below can tell apart. \<open>f64_round\<close> is the rounding of an exact
  rational result: 53 significant bits, gradual underflow at \<open>2 powi -1074\<close>, and overflow to an
  infinity. Comparisons with a NaN are false, and \<open>max\<close>/\<open>min\<close> return the other operand.
\<close>

datatype f64 = NaN | Inf bool | Fin rat

section \<open>Rounding\<close>

fun ilog2 :: "nat \<Rightarrow> nat" where
  "ilog2 n = (if n < 2 then 0 else Suc (ilog2 (n div 2)))"

declare ilog2.simps [simp del]

definition flog2 :: "rat \<Rightarrow> int" where
  "flog2 q = (case quotient_of q of (n, d) \<Rightarrow>
     let k = int (ilog2 (nat n)) - int (ilog2 (nat d)) in if 2 powi k \<le> q then k else k - 1)"

definition round_even :: "rat \<Rightarrow> int" where
  "round_even q = (let f = \<lfloor>q\<rfloor>; r = q - of_int f in
     if r < 1 / 2 then f else if 1 / 2 < r then f + 1 else if even f then f else f + 1)"

definition f64_round :: "rat \<Rightarrow> f64" where
  "f64_round q =
     (if q = 0 then Fin 0
      else let u = 2 powi (max (flog2 \<bar>q\<bar>) (-1022) - 52); r = of_int (round_even (q / u)) * u
        in if 2 powi 1024 \<le> \<bar>r\<bar> then Inf (q < 0) else Fin r)"

section \<open>Arithmetic and comparison\<close>

fun f64_neg :: "f64 \<Rightarrow> f64" where
  "f64_neg NaN = NaN"
| "f64_neg (Inf s) = Inf (\<not> s)"
| "f64_neg (Fin a) = Fin (- a)"

fun f64_add :: "f64 \<Rightarrow> f64 \<Rightarrow> f64" where
  "f64_add (Fin a) (Fin b) = f64_round (a + b)"
| "f64_add (Inf s) (Inf t) = (if s = t then Inf s else NaN)"
| "f64_add (Inf s) (Fin b) = Inf s"
| "f64_add (Fin a) (Inf t) = Inf t"
| "f64_add _ _ = NaN"

definition f64_sub :: "f64 \<Rightarrow> f64 \<Rightarrow> f64" where
  "f64_sub a b = f64_add a (f64_neg b)"

fun f64_mul :: "f64 \<Rightarrow> f64 \<Rightarrow> f64" where
  "f64_mul (Fin a) (Fin b) = f64_round (a * b)"
| "f64_mul (Inf s) (Inf t) = Inf (s \<noteq> t)"
| "f64_mul (Inf s) (Fin b) = (if b = 0 then NaN else Inf (s \<noteq> (b < 0)))"
| "f64_mul (Fin a) (Inf t) = (if a = 0 then NaN else Inf ((a < 0) \<noteq> t))"
| "f64_mul _ _ = NaN"

text \<open>A zero divisor is taken as the positive zero; the source divides by positive values only.\<close>

fun f64_div :: "f64 \<Rightarrow> f64 \<Rightarrow> f64" where
  "f64_div (Fin a) (Fin b) =
     (if b = 0 then (if a = 0 then NaN else Inf (a < 0)) else f64_round (a / b))"
| "f64_div (Inf s) (Fin b) = Inf (s \<noteq> (b < 0))"
| "f64_div (Fin a) (Inf t) = Fin 0"
| "f64_div _ _ = NaN"

fun f64_le :: "f64 \<Rightarrow> f64 \<Rightarrow> bool" where
  "f64_le (Fin a) (Fin b) \<longleftrightarrow> a \<le> b"
| "f64_le (Inf s) (Inf t) \<longleftrightarrow> s \<or> \<not> t"
| "f64_le (Inf s) (Fin b) \<longleftrightarrow> s"
| "f64_le (Fin a) (Inf t) \<longleftrightarrow> \<not> t"
| "f64_le _ _ \<longleftrightarrow> False"

definition f64_eq :: "f64 \<Rightarrow> f64 \<Rightarrow> bool" where
  "f64_eq a b \<longleftrightarrow> a = b \<and> a \<noteq> NaN"

definition f64_lt :: "f64 \<Rightarrow> f64 \<Rightarrow> bool" where
  "f64_lt a b \<longleftrightarrow> f64_le a b \<and> a \<noteq> b"

definition f64_max :: "f64 \<Rightarrow> f64 \<Rightarrow> f64" where
  "f64_max a b = (if a = NaN then b else if b = NaN then a else if f64_le a b then b else a)"

definition f64_min :: "f64 \<Rightarrow> f64 \<Rightarrow> f64" where
  "f64_min a b = (if a = NaN then b else if b = NaN then a else if f64_le a b then a else b)"

definition f64_of_nat :: "nat \<Rightarrow> f64" where
  "f64_of_nat n = f64_round (of_nat n)"

section \<open>Order laws away from NaN\<close>

lemma f64_le_refl [simp]: "a \<noteq> NaN \<Longrightarrow> f64_le a a"
  by (cases a) auto

lemma f64_le_trans: "f64_le a b \<Longrightarrow> f64_le b c \<Longrightarrow> f64_le a c"
  by (cases a; cases b; cases c) auto

lemma f64_le_antisym: "f64_le a b \<Longrightarrow> f64_le b a \<Longrightarrow> a = b"
  by (cases a; cases b) auto

lemma f64_le_total: "a \<noteq> NaN \<Longrightarrow> b \<noteq> NaN \<Longrightarrow> f64_le a b \<or> f64_le b a"
  by (cases a; cases b) auto

lemma f64_le_not_NaN: "f64_le a b \<Longrightarrow> a \<noteq> NaN \<and> b \<noteq> NaN"
  by (cases a; cases b) auto

lemma f64_lt_iff: "a \<noteq> NaN \<Longrightarrow> b \<noteq> NaN \<Longrightarrow> f64_lt a b \<longleftrightarrow> \<not> f64_le b a"
  by (cases a; cases b) (auto simp: f64_lt_def)

lemma f64_max_not_NaN [simp]: "a \<noteq> NaN \<Longrightarrow> f64_max a b \<noteq> NaN"
  by (simp add: f64_max_def)

lemma f64_max_ge: "a \<noteq> NaN \<Longrightarrow> b \<noteq> NaN \<Longrightarrow> f64_le a (f64_max a b) \<and> f64_le b (f64_max a b)"
  using f64_le_total [of a b] by (auto simp: f64_max_def)

lemma f64_max_mem: "f64_max a b = a \<or> f64_max a b = b"
  by (simp add: f64_max_def)

section \<open>Exact results\<close>

text \<open>
  Rounding leaves a representable value alone: \<open>m * 2 powi e\<close> with a significand of at most 53
  bits comes back unchanged.
\<close>

lemma ilog2_bounds: "0 < n \<Longrightarrow> 2 ^ ilog2 n \<le> n \<and> n < 2 ^ Suc (ilog2 n)"
proof (induction n rule: ilog2.induct)
  case (1 n)
  show ?case
  proof (cases "n < 2")
    case True
    with 1 have "n = 1" by simp
    then show ?thesis by (simp add: ilog2.simps)
  next
    case False
    then have "2 ^ ilog2 (n div 2) \<le> n div 2" "n div 2 < 2 ^ Suc (ilog2 (n div 2))" "ilog2 n = Suc (ilog2 (n div 2))"
      using 1 by (simp_all add: ilog2.simps [of n])
    then show ?thesis
      by auto
  qed
qed

lemma two_powi_mono: "a \<le> b \<Longrightarrow> (2::rat) powi a \<le> 2 powi b"
  by (intro power_int_increasing) auto

lemma two_powi_less: "(2::rat) powi a < 2 powi b \<Longrightarrow> a < b"
  using two_powi_mono [of b a] by (cases "a < b") auto

lemma flog2_bounds:
  assumes "0 < q"
  shows "2 powi (flog2 q) \<le> q \<and> q < 2 powi (flog2 q + 1)"
proof -
  obtain n d where nd: "quotient_of q = (n, d)"
    by fastforce
  then have d: "0 < d" and q: "q = of_int n / of_int d"
    using quotient_of_denom_pos quotient_of_div by blast+
  with assms have n: "0 < n"
    by (simp add: zero_less_divide_iff)
  define a b where "a = ilog2 (nat n)" and "b = ilog2 (nat d)"
  have "2 ^ a \<le> nat n" "nat n < 2 ^ Suc a" "2 ^ b \<le> nat d" "nat d < 2 ^ Suc b"
    using ilog2_bounds [of "nat n"] ilog2_bounds [of "nat d"] n d by (simp_all add: a_def b_def)
  then have "(of_nat (2 ^ a) :: rat) \<le> of_nat (nat n)" "(of_nat (nat n) :: rat) < of_nat (2 ^ Suc a)"
    "(of_nat (2 ^ b) :: rat) \<le> of_nat (nat d)" "(of_nat (nat d) :: rat) < of_nat (2 ^ Suc b)"
    by (simp_all only: of_nat_le_iff of_nat_less_iff)
  then have N: "(2::rat) ^ a \<le> of_int n" "(of_int n :: rat) < 2 * 2 ^ a"
    and D: "(2::rat) ^ b \<le> of_int d" "(of_int d :: rat) < 2 * 2 ^ b"
    using n d by simp_all
  have pow: "(2::rat) powi (int a - int b) = 2 ^ a / 2 ^ b"
    by (simp add: power_int_diff)
  have "q < (2 * 2 ^ a) / 2 ^ b"
    unfolding q using N(2) D(1) n by (intro frac_less) auto
  then have hi: "q < 2 powi (int a - int b + 1)"
    by (simp add: power_int_add pow mult.commute)
  have "2 ^ a / (2 * 2 ^ b) \<le> q"
    unfolding q using N D n d by (intro frac_le) auto
  then have lo: "2 powi (int a - int b - 1) \<le> q"
    by (simp add: power_int_diff pow)
  show ?thesis
    using hi lo by (auto simp: flog2_def nd Let_def simp flip: a_def b_def)
qed

lemma round_even_of_int [simp]: "round_even (of_int m) = m"
  by (simp add: round_even_def)

lemma f64_round_exact:
  fixes m e :: int
  assumes "\<bar>m\<bar> < 2 ^ 53" and "-1074 \<le> e" and "e \<le> 971"
  shows "f64_round (of_int m * 2 powi e) = Fin (of_int m * 2 powi e)"
proof (cases "m = 0")
  case True
  then show ?thesis by (simp add: f64_round_def)
next
  case False
  let ?q = "of_int m * 2 powi e :: rat"
  let ?u = "max (flog2 \<bar>?q\<bar>) (-1022) - 52"
  have m: "\<bar>of_int m\<bar> < (2::rat) powi 53"
  proof -
    have "(of_int \<bar>m\<bar> :: rat) < of_int (2 ^ 53)"
      using assms(1) by (simp only: of_int_less_iff)
    then show ?thesis
      by simp
  qed
  have abs: "\<bar>?q\<bar> = \<bar>of_int m\<bar> * 2 powi e"
    by (simp add: abs_mult)
  have "\<bar>?q\<bar> < 2 powi 53 * 2 powi e"
    unfolding abs using m by (intro mult_strict_right_mono) simp_all
  then have less: "\<bar>?q\<bar> < 2 powi (53 + e)"
    using power_int_add [of "2::rat" 53 e] by simp
  moreover have "2 powi (flog2 \<bar>?q\<bar>) \<le> \<bar>?q\<bar>"
    using False by (intro flog2_bounds [THEN conjunct1]) simp
  ultimately have "flog2 \<bar>?q\<bar> < 53 + e"
    by (intro two_powi_less) (rule le_less_trans)
  then have "0 \<le> e - ?u"
    using assms(2) by simp
  then obtain k where k: "e - ?u = int k"
    by (rule nonneg_int_cases)
  have "?q / 2 powi ?u = of_int m * (2 powi e / 2 powi ?u)"
    by simp
  also have "2 powi e / 2 powi ?u = (2::rat) powi int k"
    unfolding k [symmetric] by (rule power_int_diff [symmetric]) simp
  finally have scaled: "?q / 2 powi ?u = of_int (m * 2 ^ k)"
    by simp
  have "of_int (round_even (?q / 2 powi ?u)) = ?q / 2 powi ?u"
    by (simp only: scaled round_even_of_int)
  then have same: "of_int (round_even (?q / 2 powi ?u)) * 2 powi ?u = ?q"
    by (simp only: nonzero_divide_eq_eq power_int_eq_0_iff) simp
  have "2 powi (53 + e) \<le> (2::rat) powi 1024"
    using assms(3) by (intro two_powi_mono) simp
  with less have "\<not> 2 powi 1024 \<le> \<bar>?q\<bar>"
    by simp
  moreover have "?q \<noteq> 0"
    using False by simp
  ultimately show ?thesis
    unfolding f64_round_def Let_def same by (simp only: if_False)
qed

text \<open>
  The same fact as a shortcut for evaluation: a fraction with a small numerator over a power of two
  is its own rounding.
\<close>

lemma f64_round_code [code]:
  "f64_round q =
     (case quotient_of q of (n, d) \<Rightarrow>
        if \<bar>n\<bar> < 9007199254740992 \<and> ilog2 (nat d) \<le> 52 \<and> d = 2 ^ ilog2 (nat d) then Fin q
        else if q = 0 then Fin 0
        else let u = 2 powi (max (flog2 \<bar>q\<bar>) (-1022) - 52); r = of_int (round_even (q / u)) * u
          in if 2 powi 1024 \<le> \<bar>r\<bar> then Inf (q < 0) else Fin r)"
proof -
  obtain n d where nd: "quotient_of q = (n, d)"
    by fastforce
  then have q: "q = of_int n / of_int d"
    by (rule quotient_of_div)
  have "f64_round q = Fin q" if "\<bar>n\<bar> < 9007199254740992" "ilog2 (nat d) \<le> 52" "d = 2 ^ ilog2 (nat d)"
  proof -
    have "q = of_int n * 2 powi (- int (ilog2 (nat d)))"
      unfolding q by (subst that(3)) (simp add: power_int_minus divide_inverse)
    then show ?thesis
      using f64_round_exact [of n "- int (ilog2 (nat d))"] that(1,2) by simp
  qed
  then show ?thesis
    by (simp add: nd f64_round_def [of q] split: if_splits)
qed

end
