(* ===== verification/Asset_Types.thy ===== *)
theory Asset_Types
  imports F64
begin

text \<open>
  The data of \<open>asset-model/state\<close> that a wallet snapshot is built from: primitives, live
  fields and their sources, tokens, approvals and protocol positions. Each struct is a record
  (its fields prefixed, since HOL selectors share one name space) and each enum a datatype with
  the source's constructors. JSON values are serde_json's \<open>Value\<close>.
\<close>

section \<open>JSON values\<close>

datatype json_number = PosInt u64 | NegInt int | Float f64

datatype json =
    JNull
  | JBool bool
  | JNumber json_number
  | JString string
  | JArray "json list"
  | JObject "(string, json) fmap"

definition json_get :: "json \<Rightarrow> string \<Rightarrow> json option" where
  "json_get v k = (case v of JObject m \<Rightarrow> fmlookup m k | _ \<Rightarrow> None)"

definition as_object :: "json \<Rightarrow> (string, json) fmap option" where
  "as_object v = (case v of JObject m \<Rightarrow> Some m | _ \<Rightarrow> None)"

section \<open>Primitives\<close>

datatype chain_id = ChainId (chain_str: string)

definition ethereum_mainnet :: chain_id where
  "ethereum_mainnet = ChainId ''eip155:1''"

definition arbitrum :: chain_id where
  "arbitrum = ChainId ''eip155:42161''"

datatype time = Time (as_unix: u64)

datatype duration = Duration (as_secs: u64)

definition time_saturating_add :: "time \<Rightarrow> duration \<Rightarrow> time" where
  "time_saturating_add t d = Time (saturating_add_u (as_unix t) (as_secs d))"

definition time_saturating_sub :: "time \<Rightarrow> duration \<Rightarrow> time" where
  "time_saturating_sub t d = Time (saturating_sub_u (as_unix t) (as_secs d))"

definition time_since :: "time \<Rightarrow> time \<Rightarrow> duration" where
  "time_since t earlier = Duration (saturating_sub_u (as_unix t) (as_unix earlier))"

datatype decimal = Decimal (decimal_str: string)

type_synonym i32 = "32 word"
type_synonym price = decimal
type_synonym spender = address

record block_height =
  bh_number :: u64
  bh_time :: u64

record protocol_ref =
  pr_name :: string
  pr_version :: "string option"
  pr_chain :: "chain_id option"
  pr_market :: "string option"

definition protocol_ref_new :: "string \<Rightarrow> protocol_ref" where
  "protocol_ref_new n = \<lparr>pr_name = n, pr_version = None, pr_chain = None, pr_market = None\<rparr>"

record pool_ref =
  pool_protocol :: protocol_ref
  pool_addr :: "address option"
  pool_id :: "string option"
  pool_fee_tier :: "u32 option"

record venue_ref =
  vr_name :: string
  vr_chain :: "chain_id option"

record market_ref =
  mr_symbol :: string
  mr_venue :: venue_ref

section \<open>Live fields\<close>

datatype oracle_provider = Pyth | Chainlink | RedStone | OtherOracle string

datatype auth_spec = NoAuth | Bearer string | HmacSig string | CustomAuth string

datatype token_field_name = PriceUsd

datatype position_field_name =
  HealthFactor | Ltv | LiquidationThreshold | MarkPrice | LiqPrice | UnrealizedPnl | FundingOwed | Leverage

datatype pending_field_name = StatusField | FillRatio

datatype field_ref =
    TokenField string token_field_name
  | PositionField string position_field_name
  | PendingField string pending_field_name
  | GlobalField string

datatype registry_resource =
    TokenMeta chain_id address
  | ProtocolMap chain_id address
  | PoolMeta chain_id address
  | DecoderRegistry

datatype data_source =
    OnchainView (dsrc_chain: chain_id) (dsrc_contract: address) (dsrc_function: string) (dsrc_decoder: string)
  | OracleFeed oracle_provider string
  | VenueApi string string "auth_spec option"
  | DerivedFrom "field_ref list" string
  | RegistryApi string registry_resource "string option"
  | UserSupplied

record confidence =
  deviation_bp :: u32
  conf_is_stale :: bool

definition confidence_fresh :: confidence where
  "confidence_fresh = \<lparr>deviation_bp = 0, conf_is_stale = False\<rparr>"

record 'a live_field =
  lf_value :: 'a
  lf_source :: data_source
  lf_synced_at :: time
  lf_ttl :: "duration option"
  lf_confidence :: "confidence option"

definition live_field_new :: "'a \<Rightarrow> data_source \<Rightarrow> time \<Rightarrow> 'a live_field" where
  "live_field_new v src t =
     \<lparr>lf_value = v, lf_source = src, lf_synced_at = t, lf_ttl = None, lf_confidence = None\<rparr>"

definition with_ttl :: "duration \<Rightarrow> 'a live_field \<Rightarrow> 'a live_field" where
  "with_ttl d f = f\<lparr>lf_ttl := Some d\<rparr>"

definition with_confidence :: "confidence \<Rightarrow> 'a live_field \<Rightarrow> 'a live_field" where
  "with_confidence c f = f\<lparr>lf_confidence := Some c\<rparr>"

definition fresh_within :: "'a live_field \<Rightarrow> time \<Rightarrow> duration \<Rightarrow> bool" where
  "fresh_within f now window \<longleftrightarrow> as_secs (time_since now (lf_synced_at f)) \<le> as_secs window"

definition lf_is_stale :: "'a live_field \<Rightarrow> time \<Rightarrow> bool" where
  "lf_is_stale f now =
     (case lf_ttl f of
        Some ttl \<Rightarrow> as_secs ttl < as_secs (time_since now (lf_synced_at f))
      | None \<Rightarrow> (case lf_confidence f of Some c \<Rightarrow> conf_is_stale c | None \<Rightarrow> False))"

section \<open>Tokens\<close>

datatype token_key =
    TK_Native (tk_chain: chain_id)
  | TK_Erc20 (tk_chain: chain_id) (tk_address: address)
  | TK_Erc721 (tk_chain: chain_id) (tk_contract721: address) (tk_id721: u256)
  | TK_Erc1155 (tk_chain: chain_id) (tk_contract1155: address) (tk_id1155: u256)

fun key_contract :: "token_key \<Rightarrow> address option" where
  "key_contract (TK_Native _) = None"
| "key_contract (TK_Erc20 _ a) = Some a"
| "key_contract (TK_Erc721 _ c _) = Some c"
| "key_contract (TK_Erc1155 _ c _) = Some c"

fun key_token_id :: "token_key \<Rightarrow> u256 option" where
  "key_token_id (TK_Erc721 _ _ i) = Some i"
| "key_token_id (TK_Erc1155 _ _ i) = Some i"
| "key_token_id _ = None"

fun is_native :: "token_key \<Rightarrow> bool" where
  "is_native (TK_Native _) = True"
| "is_native _ = False"

fun is_nft :: "token_key \<Rightarrow> bool" where
  "is_nft (TK_Erc721 _ _ _) = True"
| "is_nft _ = False"

datatype token_ref = TokenRef (ref_key: token_key)

datatype fiat_currency = Usd | Eur | Krw | Jpy | Gbp

datatype peg_target = Fiat fiat_currency | PegToken token_ref

datatype base_category = Stable | Volatile | NativeWrap | Governance protocol_ref

datatype peg_kind = HardPeg | SoftPeg | RebasingPeg | ExchangeRate

datatype rebase_form = RebasingForm | IndexForm

datatype rate_mode = VariableRate | StableRate | FixedRate

datatype unlock_schedule = UnlockCliff time | UnlockLinear time time | UnlockCooldown u64

datatype note_kind = PrincipalNote | YieldNote

datatype share_form = FungibleShare | NonFungibleShare

datatype range_spec =
    TickRange i32 i32 u128
  | BinRange u32 "(u32 \<times> u128) list"
  | CustomRange string json

datatype lp_shape =
    Pooled "u32 list option"
  | Concentrated range_spec "(token_ref \<times> u256) list"
  | CustomShape string json

datatype token_kind =
    Base base_category "peg_target option"
  | NativeGas
  | Wrapped token_ref peg_kind
  | LpShare pool_ref "token_ref list" share_form lp_shape
  | YieldReceipt protocol_ref token_ref rebase_form
  | DebtReceipt protocol_ref token_ref rate_mode
  | StakeReceipt protocol_ref token_ref "unlock_schedule option" "u256 option"
  | PointsToken protocol_ref
  | MaturityNote protocol_ref token_ref time note_kind
  | UnknownKind

datatype balance = Fungible u256 | Owned

definition zero_fungible :: balance where
  "zero_fungible = Fungible 0"

fun as_fungible :: "balance \<Rightarrow> u256 option" where
  "as_fungible (Fungible a) = Some a"
| "as_fungible Owned = None"

fun balance_is_zero :: "balance \<Rightarrow> bool" where
  "balance_is_zero (Fungible a) \<longleftrightarrow> a = 0"
| "balance_is_zero Owned \<longleftrightarrow> False"

record token_metadata =
  logo_url :: "string option"
  website_url :: "string option"
  description :: "string option"
  coingecko_id :: "string option"

definition metadata_is_empty :: "token_metadata \<Rightarrow> bool" where
  "metadata_is_empty m \<longleftrightarrow>
     logo_url m = None \<and> website_url m = None \<and> description m = None \<and> coingecko_id m = None"

record token_holding =
  h_key :: token_key
  h_kind :: token_kind
  h_symbol :: string
  h_decimals :: u8
  h_balance :: balance
  h_committed :: balance
  h_approved_to :: "address option"
  h_price_usd :: "price live_field option"
  h_metadata :: "token_metadata option"
  h_value_usd :: "price option"
  h_last_synced_at :: time
  h_primitives_source :: data_source

definition available :: "token_holding \<Rightarrow> u256 option" where
  "available h =
     (case (h_balance h, h_committed h) of
        (Fungible bal, Fungible cmt) \<Rightarrow> Some (saturating_sub_u bal cmt)
      | _ \<Rightarrow> None)"

section \<open>Approvals\<close>

record allowance_spec =
  al_amount :: u256
  al_is_unlimited :: bool
  al_last_set_at :: time

definition allowance_new :: "u256 \<Rightarrow> time \<Rightarrow> allowance_spec" where
  "allowance_new a t = \<lparr>al_amount = a, al_is_unlimited = (a = u256_max), al_last_set_at = t\<rparr>"

definition allowance_unlimited :: "time \<Rightarrow> allowance_spec" where
  "allowance_unlimited t = \<lparr>al_amount = u256_max, al_is_unlimited = True, al_last_set_at = t\<rparr>"

record permit2_allowance =
  p2_amount :: u256
  p2_expiration :: time
  p2_nonce :: u32

type_synonym contract_addr_key = "chain_id \<times> address"
type_synonym spender_key = "chain_id \<times> address \<times> spender"

record approval_set =
  ap_erc20 :: "(contract_addr_key, (spender, allowance_spec) fmap) fmap"
  ap_set_for_all :: "(contract_addr_key, spender fset) fmap"
  ap_permit2 :: "(spender_key, permit2_allowance) fmap"

definition approval_set_default :: approval_set where
  "approval_set_default = \<lparr>ap_erc20 = fmempty, ap_set_for_all = fmempty, ap_permit2 = fmempty\<rparr>"

definition allowance :: "approval_set \<Rightarrow> contract_addr_key \<Rightarrow> spender \<Rightarrow> allowance_spec option" where
  "allowance ap k s = Option.bind (fmlookup (ap_erc20 ap) k) (\<lambda>m. fmlookup m s)"

definition has_set_for_all :: "approval_set \<Rightarrow> contract_addr_key \<Rightarrow> spender \<Rightarrow> bool" where
  "has_set_for_all ap k s = (case fmlookup (ap_set_for_all ap) k of Some S \<Rightarrow> s |\<in>| S | None \<Rightarrow> False)"

definition permit2_of :: "approval_set \<Rightarrow> spender_key \<Rightarrow> permit2_allowance option" where
  "permit2_of ap k = fmlookup (ap_permit2 ap) k"

end
