(* ===== verification/Position_Types.thy ===== *)
theory Position_Types
  imports Asset_Types
begin

text \<open>
  Protocol positions (\<open>asset-model/state/src/position\<close>): lending accounts, perpetual positions,
  airdrop claims, launchpad allocations, vesting schedules and the Hyperliquid venue account
  with its per-domain merge of freshly fetched data.
\<close>

section \<open>Lending, perpetuals, airdrops, launchpads, vesting\<close>

record lending_account =
  la_market :: market_ref
  la_collaterals :: "(token_ref \<times> u256) list"
  la_debts :: "(token_ref \<times> u256 \<times> rate_mode) list"
  la_emode :: "u8 option"
  la_is_isolated :: bool
  la_health_factor :: "decimal live_field"
  la_ltv :: "decimal live_field"
  la_liquidation_threshold :: "decimal live_field"

datatype perp_side = Long | Short

datatype margin_mode = Isolated | Cross

record perp_position =
  pp_venue :: venue_ref
  pp_market :: market_ref
  pp_side :: perp_side
  pp_size_base :: u256
  pp_notional_usd :: u256
  pp_collateral :: "(token_ref \<times> u256) list"
  pp_entry_price :: price
  pp_margin_mode :: margin_mode
  pp_mark_price :: "price live_field"
  pp_liq_price :: "price option live_field"
  pp_unrealized_pnl :: "i256 live_field"
  pp_funding_owed :: "i256 live_field"
  pp_leverage :: "decimal live_field"

record merkle_proof =
  mp_leaf_index :: u64
  mp_siblings :: "string list"

datatype claim_status = Eligible | Claimable | Claimed | ClaimExpired

record airdrop_claim =
  ac_source :: protocol_ref
  ac_claimable :: token_ref
  ac_amount :: u256
  ac_proof :: "merkle_proof option"
  ac_claim_window :: "(time \<times> time) option"
  ac_status :: claim_status

datatype vest_curve =
    VestLinear
  | VestStepped "(time \<times> u256) list"
  | VestCustom string

record vest_schedule =
  vs_start :: time
  vs_cliff :: "time option"
  vs_end :: "time option"
  vs_curve :: vest_curve
  vs_total :: u256

record vesting_schedule =
  vg_granter :: protocol_ref
  vg_token :: token_ref
  vg_schedule :: vest_schedule
  vg_claimed :: u256
  vg_claimable_now :: u256

record launchpad_allocation =
  lp_platform :: protocol_ref
  lp_sale_id :: string
  lp_paid :: "(token_ref \<times> u256) list"
  lp_allocated :: "token_ref \<times> u256"
  lp_vest :: vest_schedule
  lp_claimed :: u256
  lp_claimable_now :: u256

section \<open>Hyperliquid account\<close>

record hl_fill_summary =
  hf_tid :: u64
  hf_time :: u64
  hf_coin :: string
  hf_closed_pnl :: decimal
  hf_px :: decimal
  hf_sz :: decimal

record equity_anchor =
  ea_value :: decimal
  ea_anchored_at :: time
  ea_trusted :: bool

record hl_position =
  hp_asset_index :: u32
  hp_symbol :: "string option"
  hp_is_long :: bool
  hp_size :: decimal
  hp_entry_price :: decimal

record hl_open_order =
  ho_asset_index :: u32
  ho_symbol :: "string option"
  ho_is_buy :: bool
  ho_price :: decimal
  ho_size :: decimal
  ho_reduce_only :: bool
  ho_tif :: string
  ho_oid :: "u64 option"
  ho_order_type :: "string option"
  ho_is_trigger :: "bool option"
  ho_trigger_price :: "decimal option"
  ho_trigger_condition :: "string option"
  ho_is_position_tpsl :: "bool option"

record hl_spot_balance =
  hs_coin :: string
  hs_token :: u32
  hs_total :: decimal
  hs_hold :: decimal
  hs_entry_ntl :: decimal
  hs_available_after_maintenance :: "decimal option"

record hl_staking_delegation =
  hd_validator :: address
  hd_amount :: decimal
  hd_locked_until_timestamp :: "u64 option"

record hl_staking_account =
  hk_delegated :: decimal
  hk_undelegated :: decimal
  hk_total_pending_withdrawal :: decimal
  hk_n_pending_withdrawals :: u32
  hk_delegations :: "hl_staking_delegation list"

record hl_vault_equity =
  hv_vault_address :: address
  hv_equity :: decimal
  hv_locked_until_timestamp :: "u64 option"

record hl_borrow_lend_balance =
  hb_basis :: decimal
  hb_value :: decimal

record hl_borrow_lend_token_state =
  hbt_token :: u32
  hbt_borrow :: hl_borrow_lend_balance
  hbt_supply :: hl_borrow_lend_balance

record hl_borrow_lend_account =
  hba_token_states :: "hl_borrow_lend_token_state list"
  hba_health :: "string option"
  hba_health_factor :: "decimal option"

record hl_leverage_setting =
  hlv_asset_index :: u32
  hlv_is_cross :: bool
  hlv_leverage :: u32

record hl_agent_approval =
  ha_agent_address :: address
  ha_agent_name :: "string option"

record hl_account =
  hl_perp_usdc :: "decimal option"
  hl_perp_account_value_usd :: "decimal option"
  hl_pending_outflow :: decimal
  hl_positions :: "hl_position list"
  hl_open_orders :: "hl_open_order list"
  hl_spot_balances :: "hl_spot_balance list"
  hl_staking :: "hl_staking_account option"
  hl_vault_equities :: "hl_vault_equity list"
  hl_borrow_lend :: "hl_borrow_lend_account option"
  hl_leverage_settings :: "hl_leverage_setting list"
  hl_agents :: "hl_agent_approval list"
  hl_equity_baseline :: "equity_anchor option"
  hl_equity_hwm :: "decimal option"
  hl_fill_window :: "hl_fill_summary list"
  hl_cumulative_net_flow :: decimal
  hl_ledger_cursor_ms :: u64

definition hl_account_default :: hl_account where
  "hl_account_default =
     \<lparr>hl_perp_usdc = None, hl_perp_account_value_usd = None, hl_pending_outflow = Decimal ''0'',
      hl_positions = [], hl_open_orders = [], hl_spot_balances = [], hl_staking = None,
      hl_vault_equities = [], hl_borrow_lend = None, hl_leverage_settings = [], hl_agents = [],
      hl_equity_baseline = None, hl_equity_hwm = None, hl_fill_window = [],
      hl_cumulative_net_flow = Decimal ''0'', hl_ledger_cursor_ms = 0\<rparr>"

record core_fresh =
  cf_clearinghouse :: bool
  cf_open_orders :: bool
  cf_spot :: bool

definition merge_core :: "hl_account \<Rightarrow> hl_account \<Rightarrow> core_fresh \<Rightarrow> hl_account" where
  "merge_core self core which =
     (let s1 = (if cf_clearinghouse which
                then self\<lparr>hl_perp_usdc := hl_perp_usdc core,
                          hl_perp_account_value_usd := hl_perp_account_value_usd core,
                          hl_positions := hl_positions core,
                          hl_leverage_settings := hl_leverage_settings core\<rparr>
                else self);
          s2 = (if cf_open_orders which then s1\<lparr>hl_open_orders := hl_open_orders core\<rparr> else s1)
      in if cf_spot which then s2\<lparr>hl_spot_balances := hl_spot_balances core\<rparr> else s2)"

definition utc_day :: "time \<Rightarrow> u64" where
  "utc_day t = as_unix t div 86400"

section \<open>Positions\<close>

datatype position_kind =
    LendingAccount lending_account
  | PerpPosition perp_position
  | AirdropClaim airdrop_claim
  | LaunchpadAllocation launchpad_allocation
  | VestingSchedule vesting_schedule
  | HyperliquidAccount hl_account

record position =
  pos_id :: string
  pos_protocol :: protocol_ref
  pos_chain :: "chain_id option"
  pos_kind :: position_kind
  pos_primitives_synced_at :: time
  pos_primitives_source :: data_source

end
