(* ===== verification/Wallet_State.thy ===== *)
theory Wallet_State
  imports Position_Types
begin

text \<open>
  Pending transactions, state deltas, the wallet snapshot and the evaluation context
  (\<open>asset-model/state/src\<close>: \<open>pending\<close>, \<open>delta\<close>, \<open>wallet.rs\<close>, \<open>eval_context.rs\<close>). \<open>PendingTx\<close>, \<open>StateDelta\<close>
  and \<open>PendingChange\<close> refer to each other through boxes, so they are one mutual datatype; a
  \<open>BTreeMap\<close> is an \<open>fmap\<close> and its iteration order is the derived \<open>Ord\<close> of its key.
\<close>

section \<open>Key orders\<close>

instantiation chain_id :: linorder
begin

definition less_eq_chain_id :: "chain_id \<Rightarrow> chain_id \<Rightarrow> bool" where
  "c \<le> d \<longleftrightarrow> chain_str c \<le> chain_str d"

definition less_chain_id :: "chain_id \<Rightarrow> chain_id \<Rightarrow> bool" where
  "c < d \<longleftrightarrow> chain_str c < chain_str d"

instance
  by standard (auto simp: less_eq_chain_id_def less_chain_id_def intro: chain_id.expand)

end

fun key_rank :: "token_key \<Rightarrow> nat \<times> chain_id \<times> address \<times> u256" where
  "key_rank (TK_Native c) = (0, c, 0, 0)"
| "key_rank (TK_Erc20 c a) = (1, c, a, 0)"
| "key_rank (TK_Erc721 c a i) = (2, c, a, i)"
| "key_rank (TK_Erc1155 c a i) = (3, c, a, i)"

lemma key_rank_inject: "key_rank k = key_rank k' \<longleftrightarrow> k = k'"
  by (cases k; cases k') auto

instantiation token_key :: linorder
begin

definition less_eq_token_key :: "token_key \<Rightarrow> token_key \<Rightarrow> bool" where
  "k \<le> k' \<longleftrightarrow> key_rank k \<le> key_rank k'"

definition less_token_key :: "token_key \<Rightarrow> token_key \<Rightarrow> bool" where
  "k < k' \<longleftrightarrow> key_rank k < key_rank k'"

instance
  by standard
    (auto simp: less_eq_token_key_def less_token_key_def key_rank_inject
      dest: order_antisym)

end

section \<open>Pending transactions and deltas\<close>

datatype asset_commitment =
    SpendCap token_ref u256
  | HardLock token_ref u256
  | PermitCap token_ref address u256
  | NoCommitment

fun cap_for :: "asset_commitment \<Rightarrow> token_key \<Rightarrow> u256" where
  "cap_for (SpendCap t m) k = (if ref_key t = k then m else 0)"
| "cap_for (PermitCap t _ m) k = (if ref_key t = k then m else 0)"
| "cap_for _ _ = 0"

datatype order_kind = Dutch | LimitOrder | Rfq

datatype perp_order_kind = PerpLimit | StopMarket | StopLimit | TakeProfit

datatype pending_kind =
    OffchainLimitOrder venue_ref token_ref token_ref u256 u256 order_kind
  | PerpVenueOrder venue_ref market_ref perp_side u256 price perp_order_kind bool
  | SignedPermit2 token_ref address u256 time "u256 \<times> u8"
  | SignedPermit2Transfer token_ref address address u256 time "u256 \<times> u8" "string option"
  | SignedEIP2612 token_ref address u256 time u256

datatype pending_status =
  PSActive | PSPartiallyFilled | PSFilled | PSCancelled | PSExpired | PSFailed | PSUnknown

datatype nonce_key = NonceKey_Permit2 u256 u8 | NonceKey_Eip2612 address u256 | NonceKey_OrderHash string

record pending_lifecycle =
  pl_status :: pending_status
  pl_valid_until :: "time option"
  pl_nonce :: "nonce_key option"
  pl_on_chain_tx :: "string option"
  pl_raw_status :: "string option"

definition is_active_or_partial :: "pending_lifecycle \<Rightarrow> bool" where
  "is_active_or_partial l \<longleftrightarrow> pl_status l = PSActive \<or> pl_status l = PSPartiallyFilled"

datatype approval_scope = Scope_Erc20 | Scope_SetForAll | Scope_Permit2 | Scope_Erc721Token

datatype token_change =
    BalanceDelta token_key i256
  | ApprovalSet token_key spender allowance_spec
  | ApprovalRevoke token_key spender approval_scope
  | Erc721ApprovedTo token_key "address option"
  | Mint token_key token_kind

datatype position_patch = PositionPatch (patch_fields: json)

datatype position_change =
    PosOpen position
  | PosUpdate string position_patch
  | PosClose string

datatype pending_remove_reason = RR_Filled | RR_Cancelled | RR_Expired | RR_Replaced | RR_SuperSeded

datatype pending_tx =
    PendingTx
      (ptx_id: string)
      (ptx_kind: pending_kind)
      (ptx_commitment: asset_commitment)
      (ptx_fill_effect: state_delta)
      (ptx_lifecycle: pending_lifecycle)
      (ptx_sync: data_source)
      (ptx_signed_at: time)
      (ptx_signature_payload: "u8 list")
and state_delta =
    StateDelta
      (token_changes: "token_change list")
      (position_changes: "position_change list")
      (pending_changes: "pending_change list")
      (gas_paid: "(token_ref \<times> u256) option")
and pending_change =
    PendingAdd pending_tx
  | PendingUpdate string pending_status "decimal option"
  | PendingRemove string pending_remove_reason

definition delta_new :: state_delta where
  "delta_new = StateDelta [] [] [] None"

definition delta_is_empty :: "state_delta \<Rightarrow> bool" where
  "delta_is_empty d \<longleftrightarrow>
     token_changes d = [] \<and> position_changes d = [] \<and> pending_changes d = [] \<and> gas_paid d = None"

text \<open>In-place pushes onto the vectors of a delta under construction.\<close>

definition push_token :: "token_change \<Rightarrow> state_delta \<Rightarrow> state_delta" where
  "push_token c d = StateDelta (token_changes d @ [c]) (position_changes d) (pending_changes d) (gas_paid d)"

definition push_position :: "position_change \<Rightarrow> state_delta \<Rightarrow> state_delta" where
  "push_position c d = StateDelta (token_changes d) (position_changes d @ [c]) (pending_changes d) (gas_paid d)"

definition push_pending :: "pending_change \<Rightarrow> state_delta \<Rightarrow> state_delta" where
  "push_pending c d = StateDelta (token_changes d) (position_changes d) (pending_changes d @ [c]) (gas_paid d)"

lemma push_sel [simp]:
  "token_changes (push_token c d) = token_changes d @ [c]"
  "position_changes (push_token c d) = position_changes d"
  "pending_changes (push_token c d) = pending_changes d"
  "gas_paid (push_token c d) = gas_paid d"
  "token_changes (push_position pc d) = token_changes d"
  "position_changes (push_position pc d) = position_changes d @ [pc]"
  "pending_changes (push_position pc d) = pending_changes d"
  "gas_paid (push_position pc d) = gas_paid d"
  "token_changes (push_pending qc d) = token_changes d"
  "position_changes (push_pending qc d) = position_changes d"
  "pending_changes (push_pending qc d) = pending_changes d @ [qc]"
  "gas_paid (push_pending qc d) = gas_paid d"
  by (simp_all add: push_token_def push_position_def push_pending_def)

lemma delta_new_sel [simp]:
  "token_changes delta_new = []" "position_changes delta_new = []"
  "pending_changes delta_new = []" "gas_paid delta_new = None"
  by (simp_all add: delta_new_def)

lemma delta_is_empty_iff: "delta_is_empty d \<longleftrightarrow> d = delta_new"
  by (cases d) (auto simp: delta_is_empty_def delta_new_def)

section \<open>Wallet snapshot\<close>

record wallet_id =
  wid_address :: address
  wid_chains :: "chain_id fset"

definition wallet_id_new :: "address \<Rightarrow> chain_id list \<Rightarrow> wallet_id" where
  "wallet_id_new a cs = \<lparr>wid_address = a, wid_chains = fset_of_list cs\<rparr>"

record wallet_state =
  ws_wallet_id :: wallet_id
  ws_tokens :: "(token_key, token_holding) fmap"
  ws_approvals :: approval_set
  ws_positions :: "position list"
  ws_pending :: "pending_tx list"
  ws_block_heights :: "(chain_id, block_height) fmap"
  ws_portfolio_value_usd :: "price option"

definition wallet_new :: "wallet_id \<Rightarrow> wallet_state" where
  "wallet_new w =
     \<lparr>ws_wallet_id = w, ws_tokens = fmempty, ws_approvals = approval_set_default,
      ws_positions = [], ws_pending = [], ws_block_heights = fmempty, ws_portfolio_value_usd = None\<rparr>"

definition available_balance :: "wallet_state \<Rightarrow> token_key \<Rightarrow> u256 option" where
  "available_balance w k = Option.bind (fmlookup (ws_tokens w) k) available"

datatype approval_entry =
    Entry_Erc20 contract_addr_key allowance_spec
  | Entry_SetForAll contract_addr_key
  | Entry_Permit2 spender_key permit2_allowance

definition all_approvals_to :: "wallet_state \<Rightarrow> spender \<Rightarrow> approval_entry list" where
  "all_approvals_to w sp =
     (let erc20 = concat (map (\<lambda>(key, m).
                    List.map_filter (\<lambda>(s, alw). if s = sp then Some (Entry_Erc20 key alw) else None)
                      (sorted_list_of_fmap m))
                    (sorted_list_of_fmap (ap_erc20 (ws_approvals w))));
          sfa = List.map_filter (\<lambda>(k, s). if sp |\<in>| s then Some (Entry_SetForAll k) else None)
                  (sorted_list_of_fmap (ap_set_for_all (ws_approvals w)));
          p2 = List.map_filter (\<lambda>(k, a). if snd (snd k) = sp then Some (Entry_Permit2 k a) else None)
                 (sorted_list_of_fmap (ap_permit2 (ws_approvals w)))
      in erc20 @ sfa @ p2)"

section \<open>Evaluation context\<close>

datatype request_kind = Transaction | Signature | UserOperation

datatype simulation_mode = Preview | Commit

record eval_context =
  ec_chain :: chain_id
  ec_now :: time
  ec_action_index :: nat
  ec_request_kind :: request_kind
  ec_simulation :: simulation_mode

definition eval_context_new :: "chain_id \<Rightarrow> time \<Rightarrow> request_kind \<Rightarrow> eval_context" where
  "eval_context_new c t k =
     \<lparr>ec_chain = c, ec_now = t, ec_action_index = 0, ec_request_kind = k, ec_simulation = Preview\<rparr>"

definition with_action_index :: "eval_context \<Rightarrow> nat \<Rightarrow> eval_context" where
  "with_action_index ctx i = ctx\<lparr>ec_action_index := i\<rparr>"

definition with_simulation :: "eval_context \<Rightarrow> simulation_mode \<Rightarrow> eval_context" where
  "with_simulation ctx m = ctx\<lparr>ec_simulation := m\<rparr>"

end
