(* ===== verification/Reducer_Base.thy ===== *)
theory Reducer_Base
  imports Wallet_State
begin

text \<open>
  Errors of the transition crate (\<open>asset-model/transition/src/error.rs\<close>) and the serde codec of
  a \<open>Position\<close>. The text that \<open>ReducerError::Invariant\<close> carries is a format string with its
  arguments; \<open>invariant_msg\<close> has one constructor per format string the modelled code
  uses, holding those arguments (\<open>unknown_msg\<close> likewise for \<open>UnknownAction\<close>). A message that is
  a fixed text, or has only texts and integers in it, is \<open>Text\<close> of that text; \<open>KeyText\<close> is a fixed text
  with a token key, \<open>LibError\<close> one that ends in the message of another library's error, and \<open>NameText\<close> one with the debug form of a name.
\<close>

datatype invariant_msg =
    ExpectedFungible token_key
  | DebitUnderflow token_key i256 u256
  | Erc1155RequiresAmount token_key
  | TransferNftKey token_key
  | NoContractAddress token_key
  | DeltaOnNonFungible token_key
  | DeltaUnderflow token_key u256 i256
  | ScopeNotInferred approval_scope token_key
  | AfterNotPosition
  | PositionSerialiseFailed
  | PositionNotObject
  | PatchNotObject json
  | PositionReDeserialiseFailed
  | PendingUpdateNotFound string
  | PendingRemoveNotFound string
  | GasNonFungible token_key
  | GasUnderflow token_key u256 u256
  | IncompatibleGas token_key token_key
  | NonErc20Token string
  | RequiresErc721 string
  | PositionAlreadyExists string
  | PositionNotKind string string
  | MutateChangedKind string string
  | TokenMustBeErc20 string
  | HlDecimalParse string
  | HlUnderflow decimal decimal
  | HlNegativeAmount decimal
  | Text string
  | BadU256Field string
  | CustomExecutor address
  | UnknownExecutor address string
  | NoExecutorList string
  | HashLength string
  | HashDigit string
  | NotConcentratedLp token_key
  | UnderlyingCount token_key nat
  | MintChainMismatch token_key chain_id
  | BurnLiquidityLeft token_key
  | BurnNotConcentrated token_key
  | BadDecimal string
  | BadDecimalIn string string
  | DecimalRange string
  | LibError string
  | KeyText string token_key
  | DebtMissing token_key rate_mode
  | SwapDebtMissing token_key rate_mode
  | UnsafeHealth decimal
  | NameText string string
  | NotVesting string position_kind

datatype unknown_msg = UnidentifiedCall address

datatype reducer_error =
    UnknownAction unknown_msg
  | MissingField string
  | TokenNotFound token_key
  | PositionNotFound string
  | Invariant invariant_msg
  | UnsupportedProtocol string string

type_synonym 'a reducer_result = "reducer_error + 'a"

text \<open>
  \<open>a.checked_op(b).ok_or_else(|| ReducerError::Invariant(msg))?\<close>, the form all overflow-checked
  arithmetic of the reducers has.
\<close>

definition checked_add_or :: "string \<Rightarrow> 'a::len word \<Rightarrow> 'a word \<Rightarrow> 'a word reducer_result" where
  "checked_add_or msg a b = ok_or (Invariant (Text msg)) (checked_add_u a b)"

definition checked_sub_or :: "string \<Rightarrow> 'a::len word \<Rightarrow> 'a word \<Rightarrow> 'a word reducer_result" where
  "checked_sub_or msg a b = ok_or (Invariant (Text msg)) (checked_sub_u a b)"

definition checked_mul_or :: "string \<Rightarrow> 'a::len word \<Rightarrow> 'a word \<Rightarrow> 'a word reducer_result" where
  "checked_mul_or msg a b = ok_or (Invariant (Text msg)) (checked_mul_u a b)"

named_theorems checked_simps \<open>successful checked arithmetic, read over the natural numbers\<close>

lemma checked_add_or_Ok [checked_simps]: "checked_add_or msg a b = Ok c \<longleftrightarrow> unat c = unat a + unat b"
  by (simp add: checked_add_or_def checked_add_u_unat)

lemma checked_sub_or_Ok [checked_simps]: "checked_sub_or msg a b = Ok c \<longleftrightarrow> unat a = unat b + unat c"
  by (simp add: checked_sub_or_def checked_sub_u_unat)

lemma checked_mul_or_Ok [checked_simps]: "checked_mul_or msg a b = Ok c \<longleftrightarrow> unat c = unat a * unat b"
  by (simp add: checked_mul_or_def checked_mul_u_unat)

lemma checked_or_Err:
  "checked_add_or msg a b = Err e \<Longrightarrow> e = Invariant (Text msg)"
  "checked_sub_or msg a b = Err e \<Longrightarrow> e = Invariant (Text msg)"
  "checked_mul_or msg a b = Err e \<Longrightarrow> e = Invariant (Text msg)"
  by (auto simp: checked_add_or_def checked_sub_or_def checked_mul_or_def ok_or_def split: option.splits)

text \<open>
  serde's derived encoding of \<open>Position\<close> is generated code: \<open>pc_to_value\<close> and \<open>pc_from_value\<close>
  stand for \<open>serde_json::to_value\<close> and \<open>serde_json::from_value\<close>, \<open>None\<close> for a serde error.
\<close>

record position_codec =
  pc_to_value :: "position \<Rightarrow> json option"
  pc_from_value :: "json \<Rightarrow> position option"

definition codec_roundtrips :: "position_codec \<Rightarrow> position \<Rightarrow> bool" where
  "codec_roundtrips cd p \<longleftrightarrow>
     (case pc_to_value cd p of None \<Rightarrow> False | Some j \<Rightarrow> pc_from_value cd j = Some p)"

text \<open>\<open>iter_mut().find(pred)\<close> followed by an update of the element found.\<close>

fun update_first :: "('a \<Rightarrow> bool) \<Rightarrow> ('a \<Rightarrow> 'e + 'a) \<Rightarrow> 'a list \<Rightarrow> ('e + 'a list) option" where
  "update_first P f [] = None"
| "update_first P f (x # xs) =
     (if P x then Some (bind_result (f x) (\<lambda>x'. Ok (x' # xs)))
      else map_option (\<lambda>r. bind_result r (\<lambda>xs'. Ok (x # xs'))) (update_first P f xs))"

lemma update_first_None_iff: "update_first P f xs = None \<longleftrightarrow> (\<forall>x\<in>set xs. \<not> P x)"
  by (induction xs) auto

lemma update_first_Ok:
  assumes "update_first P f xs = Some (Ok ys)"
  shows "\<exists>us x vs x'. xs = us @ x # vs \<and> P x \<and> (\<forall>u\<in>set us. \<not> P u) \<and> f x = Ok x' \<and> ys = us @ x' # vs"
  using assms
proof (induction xs arbitrary: ys)
  case (Cons a xs)
  show ?case
  proof (cases "P a")
    case True
    with Cons.prems obtain a' where "f a = Ok a'" "ys = a' # xs"
      by (auto simp: bind_result_eq_Ok)
    with True show ?thesis
      by (intro exI [of _ "[]"]) auto
  next
    case False
    with Cons.prems obtain zs where zs: "update_first P f xs = Some (Ok zs)" "ys = a # zs"
      by (auto simp: bind_result_eq_Ok)
    from Cons.IH [OF zs(1)] obtain us x vs x' where
      "xs = us @ x # vs" "P x" "\<forall>u\<in>set us. \<not> P u" "f x = Ok x'" "zs = us @ x' # vs"
      by blast
    with False zs(2) show ?thesis
      by (intro exI [of _ "a # us"] exI [of _ x] exI [of _ vs] exI [of _ x']) simp
  qed
qed simp

lemma update_first_split:
  assumes "\<forall>u\<in>set us. \<not> P u" and "P x"
  shows "update_first P f (us @ x # vs) = Some (bind_result (f x) (\<lambda>x'. Ok (us @ x' # vs)))"
  using assms by (induction us) (cases "f x"; auto)+

lemma update_first_ids:
  assumes "update_first (\<lambda>x. key x = k) f xs = Some (Ok ys)"
    and "\<And>x x'. f x = Ok x' \<Longrightarrow> key x' = key x"
  shows "map key ys = map key xs"
  using update_first_Ok [OF assms(1)] assms(2) by auto

end
