(* ===== verification/Fixtures.thy ===== *)
theory Fixtures
  imports Reducer_Base
begin

text \<open>
  Concrete wallets, tokens and positions at which the theorems with hypotheses are applied.
\<close>

definition usdc_key :: token_key where
  "usdc_key = TK_Erc20 ethereum_mainnet 0xA0"

definition eth_key :: token_key where
  "eth_key = TK_Native ethereum_mainnet"

definition nft_key :: token_key where
  "nft_key = TK_Erc721 ethereum_mainnet 0xB0 7"

definition sample_holding :: "token_key \<Rightarrow> balance \<Rightarrow> token_holding" where
  "sample_holding k b =
     \<lparr>h_key = k, h_kind = UnknownKind, h_symbol = ''T'', h_decimals = 6, h_balance = b,
      h_committed = zero_fungible, h_approved_to = None, h_price_usd = None, h_metadata = None,
      h_value_usd = None, h_last_synced_at = Time 0, h_primitives_source = UserSupplied\<rparr>"

definition sample_wallet :: wallet_state where
  "sample_wallet = (wallet_new (wallet_id_new 0xC0 [ethereum_mainnet]))
     \<lparr>ws_tokens := fmupd usdc_key (sample_holding usdc_key (Fungible 1000))
        (fmupd eth_key (sample_holding eth_key (Fungible 5))
          (fmupd nft_key (sample_holding nft_key Owned) fmempty))\<rparr>"

definition sample_position :: "string \<Rightarrow> string \<Rightarrow> position" where
  "sample_position i out =
     \<lparr>pos_id = i, pos_protocol = protocol_ref_new ''hyperliquid'', pos_chain = None,
      pos_kind = HyperliquidAccount (hl_account_default\<lparr>hl_pending_outflow := Decimal out\<rparr>),
      pos_primitives_synced_at = Time 0, pos_primitives_source = UserSupplied\<rparr>"

definition outflow_of :: "position \<Rightarrow> string" where
  "outflow_of p = (case pos_kind p of HyperliquidAccount a \<Rightarrow> decimal_str (hl_pending_outflow a) | _ \<Rightarrow> [])"

definition bump :: "string \<Rightarrow> position \<Rightarrow> position" where
  "bump t p = sample_position (pos_id p) (t @ outflow_of p)"

text \<open>A codec that encodes the sample positions by their id and pending outflow.\<close>

definition sample_codec :: position_codec where
  "sample_codec = \<lparr>pc_to_value = (\<lambda>p. Some (JArray [JString (pos_id p), JString (outflow_of p)])),
     pc_from_value = (\<lambda>j. case j of JArray [JString i, JString out] \<Rightarrow> Some (sample_position i out) | _ \<Rightarrow> None)\<rparr>"

definition account_wallet :: wallet_state where
  "account_wallet = sample_wallet\<lparr>ws_positions := [sample_position ''hl'' ''0'']\<rparr>"

definition opened_wallet :: wallet_state where
  "opened_wallet = account_wallet\<lparr>ws_positions := ws_positions account_wallet @ [sample_position ''aave'' ''0'']\<rparr>"

definition open_delta :: state_delta where
  "open_delta = StateDelta [] [PosOpen (sample_position ''aave'' ''0'')] [] None"

definition spend_delta :: state_delta where
  "spend_delta = StateDelta [BalanceDelta usdc_key (- 300)] [] [] None"

definition receive_delta :: state_delta where
  "receive_delta = StateDelta [BalanceDelta usdc_key 50] [] [] (Some (TokenRef eth_key, 2))"

definition grant_revoke_delta :: state_delta where
  "grant_revoke_delta = StateDelta
     [ApprovalSet usdc_key 0xD0 (allowance_new 9 (Time 3)), ApprovalRevoke usdc_key 0xD0 Scope_Erc20,
      ApprovalSet nft_key 0xD1 (allowance_unlimited (Time 3)), Erc721ApprovedTo nft_key (Some 0xD2),
      Mint (TK_Erc20 arbitrum 0xA1) UnknownKind] [] [] (Some (TokenRef eth_key, 1))"

lemma key_neq [simp]:
  "usdc_key \<noteq> eth_key" "eth_key \<noteq> usdc_key" "usdc_key \<noteq> nft_key" "nft_key \<noteq> usdc_key"
  "eth_key \<noteq> nft_key" "nft_key \<noteq> eth_key"
  by (simp_all add: usdc_key_def eth_key_def nft_key_def)

lemma sample_wallet_sel [simp]:
  "fmlookup (ws_tokens sample_wallet) usdc_key = Some (sample_holding usdc_key (Fungible 1000))"
  "fmlookup (ws_tokens sample_wallet) eth_key = Some (sample_holding eth_key (Fungible 5))"
  "fmlookup (ws_tokens sample_wallet) nft_key = Some (sample_holding nft_key Owned)"
  "ws_positions sample_wallet = []" "ws_pending sample_wallet = []"
  "ws_approvals sample_wallet = approval_set_default"
  "wid_address (ws_wallet_id sample_wallet) = 0xC0"
  by (simp_all add: sample_wallet_def wallet_new_def wallet_id_new_def)

lemma sample_holding_sel [simp]:
  "h_key (sample_holding k b) = k" "h_balance (sample_holding k b) = b"
  by (simp_all add: sample_holding_def)

lemma sample_position_sel [simp]:
  "pos_id (sample_position i out) = i" "outflow_of (sample_position i out) = out"
  by (simp_all add: sample_position_def outflow_of_def)

lemma sample_position_inject [simp]: "sample_position i out = sample_position i' out' \<longleftrightarrow> i = i' \<and> out = out'"
  by (metis sample_position_sel)

lemma bump_sel [simp]: "pos_id (bump t p) = pos_id p" "outflow_of (bump t p) = t @ outflow_of p"
  by (simp_all add: bump_def)

end
