(* ===== verification/Delta_Helpers.thy ===== *)
theory Delta_Helpers
  imports Fixtures
begin

text \<open>
  Forward application of a \<open>StateDelta\<close> to a \<open>WalletState\<close> and merging of deltas
  (\<open>asset-model/transition/src/helpers/delta.rs\<close>). The three change groups touch disjoint parts
  of the snapshot; the locale \<open>commuting_steps\<close> turns that into the law that merging is
  sequential composition.
\<close>

section \<open>Operations\<close>

definition u256_to_signed_saturating :: "u256 \<Rightarrow> i256" where
  "u256_to_signed_saturating v = (if uint v \<le> i256_max then v else i256_sat i256_max)"

definition signed_to_u256_saturating :: "i256 \<Rightarrow> u256" where
  "signed_to_u256_saturating v = (if is_negative v then 0 else v)"

fun approval_scope_for_set :: "token_key \<Rightarrow> approval_scope" where
  "approval_scope_for_set (TK_Native _) = Scope_Erc20"
| "approval_scope_for_set (TK_Erc20 _ _) = Scope_Erc20"
| "approval_scope_for_set (TK_Erc721 _ _ _) = Scope_SetForAll"
| "approval_scope_for_set (TK_Erc1155 _ _ _) = Scope_SetForAll"

definition contract_addr_key :: "token_key \<Rightarrow> contract_addr_key reducer_result" where
  "contract_addr_key k =
     (case key_contract k of
        None \<Rightarrow> Err (Invariant (NoContractAddress k))
      | Some a \<Rightarrow> Ok (tk_chain k, a))"

definition mint_stub_holding :: "token_key \<Rightarrow> token_kind \<Rightarrow> token_holding" where
  "mint_stub_holding k kind_hint =
     \<lparr>h_key = k, h_kind = kind_hint, h_symbol = '''', h_decimals = 0,
      h_balance = zero_fungible, h_committed = zero_fungible, h_approved_to = None,
      h_price_usd = None, h_metadata = None, h_value_usd = None, h_last_synced_at = Time 0,
      h_primitives_source =
        OnchainView (tk_chain k) (case key_contract k of Some a \<Rightarrow> a | None \<Rightarrow> 0)
          ''balanceOf(address)'' ''erc20_balance''\<rparr>"

text \<open>\<open>next.tokens.get_mut(key).ok_or_else(TokenNotFound)?\<close> followed by a write to the holding.\<close>

definition update_holding ::
  "wallet_state \<Rightarrow> token_key \<Rightarrow> (token_holding \<Rightarrow> token_holding reducer_result) \<Rightarrow> wallet_state reducer_result"
where
  "update_holding w k f =
     (case fmlookup (ws_tokens w) k of
        None \<Rightarrow> Err (TokenNotFound k)
      | Some h \<Rightarrow> bind_result (f h) (\<lambda>h'. Ok (w\<lparr>ws_tokens := fmupd k h' (ws_tokens w)\<rparr>)))"

definition apply_balance_delta :: "wallet_state \<Rightarrow> token_key \<Rightarrow> i256 \<Rightarrow> wallet_state reducer_result" where
  "apply_balance_delta w k d = update_holding w k (\<lambda>h.
     bind_result (ok_or (Invariant (DeltaOnNonFungible k)) (as_fungible (h_balance h))) (\<lambda>current.
       let signed = saturating_add_i (u256_to_signed_saturating current) d in
       if is_negative signed then Err (Invariant (DeltaUnderflow k current d))
       else Ok (h\<lparr>h_balance := Fungible (signed_to_u256_saturating signed)\<rparr>)))"

definition entry_or :: "'v \<Rightarrow> ('k, 'v) fmap \<Rightarrow> 'k \<Rightarrow> 'v" where
  "entry_or dflt m k = (case fmlookup m k of None \<Rightarrow> dflt | Some v \<Rightarrow> v)"

definition apply_approval_set ::
  "wallet_state \<Rightarrow> token_key \<Rightarrow> spender \<Rightarrow> allowance_spec \<Rightarrow> wallet_state reducer_result"
where
  "apply_approval_set w k sp al =
     (case approval_scope_for_set k of
        Scope_Erc20 \<Rightarrow> bind_result (contract_addr_key k) (\<lambda>ak.
          let ap = ws_approvals w; m = entry_or fmempty (ap_erc20 ap) ak in
          Ok (w\<lparr>ws_approvals := ap\<lparr>ap_erc20 := fmupd ak (fmupd sp al m) (ap_erc20 ap)\<rparr>\<rparr>))
      | Scope_SetForAll \<Rightarrow> bind_result (contract_addr_key k) (\<lambda>ak.
          let ap = ws_approvals w; s = entry_or {||} (ap_set_for_all ap) ak in
          Ok (w\<lparr>ws_approvals := ap\<lparr>ap_set_for_all := fmupd ak (finsert sp s) (ap_set_for_all ap)\<rparr>\<rparr>))
      | scope \<Rightarrow> Err (Invariant (ScopeNotInferred scope k)))"

definition remove_allowance :: "approval_set \<Rightarrow> contract_addr_key \<Rightarrow> spender \<Rightarrow> approval_set" where
  "remove_allowance ap ak sp =
     (case fmlookup (ap_erc20 ap) ak of
        None \<Rightarrow> ap
      | Some m \<Rightarrow> let m' = fmdrop sp m in
          if m' = fmempty then ap\<lparr>ap_erc20 := fmdrop ak (ap_erc20 ap)\<rparr>
          else ap\<lparr>ap_erc20 := fmupd ak m' (ap_erc20 ap)\<rparr>)"

definition remove_operator :: "approval_set \<Rightarrow> contract_addr_key \<Rightarrow> spender \<Rightarrow> approval_set" where
  "remove_operator ap ak sp =
     (case fmlookup (ap_set_for_all ap) ak of
        None \<Rightarrow> ap
      | Some s \<Rightarrow> let s' = s |-| {|sp|} in
          if s' = {||} then ap\<lparr>ap_set_for_all := fmdrop ak (ap_set_for_all ap)\<rparr>
          else ap\<lparr>ap_set_for_all := fmupd ak s' (ap_set_for_all ap)\<rparr>)"

definition apply_approval_revoke ::
  "wallet_state \<Rightarrow> token_key \<Rightarrow> spender \<Rightarrow> approval_scope \<Rightarrow> wallet_state reducer_result"
where
  "apply_approval_revoke w k sp scope =
     (case scope of
        Scope_Erc20 \<Rightarrow> bind_result (contract_addr_key k) (\<lambda>ak.
          Ok (w\<lparr>ws_approvals := remove_allowance (ws_approvals w) ak sp\<rparr>))
      | Scope_SetForAll \<Rightarrow> bind_result (contract_addr_key k) (\<lambda>ak.
          Ok (w\<lparr>ws_approvals := remove_operator (ws_approvals w) ak sp\<rparr>))
      | Scope_Permit2 \<Rightarrow> bind_result (contract_addr_key k) (\<lambda>ak.
          Ok (w\<lparr>ws_approvals := (ws_approvals w)\<lparr>ap_permit2 := fmdrop (fst ak, snd ak, sp) (ap_permit2 (ws_approvals w))\<rparr>\<rparr>))
      | Scope_Erc721Token \<Rightarrow> update_holding w k (\<lambda>h. Ok (h\<lparr>h_approved_to := None\<rparr>)))"

fun apply_token_change :: "wallet_state \<Rightarrow> token_change \<Rightarrow> wallet_state reducer_result" where
  "apply_token_change w (BalanceDelta k d) = apply_balance_delta w k d"
| "apply_token_change w (ApprovalSet k sp al) = apply_approval_set w k sp al"
| "apply_token_change w (ApprovalRevoke k sp scope) = apply_approval_revoke w k sp scope"
| "apply_token_change w (Erc721ApprovedTo k sp) =
     update_holding w k (\<lambda>h. Ok (h\<lparr>h_approved_to := sp\<rparr>))"
| "apply_token_change w (Mint k kind_hint) =
     (case fmlookup (ws_tokens w) k of
        Some _ \<Rightarrow> Ok w
      | None \<Rightarrow> Ok (w\<lparr>ws_tokens := fmupd k (mint_stub_holding k kind_hint) (ws_tokens w)\<rparr>))"

definition apply_position_patch :: "position_codec \<Rightarrow> position \<Rightarrow> position_patch \<Rightarrow> position reducer_result" where
  "apply_position_patch cd target patch =
     (let fields = patch_fields patch in
      case json_get fields ''after'' of
        Some after \<Rightarrow> ok_or (Invariant AfterNotPosition) (pc_from_value cd after)
      | None \<Rightarrow>
          bind_result (ok_or (Invariant PositionSerialiseFailed) (pc_to_value cd target)) (\<lambda>as_json.
          bind_result (ok_or (Invariant PositionNotObject) (as_object as_json)) (\<lambda>target_obj.
          bind_result (ok_or (Invariant (PatchNotObject fields)) (as_object fields)) (\<lambda>patch_obj.
            ok_or (Invariant PositionReDeserialiseFailed)
              (pc_from_value cd (JObject (fmadd target_obj patch_obj)))))))"

fun apply_position_change :: "position_codec \<Rightarrow> wallet_state \<Rightarrow> position_change \<Rightarrow> wallet_state reducer_result" where
  "apply_position_change cd w (PosOpen p) = Ok (w\<lparr>ws_positions := ws_positions w @ [p]\<rparr>)"
| "apply_position_change cd w (PosUpdate i patch) =
     (case update_first (\<lambda>p. pos_id p = i) (\<lambda>p. apply_position_patch cd p patch) (ws_positions w) of
        None \<Rightarrow> Err (PositionNotFound i)
      | Some r \<Rightarrow> bind_result r (\<lambda>ps. Ok (w\<lparr>ws_positions := ps\<rparr>)))"
| "apply_position_change cd w (PosClose i) =
     (let ps = filter (\<lambda>p. pos_id p \<noteq> i) (ws_positions w) in
      if length ps = length (ws_positions w) then Err (PositionNotFound i)
      else Ok (w\<lparr>ws_positions := ps\<rparr>))"

definition set_pending_status :: "pending_status \<Rightarrow> pending_tx \<Rightarrow> pending_tx" where
  "set_pending_status st p =
     PendingTx (ptx_id p) (ptx_kind p) (ptx_commitment p) (ptx_fill_effect p)
       ((ptx_lifecycle p)\<lparr>pl_status := st\<rparr>) (ptx_sync p) (ptx_signed_at p) (ptx_signature_payload p)"

fun apply_pending_change :: "wallet_state \<Rightarrow> pending_change \<Rightarrow> wallet_state reducer_result" where
  "apply_pending_change w (PendingAdd p) = Ok (w\<lparr>ws_pending := ws_pending w @ [p]\<rparr>)"
| "apply_pending_change w (PendingUpdate i st partial_fill) =
     (case update_first (\<lambda>p. ptx_id p = i) (\<lambda>p. Ok (set_pending_status st p)) (ws_pending w) of
        None \<Rightarrow> Err (Invariant (PendingUpdateNotFound i))
      | Some r \<Rightarrow> bind_result r (\<lambda>ps. Ok (w\<lparr>ws_pending := ps\<rparr>)))"
| "apply_pending_change w (PendingRemove i reason) =
     (let ps = filter (\<lambda>p. ptx_id p \<noteq> i) (ws_pending w) in
      if length ps = length (ws_pending w) then Err (Invariant (PendingRemoveNotFound i))
      else Ok (w\<lparr>ws_pending := ps\<rparr>))"

definition apply_gas_paid :: "wallet_state \<Rightarrow> token_ref \<Rightarrow> u256 \<Rightarrow> wallet_state reducer_result" where
  "apply_gas_paid w t amount =
     (let k = ref_key t in update_holding w k (\<lambda>h.
       bind_result (ok_or (Invariant (GasNonFungible k)) (as_fungible (h_balance h))) (\<lambda>current.
       bind_result (ok_or (Invariant (GasUnderflow k current amount)) (checked_sub_u current amount)) (\<lambda>n.
         Ok (h\<lparr>h_balance := Fungible n\<rparr>)))))"

definition apply_gas :: "wallet_state \<Rightarrow> (token_ref \<times> u256) option \<Rightarrow> wallet_state reducer_result" where
  "apply_gas w g = (case g of None \<Rightarrow> Ok w | Some (t, a) \<Rightarrow> apply_gas_paid w t a)"

definition apply_delta :: "position_codec \<Rightarrow> wallet_state \<Rightarrow> state_delta \<Rightarrow> wallet_state reducer_result" where
  "apply_delta cd w d =
     bind_result (try_fold apply_token_change w (token_changes d)) (\<lambda>w1.
     bind_result (try_fold (apply_position_change cd) w1 (position_changes d)) (\<lambda>w2.
     bind_result (try_fold apply_pending_change w2 (pending_changes d)) (\<lambda>w3.
       apply_gas w3 (gas_paid d))))"

definition merge_gas ::
  "(token_ref \<times> u256) option \<Rightarrow> (token_ref \<times> u256) option \<Rightarrow> (token_ref \<times> u256) option reducer_result"
where
  "merge_gas ga gb =
     (case (ga, gb) of
        (None, None) \<Rightarrow> Ok None
      | (Some g, None) \<Rightarrow> Ok (Some g)
      | (None, Some g) \<Rightarrow> Ok (Some g)
      | (Some (ta, a), Some (tb, b)) \<Rightarrow>
          if ref_key ta \<noteq> ref_key tb then Err (Invariant (IncompatibleGas (ref_key ta) (ref_key tb)))
          else Ok (Some (ta, saturating_add_u a b)))"

definition merge_delta :: "state_delta \<Rightarrow> state_delta \<Rightarrow> state_delta reducer_result" where
  "merge_delta a b =
     bind_result (merge_gas (gas_paid a) (gas_paid b)) (\<lambda>g.
       Ok (StateDelta (token_changes a @ token_changes b) (position_changes a @ position_changes b)
             (pending_changes a @ pending_changes b) g))"

section \<open>Successful runs as relations\<close>

definition runs :: "('s \<Rightarrow> 'a \<Rightarrow> 'e + 's) \<Rightarrow> 'a list \<Rightarrow> ('s \<times> 's) set" where
  "runs f xs = {(s, t). try_fold f s xs = Ok t}"

lemma in_runs [simp]: "(s, t) \<in> runs f xs \<longleftrightarrow> try_fold f s xs = Ok t"
  by (simp add: runs_def)

lemma runs_append: "runs f (xs @ ys) = runs f xs O runs f ys"
  by (auto simp: relcomp_unfold try_fold_append bind_result_eq_Ok)

lemma runs_Nil [simp]: "runs f [] = Id"
  by auto

definition gas_runs :: "(token_ref \<times> u256) option \<Rightarrow> (wallet_state \<times> wallet_state) set" where
  "gas_runs g = {(s, t). apply_gas s g = Ok t}"

lemma gas_runs_None [simp]: "gas_runs None = Id"
  by (auto simp: gas_runs_def apply_gas_def)

definition delta_runs :: "position_codec \<Rightarrow> state_delta \<Rightarrow> (wallet_state \<times> wallet_state) set" where
  "delta_runs cd d =
     runs apply_token_change (token_changes d) O runs (apply_position_change cd) (position_changes d) O
     runs apply_pending_change (pending_changes d) O gas_runs (gas_paid d)"

lemma apply_delta_iff_runs: "apply_delta cd w d = Ok w' \<longleftrightarrow> (w, w') \<in> delta_runs cd d"
  by (auto simp: apply_delta_def delta_runs_def gas_runs_def relcomp_unfold bind_result_eq_Ok)

section \<open>Change groups act on disjoint parts of the snapshot\<close>

text \<open>
  Two fallible step functions commute when running one step of each succeeds with the same
  result in either order. Folding preserves that.
\<close>

locale commuting_steps =
  fixes f :: "'s \<Rightarrow> 'a \<Rightarrow> 'e + 's"
    and g :: "'s \<Rightarrow> 'b \<Rightarrow> 'e + 's"
  assumes swap: "bind_result (f s x) (\<lambda>s'. g s' y) = Ok t \<longleftrightarrow> bind_result (g s y) (\<lambda>s'. f s' x) = Ok t"
begin

lemma swap_fold:
  "bind_result (try_fold f s xs) (\<lambda>s'. g s' y) = Ok t \<longleftrightarrow> bind_result (g s y) (\<lambda>s'. try_fold f s' xs) = Ok t"
proof (induction xs arbitrary: s)
  case (Cons x xs)
  have "bind_result (try_fold f s (x # xs)) (\<lambda>s'. g s' y) = Ok t \<longleftrightarrow>
      (\<exists>u. bind_result (f s x) (\<lambda>s'. g s' y) = Ok u \<and> try_fold f u xs = Ok t)"
    using Cons.IH by (auto simp: bind_result_eq_Ok; blast)
  also have "\<dots> \<longleftrightarrow> (\<exists>u. bind_result (g s y) (\<lambda>s'. f s' x) = Ok u \<and> try_fold f u xs = Ok t)"
    by (simp only: swap)
  finally show ?case
    by (auto simp: bind_result_eq_Ok)
qed simp

lemma swap_folds:
  "bind_result (try_fold f s xs) (\<lambda>s'. try_fold g s' ys) = Ok t \<longleftrightarrow>
   bind_result (try_fold g s ys) (\<lambda>s'. try_fold f s' xs) = Ok t"
proof (induction ys arbitrary: s)
  case (Cons y ys)
  have "bind_result (try_fold f s xs) (\<lambda>s'. try_fold g s' (y # ys)) = Ok t \<longleftrightarrow>
      (\<exists>u. bind_result (try_fold f s xs) (\<lambda>s'. g s' y) = Ok u \<and> try_fold g u ys = Ok t)"
    by (auto simp: bind_result_eq_Ok)
  also have "\<dots> \<longleftrightarrow> (\<exists>u. bind_result (g s y) (\<lambda>s'. try_fold f s' xs) = Ok u \<and> try_fold g u ys = Ok t)"
    by (simp only: swap_fold)
  also have "\<dots> \<longleftrightarrow> bind_result (try_fold g s (y # ys)) (\<lambda>s'. try_fold f s' xs) = Ok t"
    using Cons.IH by (auto simp: bind_result_eq_Ok; blast)
  finally show ?case .
qed simp

lemma swap_runs: "runs f xs O runs g ys = runs g ys O runs f xs"
  using swap_folds by (auto simp: relcomp_unfold bind_result_eq_Ok; blast)

end

text \<open>
  A step acts through a part of the state when it is a step on that part, written back. Steps
  that act through independent parts commute.
\<close>

definition on_part ::
  "('s \<Rightarrow> 'p) \<Rightarrow> ('p \<Rightarrow> 's \<Rightarrow> 's) \<Rightarrow> ('p \<Rightarrow> 'a \<Rightarrow> 'e + 'p) \<Rightarrow> 's \<Rightarrow> 'a \<Rightarrow> 'e + 's"
where
  "on_part get put step s x = bind_result (step (get s) x) (\<lambda>p. Ok (put p s))"

lemma on_part_swap:
  assumes "\<And>p s. get2 (put1 p s) = get2 s" and "\<And>q s. get1 (put2 q s) = get1 s"
    and "\<And>p q s. put1 p (put2 q s) = put2 q (put1 p s)"
  shows "bind_result (on_part get1 put1 step1 s x) (\<lambda>s'. on_part get2 put2 step2 s' y) = Ok t \<longleftrightarrow>
    bind_result (on_part get2 put2 step2 s y) (\<lambda>s'. on_part get1 put1 step1 s' x) = Ok t"
  by (auto simp: on_part_def bind_result_eq_Ok assms)

abbreviation token_part :: "wallet_state \<Rightarrow> (token_key, token_holding) fmap \<times> approval_set" where
  "token_part w \<equiv> (ws_tokens w, ws_approvals w)"

abbreviation put_token_part ::
  "(token_key, token_holding) fmap \<times> approval_set \<Rightarrow> wallet_state \<Rightarrow> wallet_state" where
  "put_token_part p w \<equiv> w\<lparr>ws_tokens := fst p, ws_approvals := snd p\<rparr>"

abbreviation put_positions :: "position list \<Rightarrow> wallet_state \<Rightarrow> wallet_state" where
  "put_positions ps w \<equiv> w\<lparr>ws_positions := ps\<rparr>"

abbreviation put_pending :: "pending_tx list \<Rightarrow> wallet_state \<Rightarrow> wallet_state" where
  "put_pending ps w \<equiv> w\<lparr>ws_pending := ps\<rparr>"

text \<open>The steps on each part, read off the wallet-level ones at an arbitrary wallet.\<close>

definition blank_wallet :: wallet_state where
  "blank_wallet = wallet_new \<lparr>wid_address = 0, wid_chains = {||}\<rparr>"

definition token_step ::
  "(token_key, token_holding) fmap \<times> approval_set \<Rightarrow> token_change \<Rightarrow>
   ((token_key, token_holding) fmap \<times> approval_set) reducer_result" where
  "token_step p tc = bind_result (apply_token_change (put_token_part p blank_wallet) tc) (\<lambda>w. Ok (token_part w))"

definition position_step :: "position_codec \<Rightarrow> position list \<Rightarrow> position_change \<Rightarrow> position list reducer_result" where
  "position_step cd ps pc =
     bind_result (apply_position_change cd (put_positions ps blank_wallet) pc) (\<lambda>w. Ok (ws_positions w))"

definition pending_step :: "pending_tx list \<Rightarrow> pending_change \<Rightarrow> pending_tx list reducer_result" where
  "pending_step ps pc =
     bind_result (apply_pending_change (put_pending ps blank_wallet) pc) (\<lambda>w. Ok (ws_pending w))"

lemma record_put_simps:
  "ws_tokens w = a \<Longrightarrow> w\<lparr>ws_tokens := a\<rparr> = w" "ws_approvals w = b \<Longrightarrow> w\<lparr>ws_approvals := b\<rparr> = w"
  by (cases w; auto)+

lemma update_holding_on_part:
  "update_holding w k f = bind_result (update_holding (put_token_part (token_part w) v) k f)
     (\<lambda>u. Ok (put_token_part (token_part u) w))"
  by (cases w) (auto simp: update_holding_def bind_result_assoc split: option.splits)

lemma apply_token_change_on_part:
  "apply_token_change w tc = on_part token_part put_token_part token_step w tc"
proof (cases tc)
  case (BalanceDelta k d)
  then show ?thesis
    using update_holding_on_part [of w _ _ blank_wallet]
    by (simp add: on_part_def token_step_def apply_balance_delta_def bind_result_assoc)
next
  case (ApprovalSet k sp al)
  then show ?thesis
    by (cases w) (auto simp: on_part_def token_step_def apply_approval_set_def bind_result_assoc Let_def
        split: approval_scope.splits)
next
  case (ApprovalRevoke k sp scope)
  then show ?thesis
    using update_holding_on_part [of w _ _ blank_wallet]
    by (cases w) (auto simp: on_part_def token_step_def apply_approval_revoke_def bind_result_assoc
        split: approval_scope.splits prod.splits)
next
  case (Erc721ApprovedTo k sp)
  then show ?thesis
    using update_holding_on_part [of w _ _ blank_wallet]
    by (simp add: on_part_def token_step_def bind_result_assoc)
next
  case (Mint k kd)
  then show ?thesis
    by (cases w) (auto simp: on_part_def token_step_def split: option.splits)
qed

lemma apply_position_change_on_part:
  "apply_position_change cd w pc = on_part ws_positions put_positions (position_step cd) w pc"
  by (cases pc; cases w)
    (auto simp: on_part_def position_step_def bind_result_assoc Let_def split: option.splits)

lemma apply_pending_change_on_part:
  "apply_pending_change w pc = on_part ws_pending put_pending pending_step w pc"
  by (cases pc; cases w)
    (auto simp: on_part_def pending_step_def bind_result_assoc Let_def split: option.splits)

interpretation token_position: commuting_steps apply_token_change "apply_position_change cd" for cd
  by unfold_locales
    (unfold apply_token_change_on_part apply_position_change_on_part, rule on_part_swap, auto)

interpretation token_pending: commuting_steps apply_token_change apply_pending_change
  by unfold_locales
    (unfold apply_token_change_on_part apply_pending_change_on_part, rule on_part_swap, auto)

interpretation position_pending: commuting_steps "apply_position_change cd" apply_pending_change for cd
  by unfold_locales
    (unfold apply_position_change_on_part apply_pending_change_on_part, rule on_part_swap, auto)

section \<open>Merging is sequential composition\<close>

lemma delta_runs_merge:
  assumes "merge_delta a b = Ok m" and "gas_paid a = None"
  shows "delta_runs cd m = delta_runs cd a O delta_runs cd b"
proof -
  let ?T = "runs apply_token_change" and ?P = "runs (apply_position_change cd)" and ?Q = "runs apply_pending_change"
  let ?ta = "?T (token_changes a)" and ?pa = "?P (position_changes a)" and ?qa = "?Q (pending_changes a)"
  let ?tb = "?T (token_changes b)" and ?pb = "?P (position_changes b)" and ?qb = "?Q (pending_changes b)"
  have m: "m = StateDelta (token_changes a @ token_changes b) (position_changes a @ position_changes b)
      (pending_changes a @ pending_changes b) (gas_paid b)"
    using assms by (auto simp: merge_delta_def merge_gas_def split: option.splits)
  have qt: "?qa O ?tb = ?tb O ?qa"
    by (simp add: token_pending.swap_runs)
  have pt: "?pa O ?tb = ?tb O ?pa"
    by (simp add: token_position.swap_runs)
  have qp: "?qa O ?pb = ?pb O ?qa"
    by (simp add: position_pending.swap_runs)
  have "delta_runs cd a O delta_runs cd b =
      ?ta O ?pa O (?qa O ?tb) O ?pb O ?qb O gas_runs (gas_paid b)"
    using assms(2) by (simp add: delta_runs_def O_assoc)
  also have "\<dots> = ?ta O (?pa O ?tb) O (?qa O ?pb) O ?qb O gas_runs (gas_paid b)"
    by (simp only: qt O_assoc)
  also have "\<dots> = (?ta O ?tb) O (?pa O ?pb) O (?qa O ?qb) O gas_runs (gas_paid b)"
    by (simp only: pt qp O_assoc)
  also have "\<dots> = delta_runs cd m"
    by (simp add: m delta_runs_def runs_append)
  finally show ?thesis
    by (rule sym)
qed

lemma merge_delta_no_gas_total:
  assumes "gas_paid a = None"
  shows "merge_delta a b = Ok (StateDelta (token_changes a @ token_changes b)
    (position_changes a @ position_changes b) (pending_changes a @ pending_changes b) (gas_paid b))"
  using assms by (auto simp: merge_delta_def merge_gas_def split: option.splits)

section \<open>Approval look-ups after a change\<close>

definition add_allowance :: "approval_set \<Rightarrow> contract_addr_key \<Rightarrow> spender \<Rightarrow> allowance_spec \<Rightarrow> approval_set" where
  "add_allowance ap ak sp al =
     ap\<lparr>ap_erc20 := fmupd ak (fmupd sp al (entry_or fmempty (ap_erc20 ap) ak)) (ap_erc20 ap)\<rparr>"

definition add_operator :: "approval_set \<Rightarrow> contract_addr_key \<Rightarrow> spender \<Rightarrow> approval_set" where
  "add_operator ap ak sp =
     ap\<lparr>ap_set_for_all := fmupd ak (finsert sp (entry_or {||} (ap_set_for_all ap) ak)) (ap_set_for_all ap)\<rparr>"

lemma apply_approval_set_erc20:
  "apply_approval_set w (TK_Erc20 c a) sp al = Ok (w\<lparr>ws_approvals := add_allowance (ws_approvals w) (c, a) sp al\<rparr>)"
  by (simp add: apply_approval_set_def contract_addr_key_def add_allowance_def Let_def)

lemma apply_approval_set_erc721:
  "apply_approval_set w (TK_Erc721 c a i) sp al = Ok (w\<lparr>ws_approvals := add_operator (ws_approvals w) (c, a) sp\<rparr>)"
  by (simp add: apply_approval_set_def contract_addr_key_def add_operator_def Let_def)

lemma allowance_add_allowance:
  "allowance (add_allowance ap ak sp al) ck s = (if ck = ak \<and> s = sp then Some al else allowance ap ck s)"
  by (auto simp: allowance_def add_allowance_def entry_or_def split: option.splits)

lemma allowance_remove_allowance:
  "allowance (remove_allowance ap ak sp) ck s = (if ck = ak \<and> s = sp then None else allowance ap ck s)"
proof -
  have "fmdrop sp m = fmempty \<Longrightarrow> s \<noteq> sp \<Longrightarrow> fmlookup m s = None" for m :: "(spender, allowance_spec) fmap"
    by (metis fmempty_lookup fmlookup_drop)
  then show ?thesis
    by (auto simp: allowance_def remove_allowance_def Let_def split: option.splits)
qed

lemma has_set_for_all_add_operator:
  "has_set_for_all (add_operator ap ak sp) ck s \<longleftrightarrow> (ck = ak \<and> s = sp) \<or> has_set_for_all ap ck s"
  by (auto simp: has_set_for_all_def add_operator_def entry_or_def split: option.splits)

lemma has_set_for_all_remove_operator:
  "has_set_for_all (remove_operator ap ak sp) ck s \<longleftrightarrow> \<not> (ck = ak \<and> s = sp) \<and> has_set_for_all ap ck s"
  by (auto simp: has_set_for_all_def remove_operator_def Let_def split: option.splits)

lemma approval_maps_frame [simp]:
  "ap_set_for_all (add_allowance ap ak sp al) = ap_set_for_all ap"
  "ap_permit2 (add_allowance ap ak sp al) = ap_permit2 ap"
  "ap_set_for_all (remove_allowance ap ak sp) = ap_set_for_all ap"
  "ap_permit2 (remove_allowance ap ak sp) = ap_permit2 ap"
  "ap_erc20 (add_operator ap ak sp) = ap_erc20 ap"
  "ap_permit2 (add_operator ap ak sp) = ap_permit2 ap"
  "ap_erc20 (remove_operator ap ak sp) = ap_erc20 ap"
  "ap_permit2 (remove_operator ap ak sp) = ap_permit2 ap"
  by (auto simp: add_allowance_def remove_allowance_def add_operator_def remove_operator_def Let_def
      split: option.splits)

section \<open>Well-formed snapshots\<close>

text \<open>
  Every holding is stored under its own key, and the nested approval maps are pruned: a contract
  with no remaining allowance or operator has no entry.
\<close>

definition tokens_keyed :: "wallet_state \<Rightarrow> bool" where
  "tokens_keyed w \<longleftrightarrow> fmpred (\<lambda>k h. h_key h = k) (ws_tokens w)"

definition approvals_pruned :: "approval_set \<Rightarrow> bool" where
  "approvals_pruned ap \<longleftrightarrow>
     fmpred (\<lambda>_ m. m \<noteq> fmempty) (ap_erc20 ap) \<and> fmpred (\<lambda>_ s. s \<noteq> {||}) (ap_set_for_all ap)"

definition wallet_wf :: "wallet_state \<Rightarrow> bool" where
  "wallet_wf w \<longleftrightarrow> tokens_keyed w \<and> approvals_pruned (ws_approvals w)"

lemma update_holding_Ok:
  assumes "update_holding w k f = Ok w'"
  obtains h h' where "fmlookup (ws_tokens w) k = Some h" "f h = Ok h'"
    "w' = w\<lparr>ws_tokens := fmupd k h' (ws_tokens w)\<rparr>"
  using assms by (auto simp: update_holding_def bind_result_eq_Ok split: option.splits)

lemma update_holding_wf:
  assumes "update_holding w k f = Ok w'" and "\<And>h h'. f h = Ok h' \<Longrightarrow> h_key h' = h_key h" and "wallet_wf w"
  shows "wallet_wf w'"
  using assms by (auto simp: wallet_wf_def tokens_keyed_def fmpred_iff split: if_splits elim!: update_holding_Ok)

lemma fmupd_not_empty: "fmupd k v m \<noteq> fmempty"
  by (metis fmempty_lookup fmupd_lookup option.distinct(1))

lemma approvals_pruned_changes:
  assumes "approvals_pruned ap"
  shows "approvals_pruned (add_allowance ap ak sp al)" "approvals_pruned (remove_allowance ap ak sp)"
    "approvals_pruned (add_operator ap ak sp)" "approvals_pruned (remove_operator ap ak sp)"
    "approvals_pruned (ap\<lparr>ap_permit2 := m\<rparr>)"
  using assms
  by (auto simp: approvals_pruned_def fmpred_iff fmupd_not_empty add_allowance_def remove_allowance_def
      add_operator_def remove_operator_def Let_def split: option.splits if_splits)

lemma apply_approval_set_cases:
  assumes "apply_approval_set w k sp al = Ok w'"
  shows "\<exists>ak. w' = w\<lparr>ws_approvals := add_allowance (ws_approvals w) ak sp al\<rparr> \<or>
    w' = w\<lparr>ws_approvals := add_operator (ws_approvals w) ak sp\<rparr>"
  using assms
  by (cases k) (auto simp: apply_approval_set_def contract_addr_key_def add_allowance_def add_operator_def Let_def)

lemma wallet_wf_approvals:
  "wallet_wf w \<Longrightarrow> approvals_pruned ap \<Longrightarrow> wallet_wf (w\<lparr>ws_approvals := ap\<rparr>)"
  by (simp add: wallet_wf_def tokens_keyed_def)

lemma apply_token_change_wf:
  assumes "wallet_wf w" and "apply_token_change w tc = Ok w'"
  shows "wallet_wf w'"
proof (cases tc)
  case (BalanceDelta k d)
  with assms show ?thesis
    by (auto simp: apply_balance_delta_def bind_result_eq_Ok Let_def split: if_splits elim!: update_holding_wf)
next
  case (ApprovalSet k sp al)
  with assms apply_approval_set_cases [of w k sp al w'] show ?thesis
    by (auto simp: wallet_wf_def tokens_keyed_def approvals_pruned_changes)
next
  case (ApprovalRevoke k sp scope)
  have "approvals_pruned (ws_approvals w)"
    using assms(1) by (simp add: wallet_wf_def)
  with assms ApprovalRevoke show ?thesis
    by (auto simp: apply_approval_revoke_def bind_result_eq_Ok approvals_pruned_changes
        split: approval_scope.splits elim!: update_holding_wf intro!: wallet_wf_approvals)
next
  case (Erc721ApprovedTo k sp)
  with assms show ?thesis
    by (auto elim!: update_holding_wf)
next
  case (Mint k kd)
  with assms show ?thesis
    by (auto simp: wallet_wf_def tokens_keyed_def fmpred_iff mint_stub_holding_def split: option.splits if_splits)
qed

text \<open>What each change group leaves alone.\<close>

abbreviation identity_part :: "wallet_state \<Rightarrow> wallet_id \<times> (chain_id, block_height) fmap \<times> price option" where
  "identity_part w \<equiv> (ws_wallet_id w, ws_block_heights w, ws_portfolio_value_usd w)"

lemma token_fold_frame:
  assumes "try_fold apply_token_change w tcs = Ok w'"
  shows "(identity_part w', ws_positions w', ws_pending w') = (identity_part w, ws_positions w, ws_pending w)"
  using assms
  by (rule try_fold_frame [where g = "\<lambda>w. (identity_part w, ws_positions w, ws_pending w)"])
    (auto simp: apply_token_change_on_part on_part_def bind_result_eq_Ok)

lemma position_fold_frame:
  assumes "try_fold (apply_position_change cd) w pcs = Ok w'"
  shows "(identity_part w', token_part w', ws_pending w') = (identity_part w, token_part w, ws_pending w)"
  using assms
  by (rule try_fold_frame [where g = "\<lambda>w. (identity_part w, token_part w, ws_pending w)"])
    (auto simp: apply_position_change_on_part on_part_def bind_result_eq_Ok)

lemma pending_fold_frame:
  assumes "try_fold apply_pending_change w pcs = Ok w'"
  shows "(identity_part w', token_part w', ws_positions w') = (identity_part w, token_part w, ws_positions w)"
  using assms
  by (rule try_fold_frame [where g = "\<lambda>w. (identity_part w, token_part w, ws_positions w)"])
    (auto simp: apply_pending_change_on_part on_part_def bind_result_eq_Ok)

lemma token_fold_cong:
  assumes "token_part w = token_part v"
  shows "map_sum id token_part (try_fold apply_token_change w tcs) = map_sum id token_part (try_fold apply_token_change v tcs)"
  using assms
proof (induction tcs arbitrary: w v)
  case (Cons tc tcs)
  have "token_step (token_part w) tc = token_step (token_part v) tc"
    using Cons.prems by simp
  then show ?case
    using Cons.IH
    by (cases "token_step (token_part v) tc") (auto simp: apply_token_change_on_part on_part_def Cons.prems)
qed simp

lemma apply_token_change_grows:
  assumes "apply_token_change w tc = Ok w'"
  shows "fmdom' (ws_tokens w) \<subseteq> fmdom' (ws_tokens w')"
  using assms
  by (cases tc)
    (auto simp: apply_balance_delta_def apply_approval_revoke_def bind_result_eq_Ok
      split: approval_scope.splits option.splits elim!: update_holding_Ok dest!: apply_approval_set_cases)

lemma apply_gas_cases:
  assumes "apply_gas w g = Ok w'"
  obtains "g = None" "w' = w"
  | t a h h' where "g = Some (t, a)" "fmlookup (ws_tokens w) (ref_key t) = Some h" "h_key h' = h_key h"
      "w' = w\<lparr>ws_tokens := fmupd (ref_key t) h' (ws_tokens w)\<rparr>"
proof (cases g)
  case None
  with assms that(1) show ?thesis
    by (simp add: apply_gas_def)
next
  case (Some ta)
  with assms obtain t a where ta: "g = Some (t, a)" "apply_gas_paid w t a = Ok w'"
    by (cases ta) (simp add: apply_gas_def)
  from ta(2) obtain h n where h: "fmlookup (ws_tokens w) (ref_key t) = Some h"
    "w' = w\<lparr>ws_tokens := fmupd (ref_key t) (h\<lparr>h_balance := Fungible n\<rparr>) (ws_tokens w)\<rparr>"
    by (auto simp: apply_gas_paid_def Let_def bind_result_eq_Ok elim!: update_holding_Ok)
  show ?thesis
    by (rule that(2) [OF ta(1) h(1) _ h(2)]) simp
qed

lemma apply_gas_wf:
  assumes "wallet_wf w" and "apply_gas w g = Ok w'"
  shows "wallet_wf w'"
  using assms(2)
proof (cases rule: apply_gas_cases)
  case (2 t a h h')
  with assms(1) show ?thesis
    by (auto simp: wallet_wf_def tokens_keyed_def fmpred_iff split: if_splits)
qed (use assms(1) in simp)

lemma apply_delta_parts:
  assumes "apply_delta cd w d = Ok w'"
  obtains w1 w2 w3 where "try_fold apply_token_change w (token_changes d) = Ok w1"
    "try_fold (apply_position_change cd) w1 (position_changes d) = Ok w2"
    "try_fold apply_pending_change w2 (pending_changes d) = Ok w3"
    "apply_gas w3 (gas_paid d) = Ok w'"
  using assms by (auto simp: apply_delta_def bind_result_eq_Ok)

lemma apply_delta_no_gas_parts:
  assumes "apply_delta cd w d = Ok w'" and "gas_paid d = None"
  obtains w1 where "try_fold apply_token_change w (token_changes d) = Ok w1" "token_part w' = token_part w1"
    "ws_wallet_id w' = ws_wallet_id w"
proof -
  from assms(1) obtain w1 w2 w3 where steps:
    "try_fold apply_token_change w (token_changes d) = Ok w1"
    "try_fold (apply_position_change cd) w1 (position_changes d) = Ok w2"
    "try_fold apply_pending_change w2 (pending_changes d) = Ok w3" "apply_gas w3 (gas_paid d) = Ok w'"
    by (rule apply_delta_parts)
  have "w3 = w'"
    using steps(4) assms(2) by (simp add: apply_gas_def)
  then show ?thesis
    using that [OF steps(1)] token_fold_frame [OF steps(1)] position_fold_frame [OF steps(2)] pending_fold_frame [OF steps(3)]
    by auto
qed

lemma saturating_add_u_assoc:
  fixes a b c :: "'a::len word"
  shows "saturating_add_u (saturating_add_u a b) c = saturating_add_u a (saturating_add_u b c)"
proof -
  have "(0::nat) < 2 ^ LENGTH('a)"
    by simp
  then show ?thesis
    by (simp only: word_unat_eq_iff unat_saturating_add_u)
qed

section \<open>Properties\<close>

text \<open>
  C10. Merging two deltas whose first part charges no gas is sequential composition: the merged
  delta applies to a wallet with a given result exactly when applying the first delta and then
  the second one does.
\<close>

theorem merge_delta_sequential:
  assumes "merge_delta a b = Ok m" and "gas_paid a = None"
  shows "apply_delta cd w m = Ok w' \<longleftrightarrow>
    bind_result (apply_delta cd w a) (\<lambda>v. apply_delta cd v b) = Ok w'"
  using delta_runs_merge [OF assms, of cd]
  by (auto simp: apply_delta_iff_runs relcomp_unfold bind_result_eq_Ok)

theorem merge_delta_sequential_witness:
  "\<exists>m w'. merge_delta spend_delta receive_delta = Ok m \<and> gas_paid spend_delta = None \<and>
     apply_delta sample_codec sample_wallet m = Ok w' \<and>
     bind_result (apply_delta sample_codec sample_wallet spend_delta)
       (\<lambda>v. apply_delta sample_codec v receive_delta) = Ok w'"
proof -
  let ?m = "StateDelta [BalanceDelta usdc_key (- 300), BalanceDelta usdc_key 50] [] [] (Some (TokenRef eth_key, 2))"
  have m: "merge_delta spend_delta receive_delta = Ok ?m" "gas_paid spend_delta = None"
    by (simp_all add: spend_delta_def receive_delta_def merge_delta_no_gas_total)
  have "is_ok (apply_delta sample_codec sample_wallet ?m)"
    by code_simp
  then obtain w' where "apply_delta sample_codec sample_wallet ?m = Ok w'"
    by (auto simp: is_ok_def split: sum.splits)
  with merge_delta_sequential [OF m, of sample_codec sample_wallet w'] m show ?thesis
    by blast
qed

text \<open>
  Merging is associative, gas payments included: folding three deltas from the left gives a
  result exactly when folding them from the right gives the same result.
\<close>

lemma merge_delta_assoc:
  "bind_result (merge_delta a b) (\<lambda>m. merge_delta m c) = Ok r \<longleftrightarrow>
   bind_result (merge_delta b c) (\<lambda>m. merge_delta a m) = Ok r"
proof -
  have gas: "bind_result (merge_gas ga gb) (\<lambda>g. merge_gas g gc) = Ok g' \<longleftrightarrow>
      bind_result (merge_gas gb gc) (\<lambda>g. merge_gas ga g) = Ok g'" for ga gb gc g'
    by (auto simp: merge_gas_def saturating_add_u_assoc token_ref.expand split: option.splits if_splits)
  let ?d = "\<lambda>g. Ok (StateDelta (token_changes a @ token_changes b @ token_changes c)
    (position_changes a @ position_changes b @ position_changes c)
    (pending_changes a @ pending_changes b @ pending_changes c) g)"
  have "bind_result (merge_delta a b) (\<lambda>m. merge_delta m c) =
      bind_result (bind_result (merge_gas (gas_paid a) (gas_paid b)) (\<lambda>g. merge_gas g (gas_paid c))) ?d"
    "bind_result (merge_delta b c) (\<lambda>m. merge_delta a m) =
      bind_result (bind_result (merge_gas (gas_paid b) (gas_paid c)) (\<lambda>g. merge_gas (gas_paid a) g)) ?d"
    by (simp_all add: merge_delta_def bind_result_assoc)
  then show ?thesis
    using gas by (simp only: bind_result_eq_Ok)
qed

text \<open>
  C37. Applying a delta keeps a snapshot well formed: holdings stay filed under their own key and
  the approval maps keep no empty inner map.
\<close>

theorem apply_delta_wf:
  assumes "wallet_wf w" and "apply_delta cd w d = Ok w'"
  shows "wallet_wf w'"
proof -
  from assms(2) obtain w1 w2 w3 where steps:
    "try_fold apply_token_change w (token_changes d) = Ok w1"
    "try_fold (apply_position_change cd) w1 (position_changes d) = Ok w2"
    "try_fold apply_pending_change w2 (pending_changes d) = Ok w3" "apply_gas w3 (gas_paid d) = Ok w'"
    by (rule apply_delta_parts)
  have "wallet_wf w1"
    using steps(1) assms(1) apply_token_change_wf by (rule try_fold_invariant)
  then have "wallet_wf w3"
    using position_fold_frame [OF steps(2)] pending_fold_frame [OF steps(3)]
    by (simp add: wallet_wf_def tokens_keyed_def)
  then show ?thesis
    using steps(4) by (rule apply_gas_wf)
qed

theorem apply_delta_wf_witness:
  "\<exists>w'. wallet_wf sample_wallet \<and> apply_delta sample_codec sample_wallet grant_revoke_delta = Ok w' \<and> wallet_wf w'"
proof -
  have "is_ok (apply_delta sample_codec sample_wallet grant_revoke_delta)"
    by code_simp
  then obtain w' where w': "apply_delta sample_codec sample_wallet grant_revoke_delta = Ok w'"
    by (auto simp: is_ok_def split: sum.splits)
  have "wallet_wf sample_wallet"
    by code_simp
  with apply_delta_wf [OF this w'] w' show ?thesis
    by blast
qed

text \<open>
  Applying a delta never changes whose wallet it is, the block heights or the portfolio value,
  and never drops a holding: every token key present before is present afterwards.
\<close>

lemma apply_delta_frame:
  assumes "apply_delta cd w d = Ok w'"
  shows "ws_wallet_id w' = ws_wallet_id w \<and> ws_block_heights w' = ws_block_heights w \<and>
    ws_portfolio_value_usd w' = ws_portfolio_value_usd w \<and> fmdom' (ws_tokens w) \<subseteq> fmdom' (ws_tokens w')"
proof -
  from assms obtain w1 w2 w3 where steps:
    "try_fold apply_token_change w (token_changes d) = Ok w1"
    "try_fold (apply_position_change cd) w1 (position_changes d) = Ok w2"
    "try_fold apply_pending_change w2 (pending_changes d) = Ok w3" "apply_gas w3 (gas_paid d) = Ok w'"
    by (rule apply_delta_parts)
  have "fmdom' (ws_tokens w) \<subseteq> fmdom' (ws_tokens w1)"
    using steps(1) by (rule try_fold_invariant) (auto dest: apply_token_change_grows)
  moreover have "identity_part w' = identity_part w3 \<and> fmdom' (ws_tokens w3) \<subseteq> fmdom' (ws_tokens w')"
    using steps(4) by (rule apply_gas_cases) auto
  ultimately show ?thesis
    using token_fold_frame [OF steps(1)] position_fold_frame [OF steps(2)] pending_fold_frame [OF steps(3)]
    by auto
qed

text \<open>
  The documented law that a merged delta acts like its parts in sequence fails when the first
  part pays gas: the merged delta charges gas after the second part's receipts, so it is accepted
  where the sequence is rejected with a gas underflow.
\<close>

lemma merge_delta_gas_reordered:
  "\<exists>w a b m. merge_delta a b = Ok m \<and> is_ok (apply_delta sample_codec w m) \<and>
     bind_result (apply_delta sample_codec w a) (\<lambda>v. apply_delta sample_codec v b) =
       Err (Invariant (GasUnderflow eth_key 5 7))"
proof -
  let ?a = "StateDelta [] [] [] (Some (TokenRef eth_key, 7))" and ?b = "StateDelta [BalanceDelta eth_key 10] [] [] None"
  let ?m = "StateDelta [BalanceDelta eth_key 10] [] [] (Some (TokenRef eth_key, 7))"
  have "merge_delta ?a ?b = Ok ?m"
    by (simp add: merge_delta_def merge_gas_def)
  moreover have "is_ok (apply_delta sample_codec sample_wallet ?m)"
    by code_simp
  moreover have "apply_delta sample_codec sample_wallet ?a = Err (Invariant (GasUnderflow eth_key 5 7))"
    by (simp add: apply_delta_def apply_gas_def apply_gas_paid_def update_holding_def checked_sub_u_def Let_def)
  ultimately show ?thesis
    by (intro exI [of _ sample_wallet] exI [of _ ?a] exI [of _ ?b] exI [of _ ?m]) simp
qed

end
