(* ===== verification/Balance_Helpers.thy ===== *)
theory Balance_Helpers
  imports Delta_Helpers
begin

text \<open>
  Balance primitives of the reducers (\<open>asset-model/transition/src/helpers/balance.rs\<close>): each takes
  the read-only wallet and the delta under construction and returns the extended delta.
  The lemmas relate the balance such a helper computes from the pending delta to the balance
  \<open>apply_delta\<close> produces.
\<close>

section \<open>Operations\<close>

definition add_change :: "token_key \<Rightarrow> i256 \<Rightarrow> token_change \<Rightarrow> i256" where
  "add_change k acc tc =
     (case tc of BalanceDelta k' d \<Rightarrow> if k' = k then saturating_add_i acc d else acc | _ \<Rightarrow> acc)"

definition effective_signed_balance :: "wallet_state \<Rightarrow> state_delta \<Rightarrow> token_key \<Rightarrow> i256 reducer_result" where
  "effective_signed_balance w d k =
     bind_result (ok_or (TokenNotFound k) (fmlookup (ws_tokens w) k)) (\<lambda>h.
     bind_result (ok_or (Invariant (ExpectedFungible k)) (as_fungible (h_balance h))) (\<lambda>base.
       Ok (foldl (add_change k) (u256_to_signed_saturating base) (token_changes d))))"

definition debit :: "wallet_state \<Rightarrow> state_delta \<Rightarrow> token_key \<Rightarrow> u256 \<Rightarrow> state_delta reducer_result" where
  "debit w d k amount =
     bind_result (effective_signed_balance w d k) (\<lambda>effective.
       let amount_signed = u256_to_signed_saturating amount in
       if sint effective < sint amount_signed then Err (Invariant (DebitUnderflow k effective amount))
       else Ok (push_token (BalanceDelta k (- amount_signed)) d))"

definition credit :: "wallet_state \<Rightarrow> state_delta \<Rightarrow> token_key \<Rightarrow> u256 \<Rightarrow> state_delta reducer_result" where
  "credit w d k amount =
     bind_result (ok_or (TokenNotFound k) (fmlookup (ws_tokens w) k)) (\<lambda>h.
       if h_balance h = Owned then Err (Invariant (ExpectedFungible k))
       else Ok (push_token (BalanceDelta k (u256_to_signed_saturating amount)) d))"

definition transfer ::
  "wallet_state \<Rightarrow> state_delta \<Rightarrow> token_key \<Rightarrow> address \<Rightarrow> u256 \<Rightarrow> state_delta reducer_result" where
  "transfer w d k recipient amount = debit w d k amount"

definition transfer_nft ::
  "wallet_state \<Rightarrow> state_delta \<Rightarrow> token_key \<Rightarrow> address \<Rightarrow> u256 option \<Rightarrow> state_delta reducer_result" where
  "transfer_nft w d k recipient amount =
     (case k of
        TK_Erc1155 _ _ _ \<Rightarrow>
          bind_result (ok_or (Invariant (Erc1155RequiresAmount k)) amount) (\<lambda>amt. debit w d k amt)
      | TK_Erc721 _ _ _ \<Rightarrow>
          bind_result (ok_or (TokenNotFound k) (fmlookup (ws_tokens w) k)) (\<lambda>_.
            Ok (push_token (BalanceDelta k (- 1)) d))
      | _ \<Rightarrow> Err (Invariant (TransferNftKey k)))"

section \<open>Balances before and after a delta\<close>

definition balance_of :: "wallet_state \<Rightarrow> token_key \<Rightarrow> u256 option" where
  "balance_of w k = Option.bind (fmlookup (ws_tokens w) k) (\<lambda>h. as_fungible (h_balance h))"

lemma balance_of_token_part: "token_part w = token_part v \<Longrightarrow> balance_of w k = balance_of v k"
  by (simp add: balance_of_def)

lemma as_fungible_Some [simp]: "as_fungible b = Some x \<longleftrightarrow> b = Fungible x"
  by (cases b) auto

lemma as_fungible_None [simp]: "as_fungible b = None \<longleftrightarrow> b = Owned"
  by (cases b) auto

lemma sint_u256_to_signed: "sint (u256_to_signed_saturating v) = min (uint v) i256_max"
proof (cases "uint v \<le> i256_max")
  case True
  then have less: "uint v < 2 ^ 255"
    by (simp add: i256_max_def)
  have "- (2 ^ 255) \<le> (0::int)"
    by simp
  then have "- (2 ^ 255) \<le> uint v"
    using uint_ge_0 by (rule order_trans)
  from signed_take_bit_int_eq_self [OF this less] have "sint v = uint v"
    by (simp add: sint_uint)
  with True show ?thesis
    by (simp add: u256_to_signed_saturating_def)
qed (simp_all add: u256_to_signed_saturating_def clamp_i256_def i256_min_def i256_max_def)

lemma u256_to_signed_roundtrip:
  assumes "\<not> is_negative s"
  shows "u256_to_signed_saturating (signed_to_u256_saturating s) = s"
proof -
  have "uint s = sint s"
    using assms by (simp add: is_negative_def uint_eq_sint_nonneg)
  then show ?thesis
    using assms sint_i256_bounds [of s]
    by (simp add: u256_to_signed_saturating_def signed_to_u256_saturating_def)
qed

lemma effective_signed_balance_eq:
  assumes "balance_of w k = Some b"
  shows "effective_signed_balance w d k = Ok (foldl (add_change k) (u256_to_signed_saturating b) (token_changes d))"
  using assms by (auto simp: effective_signed_balance_def balance_of_def split: Option.bind_splits)

lemma update_holding_balance_of:
  assumes "update_holding w k' f = Ok w'" and "\<And>h h'. f h = Ok h' \<Longrightarrow> h_balance h' = h_balance h"
  shows "balance_of w' k = balance_of w k"
  using assms by (auto simp: balance_of_def elim!: update_holding_Ok)

lemma apply_balance_delta_balance:
  assumes "balance_of w k = Some b"
  shows "apply_balance_delta w k d =
    (let signed = saturating_add_i (u256_to_signed_saturating b) d in
     if is_negative signed then Err (Invariant (DeltaUnderflow k b d))
     else Ok (w\<lparr>ws_tokens := fmupd k
       ((the (fmlookup (ws_tokens w) k))\<lparr>h_balance := Fungible (signed_to_u256_saturating signed)\<rparr>) (ws_tokens w)\<rparr>))"
  using assms
  by (auto simp: apply_balance_delta_def update_holding_def balance_of_def Let_def split: Option.bind_splits)

lemma apply_balance_delta_other:
  assumes "apply_balance_delta w k' d = Ok w'" and "k' \<noteq> k"
  shows "balance_of w' k = balance_of w k"
  using assms by (auto simp: apply_balance_delta_def balance_of_def elim!: update_holding_Ok)

lemma apply_token_change_balance:
  assumes "balance_of w k = Some b" and "apply_token_change w tc = Ok w'"
  shows "\<exists>b'. balance_of w' k = Some b' \<and>
    u256_to_signed_saturating b' = add_change k (u256_to_signed_saturating b) tc"
proof (cases tc)
  case (BalanceDelta k' d)
  show ?thesis
  proof (cases "k' = k")
    case True
    then show ?thesis
      using assms BalanceDelta
      by (auto simp: apply_balance_delta_balance Let_def balance_of_def add_change_def u256_to_signed_roundtrip
          split: if_splits)
  next
    case False
    then show ?thesis
      using assms BalanceDelta apply_balance_delta_other [of w k' d w' k] by (auto simp: add_change_def)
  qed
next
  case (ApprovalSet k' sp al)
  then show ?thesis
    using assms by (auto simp: balance_of_def add_change_def dest!: apply_approval_set_cases)
next
  case (ApprovalRevoke k' sp scope)
  then show ?thesis
    using assms update_holding_balance_of [of w k' "\<lambda>h. Ok (h\<lparr>h_approved_to := None\<rparr>)" w' k]
    by (auto simp: apply_approval_revoke_def bind_result_eq_Ok add_change_def balance_of_def
        split: approval_scope.splits)
next
  case (Erc721ApprovedTo k' sp)
  then show ?thesis
    using assms update_holding_balance_of [of w k' "\<lambda>h. Ok (h\<lparr>h_approved_to := sp\<rparr>)" w' k]
    by (auto simp: add_change_def)
next
  case (Mint k' kd)
  then show ?thesis
    using assms by (auto simp: add_change_def balance_of_def split: option.splits Option.bind_splits if_splits)
qed

lemma token_fold_balance:
  assumes "balance_of w k = Some b" and "try_fold apply_token_change w tcs = Ok w'"
  shows "\<exists>b'. balance_of w' k = Some b' \<and>
    u256_to_signed_saturating b' = foldl (add_change k) (u256_to_signed_saturating b) tcs"
  using assms
proof (induction tcs arbitrary: w b)
  case (Cons tc tcs)
  then obtain v where "apply_token_change w tc = Ok v" "try_fold apply_token_change v tcs = Ok w'"
    by (auto simp: bind_result_eq_Ok)
  then show ?case
    using apply_token_change_balance [OF Cons.prems(1)] Cons.IH by fastforce
qed auto

text \<open>Pushing a token change is merging with the one-change delta.\<close>

definition single_change :: "token_change \<Rightarrow> state_delta" where
  "single_change tc = StateDelta [tc] [] [] None"

lemma merge_single_change:
  "gas_paid d = None \<Longrightarrow> merge_delta d (single_change tc) = Ok (push_token tc d)"
  by (simp add: merge_delta_no_gas_total single_change_def push_token_def)

lemma apply_push_token:
  assumes "gas_paid d = None"
  shows "apply_delta cd w (push_token tc d) = Ok w' \<longleftrightarrow>
    (\<exists>v. apply_delta cd w d = Ok v \<and> apply_token_change v tc = Ok w')"
  using delta_runs_merge [OF merge_single_change [OF assms] assms, of cd tc]
  by (auto simp: apply_delta_iff_runs relcomp_unfold delta_runs_def single_change_def)

lemma apply_delta_balance:
  assumes "apply_delta cd w d = Ok w'" and "gas_paid d = None" and "balance_of w k = Some b"
  shows "\<exists>b'. balance_of w' k = Some b' \<and> effective_signed_balance w d k = Ok (u256_to_signed_saturating b')"
proof -
  from assms(1,2) obtain w1 where "try_fold apply_token_change w (token_changes d) = Ok w1" "token_part w' = token_part w1"
    by (rule apply_delta_no_gas_parts)
  then show ?thesis
    using token_fold_balance [OF assms(3)] effective_signed_balance_eq [OF assms(3)] balance_of_token_part
    by metis
qed

lemma debit_Ok_balance:
  assumes "debit w d k amt = Ok d'"
  obtains b where "balance_of w k = Some b"
  using assms
  by (auto simp: debit_def effective_signed_balance_def bind_result_eq_Ok balance_of_def ok_or_def split: option.splits)

lemma debit_eq:
  assumes "effective_signed_balance w d k = Ok e"
  shows "debit w d k amt =
    (if sint e < min (uint amt) i256_max then Err (Invariant (DebitUnderflow k e amt))
     else Ok (push_token (BalanceDelta k (- u256_to_signed_saturating amt)) d))"
  using assms by (simp add: debit_def Let_def sint_u256_to_signed)

text \<open>One debit on a wallet whose balance is known.\<close>

lemma u256_to_signed_bounds:
  "0 \<le> sint (u256_to_signed_saturating x)" "sint (u256_to_signed_saturating x) \<le> i256_max"
  by (simp add: sint_u256_to_signed i256_max_def) simp

lemma i256_min_le: "i256_min \<le> - i256_max" "0 \<le> i256_max"
  by (simp_all add: i256_min_def i256_max_def)

lemma sint_debit_sum:
  "sint (saturating_add_i (u256_to_signed_saturating b) (- u256_to_signed_saturating amt)) =
   min (uint b) i256_max - min (uint amt) i256_max"
proof -
  let ?b = "sint (u256_to_signed_saturating b)" and ?a = "sint (u256_to_signed_saturating amt)"
  have "i256_min \<le> ?b - ?a" "?b - ?a \<le> i256_max"
    using u256_to_signed_bounds [of b] u256_to_signed_bounds [of amt] i256_min_le by linarith+
  then have "sint (saturating_add_i (u256_to_signed_saturating b) (- u256_to_signed_saturating amt)) = ?b - ?a"
    by (simp add: sint_saturating_add_i sint_uminus_i256 u256_to_signed_bounds clamp_i256_id)
  then show ?thesis
    by (simp only: sint_u256_to_signed)
qed

lemma apply_debit_change:
  assumes "balance_of v k = Some b"
  shows "is_ok (apply_token_change v (BalanceDelta k (- u256_to_signed_saturating amt))) \<longleftrightarrow>
    min (uint amt) i256_max \<le> min (uint b) i256_max"
  using assms by (auto simp: apply_balance_delta_balance Let_def is_ok_def is_negative_def sint_debit_sum)

lemma apply_debit_change_balance:
  assumes "balance_of v k = Some b"
    and "apply_token_change v (BalanceDelta k (- u256_to_signed_saturating amt)) = Ok v'"
  shows "\<exists>b'. balance_of v' k = Some b' \<and> uint b' = min (uint b) i256_max - min (uint amt) i256_max"
proof -
  let ?s = "saturating_add_i (u256_to_signed_saturating b) (- u256_to_signed_saturating amt)"
  have "\<not> is_negative ?s" "balance_of v' k = Some (signed_to_u256_saturating ?s)"
    using assms by (auto simp: apply_balance_delta_balance Let_def balance_of_def split: if_splits)
  moreover from this(1) have "uint (signed_to_u256_saturating ?s) = sint ?s"
    by (simp add: signed_to_u256_saturating_def is_negative_def uint_eq_sint_nonneg)
  ultimately show ?thesis
    using sint_debit_sum [of b amt] by (intro exI conjI) (assumption, simp only:)
qed

lemma apply_credit_change:
  assumes "balance_of v k = Some b"
  shows "is_ok (apply_token_change v (BalanceDelta k (u256_to_signed_saturating amt)))"
proof -
  have "0 \<le> sint (saturating_add_i (u256_to_signed_saturating b) (u256_to_signed_saturating amt))"
    using u256_to_signed_bounds [of b] u256_to_signed_bounds [of amt] i256_min_le
    by (simp add: sint_saturating_add_i clamp_i256_def)
  with assms show ?thesis
    by (simp add: apply_balance_delta_balance Let_def is_ok_def is_negative_def)
qed

lemma spend_delta_applies:
  obtains w' where "apply_delta sample_codec sample_wallet spend_delta = Ok w'"
proof -
  have "is_ok (apply_delta sample_codec sample_wallet spend_delta)"
    by code_simp
  then show ?thesis
    using that by (auto simp: is_ok_def split: sum.splits)
qed

lemma spend_delta_no_gas: "gas_paid spend_delta = None"
  by (simp add: spend_delta_def)

lemma sample_balance: "balance_of sample_wallet usdc_key = Some 1000"
  by (simp add: balance_of_def)

section \<open>Properties\<close>

text \<open>
  The balance the helpers compute from the wallet and the delta under construction is the one
  the wallet has after that delta is applied (read as a saturated signed amount).
\<close>

lemma effective_balance_exact:
  assumes "apply_delta cd w d = Ok w'" and "gas_paid d = None" and "balance_of w k = Some b"
  shows "\<exists>b'. balance_of w' k = Some b' \<and> effective_signed_balance w d k = Ok (u256_to_signed_saturating b')"
  using assms by (rule apply_delta_balance)

text \<open>
  On a delta that applies so far, \<open>debit\<close> accepts an amount exactly when the delta extended
  by the debit still applies: the check made while the delta is built is neither weaker nor
  stronger than the underflow check of \<open>apply_delta\<close>.
\<close>

lemma debit_iff_applies:
  assumes "apply_delta cd w d = Ok w1" and "gas_paid d = None" and "balance_of w k = Some b"
  shows "debit w d k amt = Ok d' \<longleftrightarrow>
    d' = push_token (BalanceDelta k (- u256_to_signed_saturating amt)) d \<and> is_ok (apply_delta cd w d')"
proof -
  obtain b1 where b1: "balance_of w1 k = Some b1" "effective_signed_balance w d k = Ok (u256_to_signed_saturating b1)"
    using apply_delta_balance [OF assms] by blast
  have "is_ok (apply_delta cd w (push_token tc d)) \<longleftrightarrow> is_ok (apply_token_change w1 tc)" for tc
    using apply_push_token [OF assms(2), of cd w tc] assms(1)
    by (cases "apply_token_change w1 tc"; cases "apply_delta cd w (push_token tc d)") (auto simp: is_ok_def)
  then have applies: "is_ok (apply_delta cd w (push_token (BalanceDelta k (- u256_to_signed_saturating amt)) d)) \<longleftrightarrow>
      min (uint amt) i256_max \<le> min (uint b1) i256_max"
    using apply_debit_change [OF b1(1), of amt] by simp
  have debit: "debit w d k amt =
      (if min (uint b1) i256_max < min (uint amt) i256_max
       then Err (Invariant (DebitUnderflow k (u256_to_signed_saturating b1) amt))
       else Ok (push_token (BalanceDelta k (- u256_to_signed_saturating amt)) d))"
    by (simp only: debit_eq [OF b1(2)] sint_u256_to_signed)
  show ?thesis
  proof (cases "min (uint amt) i256_max \<le> min (uint b1) i256_max")
    case True
    with applies show ?thesis
      unfolding debit by (auto simp only: if_not_P not_less)
  next
    case False
    with applies show ?thesis
      unfolding debit by (auto simp only: if_P not_le)
  qed
qed

text \<open>
  C15. A successful debit of an amount below 2^255 takes exactly that amount from the balance the
  wallet has after the delta built so far, and changes the balance of no other token.
\<close>

theorem debit_exact:
  assumes "apply_delta cd w d = Ok w1" and "gas_paid d = None" and "debit w d k amt = Ok d'"
    and "uint amt \<le> i256_max"
  shows "\<exists>w2 b1 b2. apply_delta cd w d' = Ok w2 \<and> balance_of w1 k = Some b1 \<and> balance_of w2 k = Some b2 \<and>
    uint b2 + uint amt = min (uint b1) i256_max \<and> (\<forall>k'. k' \<noteq> k \<longrightarrow> balance_of w2 k' = balance_of w1 k')"
proof -
  let ?tc = "BalanceDelta k (- u256_to_signed_saturating amt)"
  obtain b where b: "balance_of w k = Some b"
    using assms(3) by (rule debit_Ok_balance)
  obtain b1 where b1: "balance_of w1 k = Some b1" "effective_signed_balance w d k = Ok (u256_to_signed_saturating b1)"
    using apply_delta_balance [OF assms(1,2) b] by blast
  with assms(3) have d': "d' = push_token ?tc d" and "min (uint amt) i256_max \<le> min (uint b1) i256_max"
    by (auto simp: debit_eq sint_u256_to_signed split: if_splits)
  with apply_debit_change [OF b1(1), of amt] obtain w2 where w2: "apply_token_change w1 ?tc = Ok w2"
    by (auto simp: is_ok_def split: sum.splits)
  have "apply_delta cd w d' = Ok w2"
    using apply_push_token [OF assms(2), of cd w ?tc w2] assms(1) w2 d' by blast
  moreover obtain b2 where "balance_of w2 k = Some b2" "uint b2 = min (uint b1) i256_max - min (uint amt) i256_max"
    using apply_debit_change_balance [OF b1(1) w2] by auto
  moreover have "\<forall>k'. k' \<noteq> k \<longrightarrow> balance_of w2 k' = balance_of w1 k'"
    using w2 apply_balance_delta_other [of w1 k _ w2] by auto
  moreover have "min (uint amt) i256_max = uint amt"
    using assms(4) by (rule min_absorb1)
  ultimately show ?thesis
    using b1(1) by (intro exI [of _ w2] exI [of _ b1] exI [of _ b2]) simp
qed

theorem debit_exact_witness:
  "\<exists>d' w2 b2. debit sample_wallet spend_delta usdc_key 200 = Ok d' \<and>
     apply_delta sample_codec sample_wallet d' = Ok w2 \<and> balance_of w2 usdc_key = Some b2"
proof -
  obtain w' where w': "apply_delta sample_codec sample_wallet spend_delta = Ok w'"
    by (rule spend_delta_applies)
  have "is_ok (debit sample_wallet spend_delta usdc_key 200)"
    by code_simp
  then obtain d' where d': "debit sample_wallet spend_delta usdc_key 200 = Ok d'"
    by (auto simp: is_ok_def split: sum.splits)
  have "uint (200 :: u256) \<le> i256_max"
    by code_simp
  with debit_exact [OF w' spend_delta_no_gas d'] d' show ?thesis
    by blast
qed

text \<open>
  The delta \<open>transfer_nft\<close> emits for an ERC-721 token the wallet owns is one \<open>apply_delta\<close>
  always refuses: a balance change on a non-fungible holding is an invariant error.
\<close>

lemma transfer_nft_owned_refused:
  assumes "fmlookup (ws_tokens w) (TK_Erc721 c a i) = Some h" and "h_balance h = Owned"
  shows "\<exists>d. transfer_nft w delta_new (TK_Erc721 c a i) r amt = Ok d \<and>
    apply_delta cd w d = Err (Invariant (DeltaOnNonFungible (TK_Erc721 c a i)))"
  using assms
  by (simp add: transfer_nft_def apply_delta_def apply_balance_delta_def update_holding_def)

end
