(* ===== verification/Position_Helpers.thy ===== *)
theory Position_Helpers
  imports Balance_Helpers
begin

text \<open>
  Position primitives of the reducers (\<open>asset-model/transition/src/helpers/position.rs\<close>). Existence
  checks run over the wallet overlaid with the changes already queued; the lemmas show when
  that overlay agrees with the wallet \<open>apply_delta\<close> would produce.
\<close>

section \<open>Operations\<close>

definition exists_step :: "string \<Rightarrow> bool \<Rightarrow> position_change \<Rightarrow> bool" where
  "exists_step i ex pc =
     (case pc of
        PosOpen p \<Rightarrow> if pos_id p = i then True else ex
      | PosClose j \<Rightarrow> if j = i then False else ex
      | PosUpdate _ _ \<Rightarrow> ex)"

definition effective_exists :: "wallet_state \<Rightarrow> state_delta \<Rightarrow> string \<Rightarrow> bool" where
  "effective_exists w d i =
     foldl (exists_step i) (list_ex (\<lambda>p. pos_id p = i) (ws_positions w)) (position_changes d)"

text \<open>The reverse scan: \<open>Some r\<close> when a queued change decides, \<open>None\<close> when none does.\<close>

fun scan_changes :: "string \<Rightarrow> position_change list \<Rightarrow> position option option" where
  "scan_changes i [] = None"
| "scan_changes i (PosOpen p # pcs) = (if pos_id p = i then Some (Some p) else scan_changes i pcs)"
| "scan_changes i (PosClose j # pcs) = (if j = i then Some None else scan_changes i pcs)"
| "scan_changes i (PosUpdate _ _ # pcs) = scan_changes i pcs"

definition effective_position :: "wallet_state \<Rightarrow> state_delta \<Rightarrow> string \<Rightarrow> position option" where
  "effective_position w d i =
     (case scan_changes i (rev (position_changes d)) of
        Some r \<Rightarrow> r
      | None \<Rightarrow> List.find (\<lambda>p. pos_id p = i) (ws_positions w))"

definition snapshot_patch :: "position_codec \<Rightarrow> position \<Rightarrow> position_patch" where
  "snapshot_patch cd p =
     PositionPatch (JObject (fmupd ''after''
       (case pc_to_value cd p of Some j \<Rightarrow> j | None \<Rightarrow> JNull) fmempty))"

definition open_position :: "wallet_state \<Rightarrow> state_delta \<Rightarrow> position \<Rightarrow> state_delta reducer_result" where
  "open_position w d p =
     (if effective_exists w d (pos_id p) then Err (Invariant (PositionAlreadyExists (pos_id p)))
      else Ok (push_position (PosOpen p) d))"

fun is_lending_kind :: "position_kind \<Rightarrow> bool" where
  "is_lending_kind (LendingAccount _) = True"
| "is_lending_kind _ = False"

fun is_perp_kind :: "position_kind \<Rightarrow> bool" where
  "is_perp_kind (PerpPosition _) = True"
| "is_perp_kind _ = False"

fun is_hl_kind :: "position_kind \<Rightarrow> bool" where
  "is_hl_kind (HyperliquidAccount _) = True"
| "is_hl_kind _ = False"

definition upsert_lending_account ::
  "position_codec \<Rightarrow> wallet_state \<Rightarrow> state_delta \<Rightarrow> string \<Rightarrow> (position \<Rightarrow> position) \<Rightarrow> state_delta reducer_result" where
  "upsert_lending_account cd w d i mutate =
     bind_result (ok_or (PositionNotFound i) (effective_position w d i)) (\<lambda>existing.
       if \<not> is_lending_kind (pos_kind existing) then Err (Invariant (PositionNotKind i ''LendingAccount''))
       else let new_position = mutate existing in
         if \<not> is_lending_kind (pos_kind new_position) then Err (Invariant (MutateChangedKind i ''LendingAccount''))
         else Ok (push_position (PosUpdate i (snapshot_patch cd new_position)) d))"

definition upsert_perp_position ::
  "position_codec \<Rightarrow> wallet_state \<Rightarrow> state_delta \<Rightarrow> string \<Rightarrow> (position \<Rightarrow> position) \<Rightarrow> state_delta reducer_result" where
  "upsert_perp_position cd w d i mutate =
     bind_result (ok_or (PositionNotFound i) (effective_position w d i)) (\<lambda>existing.
       if \<not> is_perp_kind (pos_kind existing) then Err (Invariant (PositionNotKind i ''PerpPosition''))
       else let new_position = mutate existing in
         if \<not> is_perp_kind (pos_kind new_position) then Err (Invariant (MutateChangedKind i ''PerpPosition''))
         else Ok (push_position (PosUpdate i (snapshot_patch cd new_position)) d))"

definition upsert_hl_account ::
  "position_codec \<Rightarrow> wallet_state \<Rightarrow> state_delta \<Rightarrow> string \<Rightarrow> (position \<Rightarrow> position) \<Rightarrow> state_delta reducer_result" where
  "upsert_hl_account cd w d i mutate =
     bind_result (ok_or (PositionNotFound i) (effective_position w d i)) (\<lambda>existing.
       if \<not> is_hl_kind (pos_kind existing) then Err (Invariant (PositionNotKind i ''HyperliquidAccount''))
       else let new_position = mutate existing in
         if \<not> is_hl_kind (pos_kind new_position) then Err (Invariant (MutateChangedKind i ''HyperliquidAccount''))
         else Ok (push_position (PosUpdate i (snapshot_patch cd new_position)) d))"

definition close_position :: "wallet_state \<Rightarrow> state_delta \<Rightarrow> string \<Rightarrow> state_delta reducer_result" where
  "close_position w d i =
     (if \<not> effective_exists w d i then Err (PositionNotFound i)
      else Ok (push_position (PosClose i) d))"

section \<open>The overlay and the applied wallet\<close>

text \<open>
  The updates the helpers queue are snapshots: the patch holds a whole position under
  \<open>after\<close>, and that position keeps the id the update is addressed to.
\<close>

definition snapshot_change :: "position_codec \<Rightarrow> position_change \<Rightarrow> bool" where
  "snapshot_change cd pc =
     (case pc of
        PosUpdate i patch \<Rightarrow>
          (case json_get (patch_fields patch) ''after'' of
             None \<Rightarrow> False
           | Some j \<Rightarrow> (case pc_from_value cd j of None \<Rightarrow> True | Some p \<Rightarrow> pos_id p = i))
      | _ \<Rightarrow> True)"

abbreviation snapshot_delta :: "position_codec \<Rightarrow> state_delta \<Rightarrow> bool" where
  "snapshot_delta cd d \<equiv> list_all (snapshot_change cd) (position_changes d)"

abbreviation ids :: "wallet_state \<Rightarrow> string list" where
  "ids w \<equiv> map pos_id (ws_positions w)"

lemma apply_position_change_ids:
  assumes "apply_position_change cd w pc = Ok w'" and "snapshot_change cd pc"
  shows "i \<in> set (ids w') \<longleftrightarrow> exists_step i (i \<in> set (ids w)) pc"
proof (cases pc)
  case (PosOpen p)
  with assms show ?thesis
    by (auto simp: exists_step_def)
next
  case (PosUpdate j patch)
  from assms(1) PosUpdate obtain ps where ps:
    "update_first (\<lambda>p. pos_id p = j) (\<lambda>p. apply_position_patch cd p patch) (ws_positions w) = Some (Ok ps)"
    "w' = w\<lparr>ws_positions := ps\<rparr>"
    by (auto simp: bind_result_eq_Ok split: option.splits)
  from update_first_Ok [OF ps(1)] obtain us x vs x' where
    "ws_positions w = us @ x # vs" "pos_id x = j" "apply_position_patch cd x patch = Ok x'" "ps = us @ x' # vs"
    by blast
  moreover from this(3) assms(2) PosUpdate have "pos_id x' = j"
    by (auto simp: snapshot_change_def apply_position_patch_def Let_def ok_or_def split: option.splits)
  ultimately show ?thesis
    using PosUpdate ps(2) by (auto simp: exists_step_def)
next
  case (PosClose j)
  with assms show ?thesis
    by (auto simp: exists_step_def Let_def split: if_splits)
qed

lemma position_fold_ids:
  assumes "try_fold (apply_position_change cd) w pcs = Ok w'" and "list_all (snapshot_change cd) pcs"
  shows "i \<in> set (ids w') \<longleftrightarrow> foldl (exists_step i) (i \<in> set (ids w)) pcs"
  using assms
proof (induction pcs arbitrary: w)
  case (Cons pc pcs)
  then obtain v where "apply_position_change cd w pc = Ok v" "try_fold (apply_position_change cd) v pcs = Ok w'"
    by (auto simp: bind_result_eq_Ok)
  with Cons.IH [of v] Cons.prems(2) apply_position_change_ids [of cd w pc v i] show ?case
    by simp
qed simp

lemma effective_exists_ids:
  assumes "apply_delta cd w d = Ok w'" and "snapshot_delta cd d"
  shows "effective_exists w d i \<longleftrightarrow> i \<in> set (ids w')"
proof -
  from assms(1) obtain w1 w2 w3 where steps:
    "try_fold apply_token_change w (token_changes d) = Ok w1"
    "try_fold (apply_position_change cd) w1 (position_changes d) = Ok w2"
    "try_fold apply_pending_change w2 (pending_changes d) = Ok w3" "apply_gas w3 (gas_paid d) = Ok w'"
    by (rule apply_delta_parts)
  have "ws_positions w' = ws_positions w3"
    using steps(4) by (rule apply_gas_cases) auto
  then have "ws_positions w' = ws_positions w2"
    using pending_fold_frame [OF steps(3)] by simp
  moreover have "ws_positions w1 = ws_positions w"
    using token_fold_frame [OF steps(1)] by simp
  moreover have "list_ex (\<lambda>p. pos_id p = i) (ws_positions w) \<longleftrightarrow> i \<in> set (ids w)"
    by (auto simp: list_ex_iff)
  ultimately show ?thesis
    using position_fold_ids [OF steps(2) assms(2), of i] by (simp only: effective_exists_def)
qed

text \<open>Pushing a position change is merging with the one-change delta.\<close>

lemma apply_push_position:
  assumes "gas_paid d = None"
  shows "apply_delta cd w (push_position pc d) = Ok w' \<longleftrightarrow>
    (\<exists>v. apply_delta cd w d = Ok v \<and> apply_position_change cd v pc = Ok w')"
proof -
  have "merge_delta d (StateDelta [] [pc] [] None) = Ok (push_position pc d)"
    by (simp add: merge_delta_no_gas_total assms push_position_def)
  from delta_runs_merge [OF this assms, of cd] show ?thesis
    by (auto simp: apply_delta_iff_runs relcomp_unfold delta_runs_def)
qed

lemma apply_snapshot_patch:
  assumes "codec_roundtrips cd p"
  shows "apply_position_patch cd x (snapshot_patch cd p) = Ok p"
  using assms
  by (auto simp: apply_position_patch_def snapshot_patch_def json_get_def codec_roundtrips_def split: option.splits)

lemma snapshot_change_helper:
  assumes "codec_roundtrips cd p" and "pos_id p = i"
  shows "snapshot_change cd (PosUpdate i (snapshot_patch cd p))"
  using assms
  by (auto simp: snapshot_change_def snapshot_patch_def json_get_def codec_roundtrips_def split: option.splits)

text \<open>The position the reverse scan finds is the one in the applied wallet, when no update was queued.\<close>

definition no_update_for :: "string \<Rightarrow> position_change list \<Rightarrow> bool" where
  "no_update_for i = list_all (\<lambda>pc. case pc of PosUpdate j _ \<Rightarrow> j \<noteq> i | _ \<Rightarrow> True)"

definition find_id :: "string \<Rightarrow> wallet_state \<Rightarrow> position option" where
  "find_id i w = List.find (\<lambda>p. pos_id p = i) (ws_positions w)"

lemma find_append:
  "List.find P (xs @ ys) = (case List.find P xs of Some x \<Rightarrow> Some x | None \<Rightarrow> List.find P ys)"
  by (induction xs) auto

lemma find_filter_same: "List.find P (filter (\<lambda>x. \<not> P x) xs) = None"
  by (auto simp: find_None_iff)

lemma find_filter_implied: "(\<And>x. P x \<Longrightarrow> Q x) \<Longrightarrow> List.find P (filter Q xs) = List.find P xs"
  by (induction xs) auto

lemma count_filter_other:
  "j \<noteq> i \<Longrightarrow> count_list (map pos_id (filter (\<lambda>p. pos_id p \<noteq> j) ps)) i = count_list (map pos_id ps) i"
  by (induction ps) auto

lemma find_update_other:
  assumes "pos_id x = j" "pos_id x' = j" "j \<noteq> i"
  shows "List.find (\<lambda>p. pos_id p = i) (us @ x' # vs) = List.find (\<lambda>p. pos_id p = i) (us @ x # vs)"
    "count_list (map pos_id (us @ x' # vs)) i = count_list (map pos_id (us @ x # vs)) i"
  using assms by (simp_all add: find_append split: option.splits)

lemma apply_update_split:
  assumes "apply_position_change cd w (PosUpdate j patch) = Ok w'" and "snapshot_change cd (PosUpdate j patch)"
  obtains us x x' vs where "ws_positions w = us @ x # vs" "pos_id x = j" "pos_id x' = j" "\<forall>u\<in>set us. pos_id u \<noteq> j"
    "apply_position_patch cd x patch = Ok x'" "ws_positions w' = us @ x' # vs"
proof -
  from assms(1) obtain ps where ps:
    "update_first (\<lambda>p. pos_id p = j) (\<lambda>p. apply_position_patch cd p patch) (ws_positions w) = Some (Ok ps)"
    "w' = w\<lparr>ws_positions := ps\<rparr>"
    by (auto simp: bind_result_eq_Ok split: option.splits)
  from update_first_Ok [OF ps(1)] obtain us x vs x' where split:
    "ws_positions w = us @ x # vs" "pos_id x = j" "\<forall>u\<in>set us. pos_id u \<noteq> j"
    "apply_position_patch cd x patch = Ok x'" "ps = us @ x' # vs"
    by blast
  moreover from this(4) assms(2) have "pos_id x' = j"
    by (auto simp: snapshot_change_def apply_position_patch_def Let_def ok_or_def split: option.splits)
  ultimately show ?thesis
    using that ps(2) by simp
qed

lemma scan_changes_find:
  assumes "try_fold (apply_position_change cd) w pcs = Ok w'" and "list_all (snapshot_change cd) pcs"
    and "no_update_for i pcs" and "count_list (ids w') i \<le> 1"
  shows "(case scan_changes i (rev pcs) of Some r \<Rightarrow> r | None \<Rightarrow> find_id i w) = find_id i w'"
  using assms
proof (induction pcs arbitrary: w' rule: rev_induct)
  case (snoc pc pcs)
  then obtain v where v: "try_fold (apply_position_change cd) w pcs = Ok v" "apply_position_change cd v pc = Ok w'"
    by (auto simp: try_fold_append bind_result_eq_Ok)
  have IH: "(case scan_changes i (rev pcs) of Some r \<Rightarrow> r | None \<Rightarrow> find_id i w) = find_id i v"
    if "count_list (ids v) i \<le> 1"
    using snoc.IH [OF v(1)] snoc.prems that by (simp add: no_update_for_def)
  show ?case
  proof (cases pc)
    case (PosOpen p)
    then have w': "ws_positions w' = ws_positions v @ [p]"
      using v(2) by auto
    show ?thesis
    proof (cases "pos_id p = i")
      case True
      then have "List.find (\<lambda>p. pos_id p = i) (ws_positions v) = None"
        using snoc.prems(4) w' by (auto simp: find_None_iff count_list_0_iff image_iff)
      with True PosOpen w' show ?thesis
        by (simp add: find_id_def find_append)
    next
      case False
      with PosOpen w' IH snoc.prems(4) show ?thesis
        by (simp add: find_id_def find_append split: option.splits)
    qed
  next
    case (PosUpdate j patch)
    with snoc.prems have "j \<noteq> i" "snapshot_change cd (PosUpdate j patch)"
      by (auto simp: no_update_for_def)
    moreover from this(2) obtain us x x' vs where "ws_positions v = us @ x # vs" "pos_id x = j" "pos_id x' = j"
      "ws_positions w' = us @ x' # vs"
      using v(2) PosUpdate by (metis apply_update_split)
    ultimately show ?thesis
      using IH PosUpdate snoc.prems(4) find_update_other [of x j x' i us vs] by (simp add: find_id_def)
  next
    case (PosClose j)
    then have w': "ws_positions w' = filter (\<lambda>p. pos_id p \<noteq> j) (ws_positions v)"
      using v(2) by (auto simp: Let_def split: if_splits)
    have "count_list (ids v) i = count_list (ids w') i" if "j \<noteq> i"
      using that w' by (simp add: count_filter_other)
    with PosClose snoc.prems(4) IH w' show ?thesis
      by (auto simp: find_id_def find_filter_same find_filter_implied)
  qed
qed simp

lemma distinct_ids_count: "distinct xs \<Longrightarrow> count_list xs x \<le> 1"
  by (induction xs) (auto simp: count_list_0_iff)

lemma effective_position_find:
  assumes "apply_delta cd w d = Ok w'" and "snapshot_delta cd d" and "no_update_for i (position_changes d)"
    and "distinct (ids w')"
  shows "effective_position w d i = find_id i w'"
proof -
  from assms(1) obtain w1 w2 w3 where steps:
    "try_fold apply_token_change w (token_changes d) = Ok w1"
    "try_fold (apply_position_change cd) w1 (position_changes d) = Ok w2"
    "try_fold apply_pending_change w2 (pending_changes d) = Ok w3" "apply_gas w3 (gas_paid d) = Ok w'"
    by (rule apply_delta_parts)
  have "ws_positions w' = ws_positions w3"
    using steps(4) by (rule apply_gas_cases) auto
  then have w2: "ws_positions w' = ws_positions w2"
    using pending_fold_frame [OF steps(3)] by simp
  moreover have "ws_positions w1 = ws_positions w"
    using token_fold_frame [OF steps(1)] by simp
  moreover have "count_list (ids w2) i \<le> 1"
    using assms(4) w2 distinct_ids_count [of "ids w2" i] by simp
  ultimately show ?thesis
    using scan_changes_find [OF steps(2) assms(2,3)]
    by (simp add: effective_position_def find_id_def split: option.splits)
qed

lemma upsert_Ok:
  assumes "upsert_lending_account cd w d i mutate = Ok d' \<or> upsert_perp_position cd w d i mutate = Ok d' \<or>
    upsert_hl_account cd w d i mutate = Ok d'"
  obtains p where "effective_position w d i = Some p"
    "d' = push_position (PosUpdate i (snapshot_patch cd (mutate p))) d"
  using assms
  by (auto simp: upsert_lending_account_def upsert_perp_position_def upsert_hl_account_def Let_def
      bind_result_eq_Ok ok_or_def split: option.splits if_splits)

lemma find_Some_split:
  "List.find P xs = Some x \<Longrightarrow> \<exists>us vs. xs = us @ x # vs \<and> P x \<and> (\<forall>u\<in>set us. \<not> P u)"
proof (induction xs)
  case (Cons a xs)
  show ?case
  proof (cases "P a")
    case True
    with Cons.prems show ?thesis
      by (intro exI [of _ "[]"] exI [of _ xs]) auto
  next
    case False
    with Cons obtain us vs where "xs = us @ x # vs" "P x" "\<forall>u\<in>set us. \<not> P u"
      by auto
    with False show ?thesis
      by (intro exI [of _ "a # us"] exI [of _ vs]) simp
  qed
qed simp

lemma find_id_split:
  assumes "find_id i w = Some p"
  obtains us vs where "ws_positions w = us @ p # vs" "pos_id p = i" "\<forall>u\<in>set us. pos_id u \<noteq> i"
  using find_Some_split [of "\<lambda>p. pos_id p = i" "ws_positions w" p] assms that by (auto simp: find_id_def)

lemma upsert_applies:
  assumes "apply_delta cd w d = Ok w1" and "snapshot_delta cd d" and "gas_paid d = None"
    and "distinct (map pos_id (ws_positions w1))" and "no_update_for i (position_changes d)"
    and "upsert_lending_account cd w d i mutate = Ok d' \<or> upsert_perp_position cd w d i mutate = Ok d' \<or>
      upsert_hl_account cd w d i mutate = Ok d'"
    and "\<forall>p\<in>set (ws_positions w1). codec_roundtrips cd (mutate p)"
  shows "\<exists>us p vs w2. ws_positions w1 = us @ p # vs \<and> pos_id p = i \<and> apply_delta cd w d' = Ok w2 \<and>
    ws_positions w2 = us @ mutate p # vs"
proof -
  from assms(6) obtain p where p: "effective_position w d i = Some p"
    and d': "d' = push_position (PosUpdate i (snapshot_patch cd (mutate p))) d"
    by (rule upsert_Ok)
  have "find_id i w1 = Some p"
    using effective_position_find [OF assms(1,2,5,4)] p by simp
  then obtain us vs where split: "ws_positions w1 = us @ p # vs" "pos_id p = i" "\<forall>u\<in>set us. pos_id u \<noteq> i"
    by (rule find_id_split)
  then have "apply_position_change cd w1 (PosUpdate i (snapshot_patch cd (mutate p))) =
      Ok (w1\<lparr>ws_positions := us @ mutate p # vs\<rparr>)"
    using assms(7) by (simp add: update_first_split apply_snapshot_patch)
  then have "apply_delta cd w d' = Ok (w1\<lparr>ws_positions := us @ mutate p # vs\<rparr>)"
    using apply_push_position [OF assms(3)] assms(1) d' by blast
  with split show ?thesis
    by (intro exI [of _ us] exI [of _ p] exI [of _ vs] exI [of _ "w1\<lparr>ws_positions := us @ mutate p # vs\<rparr>"]) simp
qed

lemma account_delta_applies:
  "apply_delta sample_codec account_wallet open_delta = Ok opened_wallet"
  by (simp add: open_delta_def opened_wallet_def apply_delta_def apply_gas_def)

lemma account_delta_facts:
  "snapshot_delta sample_codec open_delta" "gas_paid open_delta = None"
  "distinct (map pos_id (ws_positions opened_wallet))" "no_update_for ''hl'' (position_changes open_delta)"
  by (simp_all add: open_delta_def snapshot_change_def opened_wallet_def account_wallet_def no_update_for_def)

section \<open>Properties\<close>

text \<open>
  The existence check of the helpers answers for the wallet as it will be: a position id exists
  in the overlay of the wallet and the queued changes exactly when the applied wallet has it.
\<close>

lemma effective_exists_exact:
  assumes "apply_delta cd w d = Ok w'" and "snapshot_delta cd d"
  shows "effective_exists w d i \<longleftrightarrow> i \<in> set (map pos_id (ws_positions w'))"
  using assms by (rule effective_exists_ids)

text \<open>
  Opening a position keeps position ids unique: when the queued delta leads to distinct ids and
  \<open>open_position\<close> accepts, the extended delta applies, appends just that position and
  leads to distinct ids again.
\<close>

lemma open_position_distinct:
  assumes "apply_delta cd w d = Ok w1" and "snapshot_delta cd d" and "gas_paid d = None"
    and "distinct (map pos_id (ws_positions w1))" and "open_position w d p = Ok d'"
  shows "\<exists>w2. apply_delta cd w d' = Ok w2 \<and> ws_positions w2 = ws_positions w1 @ [p] \<and>
    distinct (map pos_id (ws_positions w2)) \<and> snapshot_delta cd d'"
proof -
  from assms(5) have "\<not> effective_exists w d (pos_id p)" and d': "d' = push_position (PosOpen p) d"
    by (auto simp: open_position_def split: if_splits)
  then have "pos_id p \<notin> set (ids w1)"
    using effective_exists_ids [OF assms(1,2)] by simp
  then show ?thesis
    using apply_push_position [OF assms(3), of cd w "PosOpen p"] assms(1,2,4) d'
    by (simp add: snapshot_change_def)
qed

text \<open>
  Closing succeeds exactly when the applied wallet has a position with that id; the extended
  delta then applies and removes that id and nothing else.
\<close>

lemma close_position_exact:
  assumes "apply_delta cd w d = Ok w1" and "snapshot_delta cd d" and "gas_paid d = None"
  shows "(if i \<in> set (map pos_id (ws_positions w1))
     then \<exists>d' w2. close_position w d i = Ok d' \<and> apply_delta cd w d' = Ok w2 \<and>
       ws_positions w2 = filter (\<lambda>p. pos_id p \<noteq> i) (ws_positions w1)
     else close_position w d i = Err (PositionNotFound i))"
proof (cases "i \<in> set (ids w1)")
  case True
  then have "length (filter (\<lambda>p. pos_id p \<noteq> i) (ws_positions w1)) \<noteq> length (ws_positions w1)"
    by (auto simp: length_filter_less less_imp_neq)
  then have "apply_position_change cd w1 (PosClose i) =
      Ok (w1\<lparr>ws_positions := filter (\<lambda>p. pos_id p \<noteq> i) (ws_positions w1)\<rparr>)"
    by (simp add: Let_def)
  then have "apply_delta cd w (push_position (PosClose i) d) =
      Ok (w1\<lparr>ws_positions := filter (\<lambda>p. pos_id p \<noteq> i) (ws_positions w1)\<rparr>)"
    using apply_push_position [OF assms(3), of cd w "PosClose i"] assms(1) by blast
  moreover have "close_position w d i = Ok (push_position (PosClose i) d)"
    using True effective_exists_ids [OF assms(1,2), of i] by (simp add: close_position_def)
  ultimately show ?thesis
    using True by auto
next
  case False
  then show ?thesis
    using effective_exists_ids [OF assms(1,2), of i] by (simp add: close_position_def)
qed

lemma sample_position_hl: "is_hl_kind (pos_kind (sample_position i out))"
  by (simp add: sample_position_def)

lemma bump_hl: "is_hl_kind (pos_kind (bump t p))"
  by (simp add: bump_def sample_position_hl)

lemma sample_codec_roundtrips: "codec_roundtrips sample_codec (sample_position i out)"
  by (simp add: codec_roundtrips_def sample_codec_def)

text \<open>
  A second update of the same position in one delta starts from the position as it was before
  the first: after updates \<open>f\<close> and then \<open>g\<close> the applied wallet holds \<open>g p\<close>, not \<open>g (f p)\<close>.
\<close>

lemma upsert_twice_loses_first:
  "\<exists>d1 d2 w2. upsert_hl_account sample_codec account_wallet delta_new ''hl'' (bump ''1'') = Ok d1 \<and>
     upsert_hl_account sample_codec account_wallet d1 ''hl'' (bump ''2'') = Ok d2 \<and>
     apply_delta sample_codec account_wallet d2 = Ok w2 \<and>
     ws_positions w2 = [bump ''2'' (sample_position ''hl'' ''0'')] \<and>
     bump ''2'' (sample_position ''hl'' ''0'') \<noteq> bump ''2'' (bump ''1'' (sample_position ''hl'' ''0''))"
proof -
  have patch: "apply_position_patch sample_codec x (snapshot_patch sample_codec (bump t q)) = Ok (bump t q)" for x t q
    by (rule apply_snapshot_patch) (simp add: bump_def sample_codec_roundtrips)
  show ?thesis
    by (simp add: upsert_hl_account_def effective_position_def account_wallet_def sample_position_hl bump_hl Let_def
        apply_delta_def apply_gas_def patch) (simp add: bump_def)
qed

end
