(* ===== verification/Token_Action.thy ===== *)
theory Token_Action
  imports Reducer_Base
begin

text \<open>
  Token actions (\<open>asset-model/action/src/token\<close>): the action structs, the \<open>TokenAction\<close> enum with its
  wire tag, and the deserializer that reads a Permit2 deadline from a number or a decimal string.
\<close>

section \<open>Actions\<close>

record erc20_approve_action =
  ea_token :: token_ref
  ea_spender :: address
  ea_amount :: u256

record erc20_permit_action =
  ep_token :: token_ref
  ep_spender :: address
  ep_amount :: u256
  ep_deadline :: time
  ep_nonce :: "u256 live_field"

record permit2_approve_action =
  pa_token :: token_ref
  pa_spender :: address
  pa_amount :: u256
  pa_expires_at :: time

record permit2_sign_action =
  ps_token :: token_ref
  ps_spender :: address
  ps_amount :: u256
  ps_expires_at :: time
  ps_sig_deadline :: time
  ps_nonce :: "(u256 \<times> u8) live_field"

record permit2_sign_transfer_action =
  pst_token :: token_ref
  pst_owner :: address
  pst_spender :: address
  pst_amount :: u256
  pst_nonce :: "(u256 \<times> u8) live_field"
  pst_sig_deadline :: time
  pst_witness_type :: "string option"

record permit2_transfer_from_action =
  ptf_token :: token_ref
  ptf_owner :: address
  ptf_spender :: address
  ptf_recipient :: address
  ptf_amount :: u256
  ptf_permitted_amount :: u256
  ptf_nonce :: "(u256 \<times> u8) live_field"
  ptf_sig_deadline :: time
  ptf_witness_type :: "string option"

record erc20_transfer_action =
  et_token :: token_ref
  et_recipient :: address
  et_amount :: u256
  et_is_router_egress :: bool

record nft_approve_action =
  na_nft_key :: token_key
  na_spender :: address

record nft_set_for_all_action =
  ns_chain :: chain_id
  ns_contract :: address
  ns_spender :: address
  ns_approved :: bool

record nft_transfer_action =
  nt_nft_key :: token_key
  nt_amount :: "u256 option"
  nt_recipient :: address

datatype revoke_scope =
    Revoke_Erc20 token_ref address
  | Revoke_NftSingleToken token_key
  | Revoke_NftSetForAll chain_id address address
  | Revoke_Permit2Lockdown token_ref address
  | Revoke_Permit2UnorderedNonce chain_id u256 u256

datatype revoke_approval_action = RevokeApprovalAction (ra_scope: revoke_scope)

record refund_native_action =
  rn_token :: token_ref
  rn_recipient :: address

record wrap_native_action =
  wn_token :: token_ref
  wn_amount :: u256

record unwrap_native_action =
  un_token :: token_ref
  un_amount :: u256

datatype token_action =
    Erc20Approve erc20_approve_action
  | Erc20Permit erc20_permit_action
  | Permit2Approve permit2_approve_action
  | Permit2SignAllowance permit2_sign_action
  | Permit2SignTransfer permit2_sign_transfer_action
  | Permit2TransferFrom permit2_transfer_from_action
  | Erc20Transfer erc20_transfer_action
  | NftApprove nft_approve_action
  | NftSetApprovalForAll nft_set_for_all_action
  | NftTransfer nft_transfer_action
  | RevokeApproval revoke_approval_action
  | RefundNative refund_native_action
  | WrapNative wrap_native_action
  | UnwrapNative unwrap_native_action

fun token_action_tag :: "token_action \<Rightarrow> string" where
  "token_action_tag (Erc20Approve _) = ''erc20_approve''"
| "token_action_tag (Erc20Permit _) = ''erc20_permit''"
| "token_action_tag (Permit2Approve _) = ''permit2_approve''"
| "token_action_tag (Permit2SignAllowance _) = ''permit2_sign_allowance''"
| "token_action_tag (Permit2SignTransfer _) = ''permit2_sign_transfer''"
| "token_action_tag (Permit2TransferFrom _) = ''permit2_transfer_from''"
| "token_action_tag (Erc20Transfer _) = ''erc20_transfer''"
| "token_action_tag (NftApprove _) = ''nft_approve''"
| "token_action_tag (NftSetApprovalForAll _) = ''nft_set_approval_for_all''"
| "token_action_tag (NftTransfer _) = ''nft_transfer''"
| "token_action_tag (RevokeApproval _) = ''revoke_approval''"
| "token_action_tag (RefundNative _) = ''refund_native''"
| "token_action_tag (WrapNative _) = ''wrap_native''"
| "token_action_tag (UnwrapNative _) = ''unwrap_native''"

section \<open>Permit2 deadlines\<close>

datatype int_error_kind = EmptyInt | InvalidDigit | PosOverflow

text \<open>\<open>str::parse::<u64>\<close>: an optional plus sign, then digits with an overflow check at each one.\<close>

fun parse_digits_u64 :: "nat \<Rightarrow> string \<Rightarrow> int_error_kind + nat" where
  "parse_digits_u64 acc [] = Ok acc"
| "parse_digits_u64 acc (c # cs) =
     (if \<not> is_ascii_digit c then Err InvalidDigit
      else let r = 10 * acc + char_digit c in
        if 2 ^ 64 \<le> r then Err PosOverflow else parse_digits_u64 r cs)"

definition parse_u64 :: "string \<Rightarrow> int_error_kind + u64" where
  "parse_u64 s = map_sum id of_nat
     (case s of
        [] \<Rightarrow> Err EmptyInt
      | [c] \<Rightarrow> parse_digits_u64 0 [c]
      | c # cs \<Rightarrow> if c = CHR ''+'' then parse_digits_u64 0 cs else parse_digits_u64 0 (c # cs))"

text \<open>The untagged enum tries a \<open>u64\<close> number first and a string second.\<close>

definition time_from_str_or_num :: "json \<Rightarrow> time option" where
  "time_from_str_or_num j =
     (case j of
        JNumber (PosInt n) \<Rightarrow> Some (Time n)
      | JString s \<Rightarrow>
          (case parse_u64 s of
             Inr n \<Rightarrow> Some (Time n)
           | Inl PosOverflow \<Rightarrow> Some (Time (- 1))
           | Inl _ \<Rightarrow> None)
      | _ \<Rightarrow> None)"

lemma parse_digits_u64_value:
  assumes "\<forall>c\<in>set s. is_ascii_digit c" and "acc < 2 ^ 64"
  shows "parse_digits_u64 acc s =
    (if foldl (\<lambda>a c. 10 * a + char_digit c) acc s < 2 ^ 64
     then Ok (foldl (\<lambda>a c. 10 * a + char_digit c) acc s) else Err PosOverflow)"
  using assms
proof (induction s arbitrary: acc)
  case (Cons c s)
  have grow: "a \<le> foldl (\<lambda>a c. 10 * a + char_digit c) a t" for a t
  proof (induction t arbitrary: a)
    case (Cons x t)
    have "a \<le> 10 * a + char_digit x"
      by simp
    also have "\<dots> \<le> foldl (\<lambda>a c. 10 * a + char_digit c) (10 * a + char_digit x) t"
      by (rule Cons.IH)
    finally show ?case
      by simp
  qed simp
  show ?case
  proof (cases "10 * acc + char_digit c < 2 ^ 64")
    case True
    with Cons show ?thesis
      by (simp add: Let_def)
  next
    case False
    with grow [of "10 * acc + char_digit c" s] Cons.prems(1) show ?thesis
      by (simp add: Let_def)
  qed
qed simp

lemma plus_not_digit: "\<not> is_ascii_digit (CHR ''+'')"
  by (simp add: is_ascii_digit_def)

section \<open>Properties\<close>

text \<open>
  Reading a Permit2 deadline printed in decimal gives that number of seconds when it fits 64
  bits, and the largest time otherwise: no decimal string is rejected for being too large.
\<close>

lemma time_from_decimal_saturates:
  "time_from_str_or_num (JString (dec_string n)) = Some (Time (of_nat (min n (2 ^ 64 - 1))))"
proof -
  have digits: "parse_digits_u64 0 (dec_string n) = (if n < 2 ^ 64 then Ok n else Err PosOverflow)"
    using parse_digits_u64_value [OF dec_string_digits, of 0 n] undigits_dec_string [of n]
    by (simp add: undigits_def)
  have "parse_u64 (dec_string n) = map_sum id of_nat (parse_digits_u64 0 (dec_string n))"
    using dec_string_digits [of n] plus_not_digit
    by (cases "dec_string n") (auto simp: parse_u64_def split: list.splits)
  then have "parse_u64 (dec_string n) = (if n < 2 ^ 64 then Ok (of_nat n) else Err PosOverflow)"
    by (simp add: digits)
  moreover have "(of_nat (2 ^ 64 - 1) :: u64) = - 1"
    by simp
  ultimately show ?thesis
    by (auto simp: time_from_str_or_num_def min_def)
qed

end
