(* ===== verification/Approval_Helpers.thy ===== *)
theory Approval_Helpers
  imports Delta_Helpers
begin

text \<open>
  Approval primitives of the reducers (\<open>asset-model/transition/src/helpers/approval.rs\<close>). Each
  appends one token change to the delta under construction; the lemmas say what that change
  does to the wallet's approval maps once it is applied.
\<close>

section \<open>Operations\<close>

fun is_erc20_key :: "token_key \<Rightarrow> bool" where
  "is_erc20_key (TK_Erc20 _ _) = True"
| "is_erc20_key _ = False"

definition set_erc20_allowance ::
  "wallet_state \<Rightarrow> state_delta \<Rightarrow> time \<Rightarrow> token_ref \<Rightarrow> address \<Rightarrow> u256 \<Rightarrow> state_delta reducer_result" where
  "set_erc20_allowance w d set_at token spender amount =
     (if \<not> is_erc20_key (ref_key token) then Err (Invariant (NonErc20Token ''set_erc20_allowance''))
      else let al = (if amount = u256_max then allowance_unlimited set_at else allowance_new amount set_at)
           in Ok (push_token (ApprovalSet (ref_key token) spender al) d))"

definition revoke_erc20_allowance ::
  "wallet_state \<Rightarrow> state_delta \<Rightarrow> token_ref \<Rightarrow> address \<Rightarrow> state_delta reducer_result" where
  "revoke_erc20_allowance w d token spender =
     (if \<not> is_erc20_key (ref_key token) then Err (Invariant (NonErc20Token ''revoke_erc20_allowance''))
      else Ok (push_token (ApprovalRevoke (ref_key token) spender Scope_Erc20) d))"

definition set_for_all ::
  "wallet_state \<Rightarrow> state_delta \<Rightarrow> time \<Rightarrow> chain_id \<Rightarrow> address \<Rightarrow> address \<Rightarrow> bool \<Rightarrow> state_delta reducer_result" where
  "set_for_all w d set_at chain contract spender approved =
     (let placeholder_key = TK_Erc721 chain contract 0 in
      if approved then Ok (push_token (ApprovalSet placeholder_key spender (allowance_unlimited set_at)) d)
      else Ok (push_token (ApprovalRevoke placeholder_key spender Scope_SetForAll) d))"

definition set_nft_approve ::
  "wallet_state \<Rightarrow> state_delta \<Rightarrow> time \<Rightarrow> token_key \<Rightarrow> address \<Rightarrow> state_delta reducer_result" where
  "set_nft_approve w d set_at k spender =
     (if \<not> is_nft k then Err (Invariant (RequiresErc721 ''set_nft_approve''))
      else let mapped = (if spender = 0 then None else Some spender)
           in Ok (push_token (Erc721ApprovedTo k mapped) d))"

definition revoke_permit2_allowance ::
  "wallet_state \<Rightarrow> state_delta \<Rightarrow> token_ref \<Rightarrow> address \<Rightarrow> state_delta reducer_result" where
  "revoke_permit2_allowance w d token spender =
     (if \<not> is_erc20_key (ref_key token) then Err (Invariant (NonErc20Token ''revoke_permit2_allowance''))
      else Ok (push_token (ApprovalRevoke (ref_key token) spender Scope_Permit2) d))"

definition upsert_permit2_allowance ::
  "wallet_state \<Rightarrow> state_delta \<Rightarrow> token_ref \<Rightarrow> spender \<Rightarrow> u256 \<Rightarrow> time \<Rightarrow> state_delta reducer_result" where
  "upsert_permit2_allowance w d token spender amount expires_at =
     (if \<not> is_erc20_key (ref_key token) then Err (Invariant (NonErc20Token ''upsert_permit2_allowance''))
      else let al = \<lparr>al_amount = amount, al_is_unlimited = (amount = u256_max), al_last_set_at = expires_at\<rparr>
           in Ok (push_token (ApprovalSet (ref_key token) spender al) d))"

section \<open>Lemmas\<close>

text \<open>The two ways of building an allowance agree: unlimited exactly at the largest amount.\<close>

lemma allowance_built:
  "(if amount = u256_max then allowance_unlimited t else allowance_new amount t) = allowance_new amount t"
  by (simp add: allowance_new_def allowance_unlimited_def)

lemma is_erc20_key_cases:
  assumes "is_erc20_key k"
  obtains c a where "k = TK_Erc20 c a"
  using assms by (cases k) auto

lemma is_nft_cases:
  assumes "is_nft k"
  obtains c a i where "k = TK_Erc721 c a i"
  using assms by (cases k) auto

lemma apply_delta_one_change:
  "apply_delta cd w (push_token tc delta_new) = apply_token_change w tc"
  by (cases "apply_token_change w tc") (simp_all add: apply_delta_def apply_gas_def)

lemmas apply_one_change = apply_delta_one_change apply_approval_set_erc20 apply_approval_set_erc721
  apply_approval_revoke_def contract_addr_key_def

end
