(* ===== verification/Token_Effect.thy ===== *)
theory Token_Effect
  imports Token_Action Balance_Helpers Approval_Helpers
begin

text \<open>
  The token reducers (\<open>asset-model/transition/src/effect/token.rs\<close>): one definition per \<open>impl Reducer\<close>,
  and the dispatcher over \<open>TokenAction\<close>. A reducer reads the wallet and returns a delta.
\<close>

section \<open>Operations\<close>

definition pending_user_source :: data_source where
  "pending_user_source = UserSupplied"

definition pending_id_for_eip2612 :: "string \<Rightarrow> string \<Rightarrow> string \<Rightarrow> string" where
  "pending_id_for_eip2612 token_addr_hex spender_hex nonce =
     ''eip2612:'' @ token_addr_hex @ '':'' @ spender_hex @ '':'' @ nonce"

definition pending_id_for_permit2 :: "string \<Rightarrow> string \<Rightarrow> string \<Rightarrow> u8 \<Rightarrow> string" where
  "pending_id_for_permit2 token_addr_hex spender_hex word b =
     ''permit2:'' @ token_addr_hex @ '':'' @ spender_hex @ '':'' @ word @ '':'' @ dec_word b"

definition pending_id_for_permit2_transfer :: "string \<Rightarrow> string \<Rightarrow> string \<Rightarrow> string \<Rightarrow> u8 \<Rightarrow> string" where
  "pending_id_for_permit2_transfer token_addr_hex owner_hex spender_hex word b =
     ''permit2-transfer:'' @ token_addr_hex @ '':'' @ owner_hex @ '':'' @ spender_hex @ '':'' @ word @ '':'' @ dec_word b"

type_synonym 'a reducer = "'a \<Rightarrow> wallet_state \<Rightarrow> eval_context \<Rightarrow> state_delta reducer_result"

definition apply_wrap_native :: "wrap_native_action reducer" where
  "apply_wrap_native a w ctx = Ok delta_new"

definition apply_unwrap_native :: "unwrap_native_action reducer" where
  "apply_unwrap_native a w ctx = Ok delta_new"

definition apply_refund_native :: "refund_native_action reducer" where
  "apply_refund_native a w ctx = Ok delta_new"

definition apply_erc20_approve :: "erc20_approve_action reducer" where
  "apply_erc20_approve a w ctx =
     set_erc20_allowance w delta_new (ec_now ctx) (ea_token a) (ea_spender a) (ea_amount a)"

definition apply_erc20_permit :: "erc20_permit_action reducer" where
  "apply_erc20_permit a w ctx =
     (case ref_key (ep_token a) of
        TK_Erc20 _ token_addr \<Rightarrow>
          (let nonce_value = lf_value (ep_nonce a);
               pending = PendingTx
                 (pending_id_for_eip2612 (hex_address token_addr) (hex_address (ep_spender a)) (dec_word nonce_value))
                 (SignedEIP2612 (ep_token a) (ep_spender a) (ep_amount a) (ep_deadline a) nonce_value)
                 (PermitCap (ep_token a) (ep_spender a) (ep_amount a))
                 delta_new
                 \<lparr>pl_status = PSActive, pl_valid_until = Some (ep_deadline a),
                  pl_nonce = Some (NonceKey_Eip2612 token_addr nonce_value),
                  pl_on_chain_tx = None, pl_raw_status = None\<rparr>
                 pending_user_source (ec_now ctx) []
           in Ok (push_pending (PendingAdd pending) delta_new))
      | _ \<Rightarrow> Err (Invariant (TokenMustBeErc20 ''Erc20PermitAction'')))"

definition apply_permit2_approve :: "permit2_approve_action reducer" where
  "apply_permit2_approve a w ctx =
     upsert_permit2_allowance w delta_new (pa_token a) (pa_spender a) (pa_amount a) (pa_expires_at a)"

definition apply_permit2_sign :: "permit2_sign_action reducer" where
  "apply_permit2_sign a w ctx =
     (case ref_key (ps_token a) of
        TK_Erc20 _ token_addr \<Rightarrow>
          (let (word, b) = lf_value (ps_nonce a);
               pending = PendingTx
                 (pending_id_for_permit2 (hex_address token_addr) (hex_address (ps_spender a)) (dec_word word) b)
                 (SignedPermit2 (ps_token a) (ps_spender a) (ps_amount a) (ps_expires_at a) (word, b))
                 (PermitCap (ps_token a) (ps_spender a) (ps_amount a))
                 delta_new
                 \<lparr>pl_status = PSActive, pl_valid_until = Some (ps_expires_at a),
                  pl_nonce = Some (NonceKey_Permit2 word b),
                  pl_on_chain_tx = None, pl_raw_status = None\<rparr>
                 pending_user_source (ec_now ctx) []
           in Ok (push_pending (PendingAdd pending) delta_new))
      | _ \<Rightarrow> Err (Invariant (TokenMustBeErc20 ''Permit2SignAction'')))"

definition apply_permit2_sign_transfer :: "permit2_sign_transfer_action reducer" where
  "apply_permit2_sign_transfer a w ctx =
     (if pst_owner a \<noteq> wid_address (ws_wallet_id w) then Ok delta_new
      else case ref_key (pst_token a) of
        TK_Erc20 _ token_addr \<Rightarrow>
          (let (word, b) = lf_value (pst_nonce a);
               pending = PendingTx
                 (pending_id_for_permit2_transfer (hex_address token_addr) (hex_address (pst_owner a))
                   (hex_address (pst_spender a)) (dec_word word) b)
                 (SignedPermit2Transfer (pst_token a) (pst_owner a) (pst_spender a) (pst_amount a)
                   (pst_sig_deadline a) (word, b) (pst_witness_type a))
                 (PermitCap (pst_token a) (pst_spender a) (pst_amount a))
                 delta_new
                 \<lparr>pl_status = PSActive, pl_valid_until = Some (pst_sig_deadline a),
                  pl_nonce = Some (NonceKey_Permit2 word b),
                  pl_on_chain_tx = None, pl_raw_status = None\<rparr>
                 pending_user_source (ec_now ctx) []
           in Ok (push_pending (PendingAdd pending) delta_new))
      | _ \<Rightarrow> Err (Invariant (TokenMustBeErc20 ''Permit2SignTransferAction'')))"

definition apply_permit2_transfer_from :: "permit2_transfer_from_action reducer" where
  "apply_permit2_transfer_from a w ctx =
     (if ptf_owner a \<noteq> wid_address (ws_wallet_id w) then Ok delta_new
      else if \<not> is_erc20_key (ref_key (ptf_token a))
        then Err (Invariant (TokenMustBeErc20 ''Permit2TransferFromAction''))
      else transfer w delta_new (ref_key (ptf_token a)) (ptf_recipient a) (ptf_amount a))"

definition apply_erc20_transfer :: "erc20_transfer_action reducer" where
  "apply_erc20_transfer a w ctx =
     transfer w delta_new (ref_key (et_token a)) (et_recipient a) (et_amount a)"

definition apply_nft_approve :: "nft_approve_action reducer" where
  "apply_nft_approve a w ctx = set_nft_approve w delta_new (ec_now ctx) (na_nft_key a) (na_spender a)"

definition apply_nft_set_for_all :: "nft_set_for_all_action reducer" where
  "apply_nft_set_for_all a w ctx =
     set_for_all w delta_new (ec_now ctx) (ns_chain a) (ns_contract a) (ns_spender a) (ns_approved a)"

definition apply_nft_transfer :: "nft_transfer_action reducer" where
  "apply_nft_transfer a w ctx = transfer_nft w delta_new (nt_nft_key a) (nt_recipient a) (nt_amount a)"

definition apply_revoke_approval :: "revoke_approval_action reducer" where
  "apply_revoke_approval a w ctx =
     (case ra_scope a of
        Revoke_Erc20 token spender \<Rightarrow> revoke_erc20_allowance w delta_new token spender
      | Revoke_NftSingleToken k \<Rightarrow> set_nft_approve w delta_new (Time 0) k 0
      | Revoke_NftSetForAll chain contract spender \<Rightarrow> set_for_all w delta_new (Time 0) chain contract spender False
      | Revoke_Permit2Lockdown token spender \<Rightarrow> revoke_permit2_allowance w delta_new token spender
      | Revoke_Permit2UnorderedNonce _ _ _ \<Rightarrow> Ok delta_new)"

fun apply_token_action :: "token_action reducer" where
  "apply_token_action (Erc20Approve a) w ctx = apply_erc20_approve a w ctx"
| "apply_token_action (Erc20Permit a) w ctx = apply_erc20_permit a w ctx"
| "apply_token_action (Permit2Approve a) w ctx = apply_permit2_approve a w ctx"
| "apply_token_action (Permit2SignAllowance a) w ctx = apply_permit2_sign a w ctx"
| "apply_token_action (Permit2SignTransfer a) w ctx = apply_permit2_sign_transfer a w ctx"
| "apply_token_action (Permit2TransferFrom a) w ctx = apply_permit2_transfer_from a w ctx"
| "apply_token_action (Erc20Transfer a) w ctx = apply_erc20_transfer a w ctx"
| "apply_token_action (NftApprove a) w ctx = apply_nft_approve a w ctx"
| "apply_token_action (NftSetApprovalForAll a) w ctx = apply_nft_set_for_all a w ctx"
| "apply_token_action (NftTransfer a) w ctx = apply_nft_transfer a w ctx"
| "apply_token_action (RevokeApproval a) w ctx = apply_revoke_approval a w ctx"
| "apply_token_action (RefundNative a) w ctx = apply_refund_native a w ctx"
| "apply_token_action (WrapNative a) w ctx = apply_wrap_native a w ctx"
| "apply_token_action (UnwrapNative a) w ctx = apply_unwrap_native a w ctx"

lemmas token_reducer_defs = apply_erc20_approve_def apply_erc20_permit_def apply_permit2_approve_def
  apply_permit2_sign_def apply_permit2_sign_transfer_def apply_permit2_transfer_from_def
  apply_erc20_transfer_def apply_nft_approve_def apply_nft_set_for_all_def apply_nft_transfer_def
  apply_revoke_approval_def apply_refund_native_def apply_wrap_native_def apply_unwrap_native_def

lemmas approval_helper_defs = set_erc20_allowance_def revoke_erc20_allowance_def set_for_all_def
  set_nft_approve_def revoke_permit2_allowance_def upsert_permit2_allowance_def

section \<open>Shape of the deltas\<close>

lemma debit_Ok_push: "debit w d k amt = Ok d' \<Longrightarrow> d' = push_token (BalanceDelta k (- u256_to_signed_saturating amt)) d"
  by (auto simp: debit_def bind_result_eq_Ok Let_def split: if_splits)

lemma transfer_nft_Ok_push: "transfer_nft w d k r amt = Ok d' \<Longrightarrow> \<exists>x. d' = push_token (BalanceDelta k x) d"
  by (cases k) (auto simp: transfer_nft_def bind_result_eq_Ok dest: debit_Ok_push)

text \<open>A token reducer queues at most one change, and never a position change or a gas charge.\<close>

lemma token_action_shape:
  assumes "apply_token_action a w ctx = Ok d"
  obtains "d = delta_new" | tc where "d = push_token tc delta_new" | p where "d = push_pending (PendingAdd p) delta_new"
  using assms
  by (cases a)
    (auto simp: token_reducer_defs approval_helper_defs transfer_def Let_def split_beta
      split: token_key.splits if_splits revoke_scope.splits dest!: debit_Ok_push transfer_nft_Ok_push)

definition moves_funds :: "token_action \<Rightarrow> bool" where
  "moves_funds a = (case a of Permit2TransferFrom _ \<Rightarrow> True | Erc20Transfer _ \<Rightarrow> True | NftTransfer _ \<Rightarrow> True | _ \<Rightarrow> False)"

text \<open>Actions on one ERC-721 token, which \<open>apply_delta\<close> looks up as a holding.\<close>

definition single_nft :: "token_action \<Rightarrow> bool" where
  "single_nft a =
     (case a of
        NftTransfer t \<Rightarrow> is_nft (nt_nft_key t)
      | NftApprove _ \<Rightarrow> True
      | RevokeApproval r \<Rightarrow> (case ra_scope r of Revoke_NftSingleToken _ \<Rightarrow> True | _ \<Rightarrow> False)
      | _ \<Rightarrow> False)"

definition balance_neutral :: "token_change \<Rightarrow> bool" where
  "balance_neutral tc = (case tc of BalanceDelta _ _ \<Rightarrow> False | Mint _ _ \<Rightarrow> False | _ \<Rightarrow> True)"

lemma approval_action_shape:
  assumes "apply_token_action a w ctx = Ok d" and "\<not> moves_funds a"
  obtains "token_changes d = []" | tc where "token_changes d = [tc]" "balance_neutral tc"
  using assms
  by (cases a)
    (auto simp: token_reducer_defs approval_helper_defs Let_def split_beta moves_funds_def balance_neutral_def
      split: token_key.splits if_splits revoke_scope.splits)

lemma balance_neutral_change:
  assumes "apply_token_change w tc = Ok w'" and "balance_neutral tc"
  shows "balance_of w' k = balance_of w k"
proof (cases tc)
  case (ApprovalSet k' sp al)
  with assms show ?thesis
    by (auto simp: balance_of_def dest!: apply_approval_set_cases)
next
  case (ApprovalRevoke k' sp scope)
  with assms update_holding_balance_of [of w k' "\<lambda>h. Ok (h\<lparr>h_approved_to := None\<rparr>)" w' k] show ?thesis
    by (auto simp: apply_approval_revoke_def bind_result_eq_Ok balance_of_def split: approval_scope.splits)
next
  case (Erc721ApprovedTo k' sp)
  with assms update_holding_balance_of [of w k' "\<lambda>h. Ok (h\<lparr>h_approved_to := sp\<rparr>)" w' k] show ?thesis
    by auto
qed (use assms in \<open>auto simp: balance_neutral_def\<close>)

lemma apply_delta_new [simp]: "apply_delta cd w delta_new = Ok w"
  by (simp add: apply_delta_def apply_gas_def)

lemma apply_push_pending [simp]:
  "apply_delta cd w (push_pending (PendingAdd p) delta_new) = Ok (w\<lparr>ws_pending := ws_pending w @ [p]\<rparr>)"
  by (simp add: apply_delta_def apply_gas_def)

lemma debit_new_applies:
  assumes "debit w delta_new k amt = Ok d"
  shows "is_ok (apply_delta cd w d)"
proof -
  obtain b where b: "balance_of w k = Some b"
    using assms by (rule debit_Ok_balance)
  have "effective_signed_balance w delta_new k = Ok (u256_to_signed_saturating b)"
    using effective_signed_balance_eq [OF b, of delta_new] by simp
  with assms have "d = push_token (BalanceDelta k (- u256_to_signed_saturating amt)) delta_new"
    "min (uint amt) i256_max \<le> min (uint b) i256_max"
    by (auto simp: debit_eq sint_u256_to_signed split: if_splits)
  then show ?thesis
    using apply_debit_change [OF b, of amt] by (simp add: apply_delta_one_change)
qed

lemma erc20_changes_apply:
  assumes "is_erc20_key k"
  shows "is_ok (apply_token_change w (ApprovalSet k sp al))"
    "is_ok (apply_token_change w (ApprovalRevoke k sp Scope_Erc20))"
    "is_ok (apply_token_change w (ApprovalRevoke k sp Scope_Permit2))"
  using assms by (auto simp: is_ok_def apply_one_change elim!: is_erc20_key_cases)

lemma operator_changes_apply:
  "is_ok (apply_token_change w (ApprovalSet (TK_Erc721 c a i) sp al))"
  "is_ok (apply_token_change w (ApprovalRevoke (TK_Erc721 c a i) sp Scope_SetForAll))"
  by (auto simp: is_ok_def apply_one_change)

text \<open>Concrete actions for the witnesses.\<close>

definition sample_ctx :: eval_context where
  "sample_ctx = eval_context_new ethereum_mainnet (Time 100) Transaction"

definition sample_transfer :: token_action where
  "sample_transfer = Erc20Transfer
     \<lparr>et_token = TokenRef usdc_key, et_recipient = 0xE0, et_amount = 400, et_is_router_egress = False\<rparr>"

definition sample_approve :: token_action where
  "sample_approve = Erc20Approve \<lparr>ea_token = TokenRef usdc_key, ea_spender = 0xD0, ea_amount = 77\<rparr>"

section \<open>Properties\<close>

text \<open>
  C32. Every delta a token reducer returns can be applied to the wallet it was computed from, the
  three actions on a single ERC-721 token apart: signatures, approvals, revocations and
  transfers of fungible tokens never produce a delta that \<open>apply_delta\<close> refuses.
\<close>

theorem token_action_applies:
  assumes "apply_token_action a w ctx = Ok d" and "\<not> single_nft a"
  shows "\<exists>w'. apply_delta cd w d = Ok w'"
proof -
  have "is_ok (apply_delta cd w d)"
  proof (cases "moves_funds a")
    case True
    with assms have "d = delta_new \<or> (\<exists>k amt. debit w delta_new k amt = Ok d)"
      by (cases a)
        (auto simp: moves_funds_def single_nft_def token_reducer_defs transfer_def transfer_nft_def bind_result_eq_Ok
          split: if_splits token_key.splits)
    then show ?thesis
      using debit_new_applies by (auto simp: is_ok_def)
  next
    case False
    with assms show ?thesis
      by (cases a)
        (auto simp: moves_funds_def single_nft_def token_reducer_defs approval_helper_defs Let_def split_beta
          apply_delta_one_change erc20_changes_apply operator_changes_apply is_ok_def [of "Ok _"]
          split: if_splits token_key.splits revoke_scope.splits
          simp del: apply_token_change.simps)
  qed
  then show ?thesis
    by (auto simp: is_ok_def split: sum.splits)
qed

theorem token_action_applies_witness:
  "\<exists>d w'. apply_token_action sample_transfer sample_wallet sample_ctx = Ok d \<and> \<not> single_nft sample_transfer \<and>
     apply_delta sample_codec sample_wallet d = Ok w'"
proof -
  have "is_ok (apply_token_action sample_transfer sample_wallet sample_ctx)"
    by code_simp
  then obtain d where d: "apply_token_action sample_transfer sample_wallet sample_ctx = Ok d"
    by (auto simp: is_ok_def split: sum.splits)
  have "\<not> single_nft sample_transfer"
    by (simp add: sample_transfer_def single_nft_def)
  with d token_action_applies [OF d this, of sample_codec] show ?thesis
    by blast
qed

text \<open>
  Signing a permit, approving and revoking move no funds: applying the delta of a token action
  that is not a transfer leaves every fungible balance of the wallet as it was.
\<close>

lemma non_transfer_keeps_balances:
  assumes "apply_token_action a w ctx = Ok d" and "\<not> moves_funds a" and "apply_delta cd w d = Ok w'"
  shows "balance_of w' k = balance_of w k"
proof -
  have "gas_paid d = None"
    using assms(1) by (rule token_action_shape) auto
  with assms(3) obtain w1 where w1: "try_fold apply_token_change w (token_changes d) = Ok w1" "token_part w' = token_part w1"
    by (rule apply_delta_no_gas_parts)
  from assms(1,2) have "balance_of w1 k = balance_of w k"
    by (rule approval_action_shape) (use w1(1) balance_neutral_change in \<open>auto simp: bind_result_eq_Ok\<close>)
  then show ?thesis
    using balance_of_token_part [OF w1(2)] by simp
qed

text \<open>
  Approving an ERC-20 token sets exactly one allowance: after the delta is applied the spender's
  allowance is the approved amount (unlimited exactly at the largest amount), every other
  allowance, all operators and Permit2 entries, holdings, positions and pending entries are unchanged.
\<close>

lemma erc20_approve_exact:
  "\<exists>d w'. apply_token_action (Erc20Approve \<lparr>ea_token = TokenRef (TK_Erc20 c addr), ea_spender = sp, ea_amount = amt\<rparr>) w ctx = Ok d \<and>
     apply_delta cd w d = Ok w' \<and>
     (\<forall>ck s. allowance (ws_approvals w') ck s =
        (if ck = (c, addr) \<and> s = sp
         then Some \<lparr>al_amount = amt, al_is_unlimited = (amt = u256_max), al_last_set_at = ec_now ctx\<rparr>
         else allowance (ws_approvals w) ck s)) \<and>
     ap_set_for_all (ws_approvals w') = ap_set_for_all (ws_approvals w) \<and>
     ap_permit2 (ws_approvals w') = ap_permit2 (ws_approvals w) \<and> w' = w\<lparr>ws_approvals := ws_approvals w'\<rparr>"
  by (simp add: token_reducer_defs approval_helper_defs Let_def allowance_built apply_one_change allowance_add_allowance)
    (simp add: allowance_new_def)

text \<open>
  Revoking an ERC-20 approval removes exactly that spender's allowance on that token and leaves
  every other allowance, operator, Permit2 entry and the rest of the wallet unchanged.
\<close>

lemma revoke_erc20_exact:
  "\<exists>d w'. apply_token_action (RevokeApproval (RevokeApprovalAction (Revoke_Erc20 (TokenRef (TK_Erc20 c addr)) sp))) w ctx = Ok d \<and>
     apply_delta cd w d = Ok w' \<and>
     (\<forall>ck s. allowance (ws_approvals w') ck s =
        (if ck = (c, addr) \<and> s = sp then None else allowance (ws_approvals w) ck s)) \<and>
     ap_set_for_all (ws_approvals w') = ap_set_for_all (ws_approvals w) \<and>
     ap_permit2 (ws_approvals w') = ap_permit2 (ws_approvals w) \<and> w' = w\<lparr>ws_approvals := ws_approvals w'\<rparr>"
  by (simp add: token_reducer_defs approval_helper_defs apply_one_change allowance_remove_allowance)

text \<open>
  \<open>setApprovalForAll\<close> switches exactly one operator of one collection on or off, whatever
  token id the placeholder key carries.
\<close>

lemma set_for_all_exact:
  "\<exists>d w'. apply_token_action (NftSetApprovalForAll \<lparr>ns_chain = c, ns_contract = addr, ns_spender = sp, ns_approved = on\<rparr>) w ctx = Ok d \<and>
     apply_delta cd w d = Ok w' \<and>
     (\<forall>ck s. has_set_for_all (ws_approvals w') ck s \<longleftrightarrow>
        (if ck = (c, addr) \<and> s = sp then on else has_set_for_all (ws_approvals w) ck s)) \<and>
     ap_erc20 (ws_approvals w') = ap_erc20 (ws_approvals w) \<and> w' = w\<lparr>ws_approvals := ws_approvals w'\<rparr>"
  by (cases on)
    (auto simp: token_reducer_defs approval_helper_defs Let_def apply_one_change
      has_set_for_all_add_operator has_set_for_all_remove_operator)

text \<open>
  A Permit2 \<open>approve\<close> ends up as a plain ERC-20 allowance: the Permit2 map does not change, the
  expiry is recorded as the time the allowance was set, and a later Permit2 lockdown of that
  spender leaves the allowance in place.
\<close>

lemma permit2_approve_is_erc20_allowance:
  "\<exists>d w1 d' w2. apply_token_action (Permit2Approve \<lparr>pa_token = TokenRef (TK_Erc20 c addr), pa_spender = sp,
       pa_amount = amt, pa_expires_at = t\<rparr>) w ctx = Ok d \<and> apply_delta cd w d = Ok w1 \<and>
     ap_permit2 (ws_approvals w1) = ap_permit2 (ws_approvals w) \<and>
     apply_token_action (RevokeApproval (RevokeApprovalAction (Revoke_Permit2Lockdown (TokenRef (TK_Erc20 c addr)) sp))) w1 ctx = Ok d' \<and>
     apply_delta cd w1 d' = Ok w2 \<and>
     allowance (ws_approvals w2) (c, addr) sp = Some \<lparr>al_amount = amt, al_is_unlimited = (amt = u256_max), al_last_set_at = t\<rparr>"
  by (simp add: token_reducer_defs approval_helper_defs Let_def apply_one_change)
    (simp add: allowance_def add_allowance_def)

text \<open>Two texts with equal-length heads before the same separator.\<close>

lemma hex_sep_eq: "hex_address a @ xs = hex_address b @ ys \<longleftrightarrow> a = b \<and> xs = ys"
  by (auto simp: append_eq_append_conv)

text \<open>
  The id of a signed permit determines what was signed: two EIP-2612 ids, two Permit2 ids or two
  Permit2 transfer ids are equal exactly when their token contract, addresses and nonce are.
\<close>

lemma permit_ids_injective:
  fixes n n' :: u256
  shows "(pending_id_for_eip2612 (hex_address t) (hex_address s) (dec_word n) =
      pending_id_for_eip2612 (hex_address t') (hex_address s') (dec_word n') \<longleftrightarrow> t = t' \<and> s = s' \<and> n = n') \<and>
    (pending_id_for_permit2 (hex_address t) (hex_address s) (dec_word n) b =
      pending_id_for_permit2 (hex_address t') (hex_address s') (dec_word n') b' \<longleftrightarrow> t = t' \<and> s = s' \<and> n = n' \<and> b = b') \<and>
    (pending_id_for_permit2_transfer (hex_address t) (hex_address r) (hex_address s) (dec_word n) b =
      pending_id_for_permit2_transfer (hex_address t') (hex_address r') (hex_address s') (dec_word n') b' \<longleftrightarrow>
      t = t' \<and> r = r' \<and> s = s' \<and> n = n' \<and> b = b')"
  by (auto simp: pending_id_for_eip2612_def pending_id_for_permit2_def pending_id_for_permit2_transfer_def
      hex_sep_eq append_sep_eq)

text \<open>
  The id of an EIP-2612 permit does not name the chain: permits for one token address on two
  chains get one id although they differ, and removing the entry of one removes both.
\<close>

lemma permit_ids_ignore_chain:
  "\<exists>p1 p2. apply_token_action (Erc20Permit \<lparr>ep_token = TokenRef (TK_Erc20 ethereum_mainnet addr), ep_spender = sp,
       ep_amount = amt, ep_deadline = t, ep_nonce = n\<rparr>) w ctx = Ok (push_pending (PendingAdd p1) delta_new) \<and>
     apply_token_action (Erc20Permit \<lparr>ep_token = TokenRef (TK_Erc20 arbitrum addr), ep_spender = sp,
       ep_amount = amt, ep_deadline = t, ep_nonce = n\<rparr>) w ctx = Ok (push_pending (PendingAdd p2) delta_new) \<and>
     p1 \<noteq> p2 \<and>
     apply_delta cd (w\<lparr>ws_pending := [p1, p2]\<rparr>) (StateDelta [] [] [PendingRemove (ptx_id p1) RR_Filled] None) =
       Ok (w\<lparr>ws_pending := []\<rparr>)"
  by (simp add: apply_erc20_permit_def Let_def apply_delta_def apply_gas_def push_pending_def ethereum_mainnet_def arbitrum_def)

end
