(* ===== verification/Rust_Decimal.thy ===== *)
theory Rust_Decimal
  imports Reducer_Base
begin

text \<open>
  The numbers of other crates the reducers compute with: \<open>rust_decimal::Decimal\<close> and the parsers and
  printers of \<open>U256\<close> and \<open>SignedI256\<close>. They are parameters of the model; the helpers here are those
  of \<open>helpers/derived.rs\<close> that convert to and from the texts of the wallet state.
\<close>

section \<open>Interfaces\<close>

text \<open>
  The operations of \<open>rust_decimal::Decimal\<close> the code calls; \<open>rd_normalized\<close> is \<open>normalize().to_string()\<close>
  and \<open>rd_new m s\<close> is \<open>Decimal::new\<close> with mantissa \<open>m\<close> and scale \<open>s\<close>. Results outside its 96-bit range
  panic there; the model is of runs without such a panic.
\<close>

record 'n rust_decimal =
  rd_from_str :: "string \<Rightarrow> 'n option"
  rd_from_radix_10 :: "string \<Rightarrow> 'n option"
  rd_from_u32 :: "u32 \<Rightarrow> 'n"
  rd_new :: "int \<Rightarrow> nat \<Rightarrow> 'n"
  rd_sub :: "'n \<Rightarrow> 'n \<Rightarrow> 'n"
  rd_add :: "'n \<Rightarrow> 'n \<Rightarrow> 'n"
  rd_mul :: "'n \<Rightarrow> 'n \<Rightarrow> 'n"
  rd_div :: "'n \<Rightarrow> 'n \<Rightarrow> 'n"
  rd_less :: "'n \<Rightarrow> 'n \<Rightarrow> bool"
  rd_is_zero :: "'n \<Rightarrow> bool"
  rd_is_sign_negative :: "'n \<Rightarrow> bool"
  rd_trunc :: "'n \<Rightarrow> 'n"
  rd_round :: "'n \<Rightarrow> 'n"
  rd_to_u32 :: "'n \<Rightarrow> u32 option"
  rd_to_string :: "'n \<Rightarrow> string"
  rd_normalized :: "'n \<Rightarrow> string"

text \<open>\<open><U256 as FromStr>::from_str\<close>, \<open>U256::from_str_radix(_, 10)\<close> and \<open>SignedI256::from_dec_str\<close>.\<close>

record int_parsers =
  ip_u256_from_str :: "string \<Rightarrow> u256 option"
  ip_u256_from_radix_10 :: "string \<Rightarrow> u256 option"
  ip_i256_from_dec_str :: "string \<Rightarrow> i256 option"

text \<open>\<open>to_string\<close>, \<open>unsigned_abs\<close> and the checked operations of \<open>SignedI256\<close>.\<close>

definition i256_to_string :: "i256 \<Rightarrow> string" where
  "i256_to_string x = (if sint x < 0 then CHR ''-'' # dec_string (nat (- sint x)) else dec_string (nat (sint x)))"

definition unsigned_abs :: "i256 \<Rightarrow> u256" where
  "unsigned_abs x = (if sint x < 0 then - x else x)"

definition is_positive :: "i256 \<Rightarrow> bool" where
  "is_positive x \<longleftrightarrow> 0 < sint x"

definition i256_of_int :: "int \<Rightarrow> i256 option" where
  "i256_of_int i = (if i256_min \<le> i \<and> i \<le> i256_max then Some (word_of_int i) else None)"

definition checked_add_i :: "i256 \<Rightarrow> i256 \<Rightarrow> i256 option" where
  "checked_add_i a b = i256_of_int (sint a + sint b)"

definition checked_sub_i :: "i256 \<Rightarrow> i256 \<Rightarrow> i256 option" where
  "checked_sub_i a b = i256_of_int (sint a - sint b)"

section \<open>Conversions\<close>

definition decimal_zero :: decimal where
  "decimal_zero = Decimal ''0''"

definition derived_parse_decimal :: "'n rust_decimal \<Rightarrow> decimal \<Rightarrow> 'n reducer_result" where
  "derived_parse_decimal rd d = ok_or (Invariant (BadDecimal (decimal_str d))) (rd_from_str rd (decimal_str d))"

definition u256_to_decimal :: "'n rust_decimal \<Rightarrow> u256 \<Rightarrow> 'n reducer_result" where
  "u256_to_decimal rd amount =
     (let s = dec_word amount in ok_or (Invariant (DecimalRange s)) (rd_from_str rd s))"

definition decimal_to_state :: "'n rust_decimal \<Rightarrow> 'n \<Rightarrow> decimal" where
  "decimal_to_state rd d = Decimal (rd_normalized rd d)"

section \<open>Laws\<close>

text \<open>
  What the code relies on from \<open>rust_decimal\<close>, where \<open>val\<close> reads the number a value stands for. A decimal is a signed
  96-bit integer over a power of ten up to \<open>10 ^ 28\<close>; sums and differences are exact when such a decimal is the
  result, and rounded or out of range otherwise. Comparison is that of the numbers, a value below zero has a negative
  sign (zero may have one too), and the normalized text of a non-negative value reads back to the same number.
\<close>

definition representable :: "rat \<Rightarrow> bool" where
  "representable x \<longleftrightarrow> (\<exists>m s. \<bar>m\<bar> < (2 :: int) ^ 96 \<and> s \<le> (28 :: nat) \<and> x = of_int m / 10 ^ s)"

definition ordered_decimal :: "'n rust_decimal \<Rightarrow> ('n \<Rightarrow> rat) \<Rightarrow> bool" where
  "ordered_decimal rd val \<longleftrightarrow>
     (\<forall>n. val (rd_from_u32 rd n) = of_nat (unat n)) \<and> (\<forall>a b. rd_less rd a b \<longleftrightarrow> val a < val b)"

definition lawful_decimal :: "'n rust_decimal \<Rightarrow> ('n \<Rightarrow> rat) \<Rightarrow> bool" where
  "lawful_decimal rd val \<longleftrightarrow>
     ordered_decimal rd val \<and>
     (\<forall>a b. representable (val a - val b) \<longrightarrow> val (rd_sub rd a b) = val a - val b) \<and>
     (\<forall>a b. representable (val a + val b) \<longrightarrow> val (rd_add rd a b) = val a + val b) \<and>
     (\<forall>a. val a < 0 \<longrightarrow> rd_is_sign_negative rd a) \<and>
     (\<forall>a. 0 \<le> val a \<longrightarrow> map_option val (rd_from_str rd (rd_normalized rd a)) = Some (val a))"

definition dec_val :: "'n rust_decimal \<Rightarrow> ('n \<Rightarrow> rat) \<Rightarrow> decimal \<Rightarrow> rat option" where
  "dec_val rd val d = map_option val (rd_from_str rd (decimal_str d))"

lemma ordered_decimal_laws:
  assumes "ordered_decimal rd val"
  shows "val (rd_from_u32 rd n) = of_nat (unat n)" "rd_less rd a b \<longleftrightarrow> val a < val b"
  using assms by (simp_all add: ordered_decimal_def)

lemma lawful_decimal_laws:
  assumes "lawful_decimal rd val"
  shows "representable (val a - val b) \<Longrightarrow> val (rd_sub rd a b) = val a - val b"
    "representable (val a + val b) \<Longrightarrow> val (rd_add rd a b) = val a + val b"
    "\<not> rd_is_sign_negative rd a \<Longrightarrow> 0 \<le> val a"
    "0 \<le> val a \<Longrightarrow> dec_val rd val (Decimal (rd_normalized rd a)) = Some (val a)"
  using assms by (auto simp: lawful_decimal_def dec_val_def not_less [symmetric])

lemma representable_int: "\<bar>i\<bar> < 2 ^ 96 \<Longrightarrow> representable (of_int i)"
  unfolding representable_def by (intro exI [of _ i] exI [of _ 0]) simp

lemma derived_parse_decimal_val: "derived_parse_decimal rd d = Ok n \<Longrightarrow> dec_val rd val d = Some (val n)"
  by (auto simp: derived_parse_decimal_def dec_val_def ok_or_def split: option.splits)

text \<open>The parsers read the decimal texts the integer types print.\<close>

definition exact_parsers :: "int_parsers \<Rightarrow> bool" where
  "exact_parsers ip \<longleftrightarrow>
     (\<forall>a. ip_u256_from_radix_10 ip (dec_word a) = Some a) \<and>
     (\<forall>a. ip_i256_from_dec_str ip (i256_to_string a) = Some a)"

lemma exact_parsers_laws:
  assumes "exact_parsers ip"
  shows "ip_u256_from_radix_10 ip (dec_word a) = Some a" "ip_i256_from_dec_str ip (i256_to_string i) = Some i"
  using assms by (simp_all add: exact_parsers_def)

lemma i256_of_int_Some: "i256_of_int i = Some x \<Longrightarrow> sint x = i"
  using sint_i256_sat [of i] by (auto simp: i256_of_int_def i256_sat_def clamp_i256_def split: if_splits)

lemma checked_i_Some:
  "checked_add_i a b = Some c \<Longrightarrow> sint c = sint a + sint b"
  "checked_sub_i a b = Some c \<Longrightarrow> sint c = sint a - sint b"
  by (simp_all add: checked_add_i_def checked_sub_i_def i256_of_int_Some)

lemma len256: "LENGTH(256) = 256"
  by simp

lemma uint_unsigned_abs: "uint (unsigned_abs x) = \<bar>sint x\<bar>"
proof (cases "sint x < 0")
  case True
  have "- x = word_of_int (- sint x)"
    by simp
  then have "uint (- x) = - sint x mod 2 ^ 256"
    by (simp only: uint_word_of_int len256)
  moreover have "- sint x < 2 ^ 256"
    using sint_i256_bounds(1) [of x] by (simp add: i256_min_def)
  ultimately show ?thesis
    using True by (simp add: unsigned_abs_def)
next
  case False
  then show ?thesis
    by (simp add: unsigned_abs_def uint_eq_sint_nonneg)
qed

section \<open>An instance\<close>

text \<open>Integers as decimals, with division rounding down, for the witnesses.\<close>

definition read_nat :: "string \<Rightarrow> nat option" where
  "read_nat s = (if s \<noteq> [] \<and> list_all is_ascii_digit s then Some (undigits 10 s) else None)"

definition read_int :: "string \<Rightarrow> int option" where
  "read_int s = 
     (if s \<noteq> [] \<and> hd s = CHR ''-'' then map_option (\<lambda>n. - int n) (read_nat (tl s)) else map_option int (read_nat s))"

definition show_int :: "int \<Rightarrow> string" where
  "show_int n = (if n < 0 then CHR ''-'' # dec_string (nat (- n)) else dec_string (nat n))"

definition int_decimal :: "int rust_decimal" where
  "int_decimal = \<lparr>rd_from_str = read_int, rd_from_radix_10 = read_int, rd_from_u32 = uint,
     rd_new = (\<lambda>m s. m div 10 ^ s), rd_sub = (-), rd_add = (+), rd_mul = (*), rd_div = (div), rd_less = (<),
     rd_is_zero = (\<lambda>n. n = 0), rd_is_sign_negative = (\<lambda>n. n < 0), rd_trunc = (\<lambda>n. n), rd_round = (\<lambda>n. n),
     rd_to_u32 = (\<lambda>n. if 0 \<le> n \<and> n < 2 ^ 32 then Some (word_of_int n) else None),
     rd_to_string = show_int, rd_normalized = show_int\<rparr>"

definition dec_parsers :: int_parsers where
  "dec_parsers = \<lparr>ip_u256_from_str = (\<lambda>s. map_option of_nat (read_nat s)),
     ip_u256_from_radix_10 = (\<lambda>s. map_option of_nat (read_nat s)),
     ip_i256_from_dec_str = (\<lambda>s. Option.bind (read_int s) i256_of_int)\<rparr>"

lemma read_nat_dec_string [simp]: "read_nat (dec_string n) = Some n"
  using dec_string_digits [of n] by (simp add: read_nat_def list_all_iff undigits_dec_string)

lemma dash_no_digit: "\<not> is_ascii_digit (CHR ''-'')"
  by (simp add: is_ascii_digit_def)

lemma dec_string_no_dash: "hd (dec_string n) \<noteq> CHR ''-''"
  using dec_string_digits [of n] dash_no_digit by (metis dec_string_not_Nil list.set_sel(1))

lemma read_int_show_int [simp]: "read_int (show_int n) = Some n"
proof (cases "n < 0")
  case True
  then show ?thesis
    by (simp add: read_int_def show_int_def)
next
  case False
  then show ?thesis
    by (simp add: read_int_def show_int_def dec_string_no_dash)
qed

lemma int_decimal_ordered: "ordered_decimal int_decimal of_int"
  by (simp add: ordered_decimal_def int_decimal_def)

lemma int_decimal_lawful: "lawful_decimal int_decimal of_int"
  by (simp add: lawful_decimal_def int_decimal_ordered) (simp add: int_decimal_def)

lemma dec_parsers_exact: "exact_parsers dec_parsers"
proof -
  have "i256_of_int (sint a) = Some a" for a :: i256
    by (simp add: i256_of_int_def)
  then show ?thesis
    by (simp add: exact_parsers_def dec_parsers_def dec_word_def i256_to_string_def flip: show_int_def)
qed

end
