(* ===== verification/Hyperliquid_Effect.thy ===== *)
theory Hyperliquid_Effect
  imports Position_Helpers Token_Effect Rust_Decimal
begin

text \<open>
  Hyperliquid CORE reducers (\<open>asset-model/transition/src/effect/hyperliquid_core\<close>): withdrawals and
  USDC sends are recorded as outflows of the wallet's Hyperliquid account position; the other
  actions leave the wallet alone. Decimal arithmetic is the \<open>rust_decimal\<close> crate's.
\<close>

section \<open>Operations\<close>

record hl_withdraw_action =
  hw_destination :: address
  hw_amount :: decimal

record hl_usd_send_action =
  hu_destination :: address
  hu_amount :: decimal

text \<open>The fields of the other variants are read by no reducer.\<close>

datatype hl_core_action =
    HL_CoreLimitOrder
  | HL_Withdraw hl_withdraw_action
  | HL_UsdSend hl_usd_send_action
  | HL_SpotSend
  | HL_UsdClassTransfer
  | HL_SendAsset
  | HL_SendToEvmWithData
  | HL_CDeposit
  | HL_CWithdraw
  | HL_VaultTransfer
  | HL_SubAccountTransfer
  | HL_TokenDelegate
  | HL_Unknown

fun hl_action_tag :: "hl_core_action \<Rightarrow> string" where
  "hl_action_tag HL_CoreLimitOrder = ''hl_core_limit_order''"
| "hl_action_tag (HL_Withdraw _) = ''hl_withdraw''"
| "hl_action_tag (HL_UsdSend _) = ''hl_usd_send''"
| "hl_action_tag HL_SpotSend = ''hl_spot_send''"
| "hl_action_tag HL_UsdClassTransfer = ''hl_usd_class_transfer''"
| "hl_action_tag HL_SendAsset = ''hl_send_asset''"
| "hl_action_tag HL_SendToEvmWithData = ''hl_send_to_evm_with_data''"
| "hl_action_tag HL_CDeposit = ''hl_c_deposit''"
| "hl_action_tag HL_CWithdraw = ''hl_c_withdraw''"
| "hl_action_tag HL_VaultTransfer = ''hl_vault_transfer''"
| "hl_action_tag HL_SubAccountTransfer = ''hl_sub_account_transfer''"
| "hl_action_tag HL_TokenDelegate = ''hl_token_delegate''"
| "hl_action_tag HL_Unknown = ''hl_unknown''"

definition HL_ACCOUNT_ID :: string where
  "HL_ACCOUNT_ID = ''hyperliquid/account''"

definition hl_protocol_ref :: protocol_ref where
  "hl_protocol_ref = protocol_ref_new ''hyperliquid''"

definition hl_position :: "hl_account \<Rightarrow> time \<Rightarrow> position" where
  "hl_position acct now =
     \<lparr>pos_id = HL_ACCOUNT_ID, pos_protocol = hl_protocol_ref, pos_chain = None,
      pos_kind = HyperliquidAccount acct, pos_primitives_synced_at = now, pos_primitives_source = UserSupplied\<rparr>"

fun find_hl :: "position list \<Rightarrow> hl_account option" where
  "find_hl [] = None"
| "find_hl (p # ps) =
     (case pos_kind p of
        HyperliquidAccount a \<Rightarrow> if pos_id p = HL_ACCOUNT_ID then Some a else find_hl ps
      | _ \<Rightarrow> find_hl ps)"

definition find_hl_account :: "wallet_state \<Rightarrow> hl_account option" where
  "find_hl_account w = find_hl (ws_positions w)"

definition parse_decimal :: "'n rust_decimal \<Rightarrow> decimal \<Rightarrow> 'n reducer_result" where
  "parse_decimal rd d = ok_or (Invariant (HlDecimalParse (decimal_str d))) (rd_from_str rd (decimal_str d))"

definition decimal_sub_nonneg :: "'n rust_decimal \<Rightarrow> decimal \<Rightarrow> decimal \<Rightarrow> decimal reducer_result" where
  "decimal_sub_nonneg rd lhs rhs =
     bind_result (parse_decimal rd lhs) (\<lambda>l.
     bind_result (parse_decimal rd rhs) (\<lambda>r.
       let out = rd_sub rd l r in
       if rd_is_sign_negative rd out then Err (Invariant (HlUnderflow lhs rhs))
       else Ok (Decimal (rd_normalized rd out))))"

definition decimal_nonneg :: "'n rust_decimal \<Rightarrow> decimal \<Rightarrow> decimal reducer_result" where
  "decimal_nonneg rd d =
     bind_result (parse_decimal rd d) (\<lambda>v.
       if rd_is_sign_negative rd v then Err (Invariant (HlNegativeAmount d))
       else Ok (Decimal (rd_normalized rd v)))"

definition decimal_add :: "'n rust_decimal \<Rightarrow> decimal \<Rightarrow> decimal \<Rightarrow> decimal reducer_result" where
  "decimal_add rd lhs rhs =
     bind_result (parse_decimal rd lhs) (\<lambda>l.
     bind_result (parse_decimal rd rhs) (\<lambda>r.
       Ok (Decimal (rd_normalized rd (rd_add rd l r)))))"

definition record_outflow :: "decimal option \<Rightarrow> decimal \<Rightarrow> position \<Rightarrow> position" where
  "record_outflow new_usdc new_outflow pos =
     (case pos_kind pos of
        HyperliquidAccount a \<Rightarrow>
          pos\<lparr>pos_kind := HyperliquidAccount (a\<lparr>hl_perp_usdc := new_usdc, hl_pending_outflow := new_outflow\<rparr>)\<rparr>
      | _ \<Rightarrow> pos)"

definition apply_outflow ::
  "'n rust_decimal \<Rightarrow> position_codec \<Rightarrow> decimal \<Rightarrow> wallet_state \<Rightarrow> eval_context \<Rightarrow> state_delta reducer_result" where
  "apply_outflow rd cd amount0 w ctx =
     bind_result (decimal_nonneg rd amount0) (\<lambda>amount.
       case find_hl_account w of
         Some base \<Rightarrow>
           bind_result (case hl_perp_usdc base of
               Some bal \<Rightarrow> bind_result (decimal_sub_nonneg rd bal amount) (\<lambda>x. Ok (Some x))
             | None \<Rightarrow> Ok None) (\<lambda>new_usdc.
           bind_result (decimal_add rd (hl_pending_outflow base) amount) (\<lambda>new_outflow.
             upsert_hl_account cd w delta_new HL_ACCOUNT_ID (record_outflow new_usdc new_outflow)))
       | None \<Rightarrow>
           open_position w delta_new
             (hl_position (hl_account_default\<lparr>hl_perp_usdc := None, hl_pending_outflow := amount\<rparr>) (ec_now ctx)))"

definition apply_hl_withdraw :: "'n rust_decimal \<Rightarrow> position_codec \<Rightarrow> hl_withdraw_action reducer" where
  "apply_hl_withdraw rd cd a w ctx = apply_outflow rd cd (hw_amount a) w ctx"

definition apply_hl_usd_send :: "'n rust_decimal \<Rightarrow> position_codec \<Rightarrow> hl_usd_send_action reducer" where
  "apply_hl_usd_send rd cd a w ctx = apply_outflow rd cd (hu_amount a) w ctx"

fun apply_hl_core :: "'n rust_decimal \<Rightarrow> position_codec \<Rightarrow> hl_core_action reducer" where
  "apply_hl_core rd cd (HL_Withdraw a) w ctx = apply_hl_withdraw rd cd a w ctx"
| "apply_hl_core rd cd (HL_UsdSend a) w ctx = apply_hl_usd_send rd cd a w ctx"
| "apply_hl_core rd cd _ w ctx = Ok delta_new"

section \<open>Lemmas\<close>

lemma parse_decimal_val:
  "parse_decimal rd d = Ok n \<Longrightarrow> dec_val rd val d = Some (val n)"
  by (auto simp: parse_decimal_def dec_val_def ok_or_def split: option.splits)

lemma decimal_nonneg_val:
  assumes "lawful_decimal rd val" and "decimal_nonneg rd d = Ok e"
  shows "\<exists>v\<ge>0. dec_val rd val d = Some v \<and> dec_val rd val e = Some v"
proof -
  from assms(2) obtain n where n: "parse_decimal rd d = Ok n" "\<not> rd_is_sign_negative rd n"
    "e = Decimal (rd_normalized rd n)"
    by (auto simp: decimal_nonneg_def bind_result_eq_Ok split: if_splits)
  with lawful_decimal_laws(3,4) [OF assms(1)] have "0 \<le> val n" "dec_val rd val e = Some (val n)"
    by simp_all
  with parse_decimal_val [OF n(1)] show ?thesis
    by blast
qed

lemma decimal_sub_nonneg_val:
  assumes "lawful_decimal rd val" and "decimal_sub_nonneg rd a b = Ok e"
    and "dec_val rd val a = Some x" and "dec_val rd val b = Some y" and "representable (x - y)"
  shows "y \<le> x" "dec_val rd val e = Some (x - y)"
proof -
  from assms(2) obtain l r where lr: "parse_decimal rd a = Ok l" "parse_decimal rd b = Ok r"
    "\<not> rd_is_sign_negative rd (rd_sub rd l r)" "e = Decimal (rd_normalized rd (rd_sub rd l r))"
    by (auto simp: decimal_sub_nonneg_def bind_result_eq_Ok Let_def split: if_splits)
  have xy: "x = val l" "y = val r"
    using parse_decimal_val [OF lr(1), of val] parse_decimal_val [OF lr(2), of val] assms(3,4) by simp_all
  then have sub: "val (rd_sub rd l r) = x - y"
    using lawful_decimal_laws(1) [OF assms(1)] assms(5) by simp
  then show "y \<le> x"
    using lawful_decimal_laws(3) [OF assms(1) lr(3)] by simp
  then show "dec_val rd val e = Some (x - y)"
    using lawful_decimal_laws(4) [OF assms(1), of "rd_sub rd l r"] lr(4) sub by simp
qed

lemma decimal_add_val:
  assumes "lawful_decimal rd val" and "decimal_add rd a b = Ok e"
    and "dec_val rd val a = Some x" and "dec_val rd val b = Some y" and "0 \<le> x + y" and "representable (x + y)"
  shows "dec_val rd val e = Some (x + y)"
proof -
  from assms(2) obtain l r where lr: "parse_decimal rd a = Ok l" "parse_decimal rd b = Ok r"
    "e = Decimal (rd_normalized rd (rd_add rd l r))"
    by (auto simp: decimal_add_def bind_result_eq_Ok)
  have "x = val l" "y = val r"
    using parse_decimal_val [OF lr(1), of val] parse_decimal_val [OF lr(2), of val] assms(3,4) by simp_all
  with assms(5,6) lr(3) lawful_decimal_laws(2,4) [OF assms(1)] show ?thesis
    by simp
qed

lemma find_hl_split:
  "find_hl ps = Some a \<Longrightarrow>
    \<exists>us p vs. ps = us @ p # vs \<and> pos_id p = HL_ACCOUNT_ID \<and> pos_kind p = HyperliquidAccount a"
proof (induction ps)
  case (Cons q ps)
  show ?case
  proof (cases "pos_kind q = HyperliquidAccount a \<and> pos_id q = HL_ACCOUNT_ID")
    case True
    then show ?thesis
      by (intro exI [of _ "[]"] exI [of _ q] exI [of _ ps]) simp
  next
    case False
    with Cons.prems have "find_hl ps = Some a"
      by (auto split: position_kind.splits if_splits)
    with Cons.IH obtain us p vs where
      "ps = us @ p # vs" "pos_id p = HL_ACCOUNT_ID" "pos_kind p = HyperliquidAccount a"
      by blast
    then show ?thesis
      by (intro exI [of _ "q # us"] exI [of _ p] exI [of _ vs]) simp
  qed
qed simp

lemma find_hl_skip: "\<forall>u\<in>set us. pos_id u \<noteq> HL_ACCOUNT_ID \<Longrightarrow> find_hl (us @ ps) = find_hl ps"
  by (induction us) (auto split: position_kind.splits)

lemma distinct_id_unique:
  assumes "distinct (map pos_id (us @ p # vs))" and "us @ p # vs = us' @ p' # vs'" and "pos_id p' = pos_id p"
  shows "p' = p \<and> us' = us \<and> vs' = vs"
proof -
  have ids: "map pos_id us @ pos_id p # map pos_id vs = map pos_id us' @ pos_id p # map pos_id vs'"
    using arg_cong [OF assms(2), of "map pos_id"] assms(3) by simp
  have "pos_id p \<notin> set (map pos_id us)" "pos_id p \<notin> set (map pos_id vs)"
    using assms(1) by auto
  then have "map pos_id us = map pos_id us' \<and> map pos_id vs = map pos_id vs'"
    using ids by (rule append_Cons_eq_iff [THEN iffD1])
  then have "length us = length us'"
    by (metis map_eq_imp_length_eq)
  then show ?thesis
    using assms(2) by simp
qed

lemma record_outflow_sel:
  "pos_id (record_outflow u q p) = pos_id p"
  "pos_kind p = HyperliquidAccount a \<Longrightarrow>
    pos_kind (record_outflow u q p) = HyperliquidAccount (a\<lparr>hl_perp_usdc := u, hl_pending_outflow := q\<rparr>)"
  by (auto simp: record_outflow_def split: position_kind.splits)

lemma upsert_outflow_applies:
  assumes "distinct (map pos_id (ws_positions w))"
    and "\<forall>p\<in>set (ws_positions w). codec_roundtrips cd (record_outflow u q p)"
    and "find_hl_account w = Some base"
    and "upsert_hl_account cd w delta_new HL_ACCOUNT_ID (record_outflow u q) = Ok d"
  shows "\<exists>w'. apply_delta cd w d = Ok w' \<and>
    find_hl_account w' = Some (base\<lparr>hl_perp_usdc := u, hl_pending_outflow := q\<rparr>)"
proof -
  from find_hl_split [of "ws_positions w" base] assms(3) obtain us p vs where p: "ws_positions w = us @ p # vs"
    "pos_id p = HL_ACCOUNT_ID" "pos_kind p = HyperliquidAccount base"
    by (auto simp: find_hl_account_def)
  have "\<exists>us p vs w2. ws_positions w = us @ p # vs \<and> pos_id p = HL_ACCOUNT_ID \<and>
      apply_delta cd w d = Ok w2 \<and> ws_positions w2 = us @ record_outflow u q p # vs"
    using assms by (intro upsert_applies [where d = delta_new]) (auto simp: no_update_for_def)
  then obtain us' p' vs' w' where w': "ws_positions w = us' @ p' # vs'" "pos_id p' = HL_ACCOUNT_ID"
    "apply_delta cd w d = Ok w'" "ws_positions w' = us' @ record_outflow u q p' # vs'"
    by blast
  have same: "p' = p \<and> us' = us \<and> vs' = vs"
    using assms(1) p(1,2) w'(1,2) by (intro distinct_id_unique) auto
  have "\<forall>x\<in>set us. pos_id x \<noteq> HL_ACCOUNT_ID"
    using assms(1) p(1,2) by (metis Un_iff disjoint_iff distinct_append image_eqI list.set_intros(1) list.set_map map_append)
  then have "find_hl (ws_positions w') = find_hl (record_outflow u q p # vs)"
    using w'(4) same by (simp only: find_hl_skip)
  then show ?thesis
    using w'(3) p(2,3) record_outflow_sel by (simp add: find_hl_account_def)
qed

text \<open>A codec for the account of a sample wallet, for the witness.\<close>

definition hl_account_of :: "decimal option \<Rightarrow> decimal \<Rightarrow> hl_account" where
  "hl_account_of u q = hl_account_default\<lparr>hl_perp_usdc := u, hl_pending_outflow := q\<rparr>"

definition hl_codec :: position_codec where
  "hl_codec = \<lparr>pc_to_value = (\<lambda>p. case pos_kind p of
       HyperliquidAccount a \<Rightarrow> Some (JArray [JArray (case hl_perp_usdc a of None \<Rightarrow> [] | Some u \<Rightarrow> [JString (decimal_str u)]),
         JString (decimal_str (hl_pending_outflow a))])
     | _ \<Rightarrow> None),
     pc_from_value = (\<lambda>j. case j of
       JArray [JArray [], JString q] \<Rightarrow> Some (hl_position (hl_account_of None (Decimal q)) (Time 0))
     | JArray [JArray [JString u], JString q] \<Rightarrow> Some (hl_position (hl_account_of (Some (Decimal u)) (Decimal q)) (Time 0))
     | _ \<Rightarrow> None)\<rparr>"

definition hl_wallet :: wallet_state where
  "hl_wallet = sample_wallet\<lparr>ws_positions := [hl_position (hl_account_of (Some (Decimal ''100'')) (Decimal ''7'')) (Time 0)]\<rparr>"

lemma record_outflow_hl_position: "record_outflow u q (hl_position (hl_account_of u' q') t) = hl_position (hl_account_of u q) t"
  by (simp add: record_outflow_def hl_position_def hl_account_of_def hl_account_default_def)

lemma hl_codec_roundtrips: "codec_roundtrips hl_codec (hl_position (hl_account_of u q) (Time 0))"
  by (cases u) (simp_all add: codec_roundtrips_def hl_codec_def hl_position_def hl_account_of_def)

section \<open>Properties\<close>



end
