(* ===== verification/Amm_Types.thy ===== *)
theory Amm_Types
  imports Token_Effect
begin

text \<open>
  Action payloads of the AMM domain (\<open>asset-model/action/src/amm\<close>): venues, pool snapshots, swap
  routes, liquidity operations and signed intent orders, with the tags policy triggers match on.
\<close>

section \<open>Venues and pool snapshots\<close>

datatype balancer_pool_type =
  BPT_Weighted | BPT_Stable | BPT_ComposableStable | BPT_MetaStable | BPT_LiquidityBootstrapping | BPT_Linear

datatype amm_venue =
    UniswapV2 chain_id address address
  | UniswapV3 chain_id address u32
  | UniswapV4 chain_id string address address
  | SushiV2 chain_id address
  | CurveV1 chain_id address u8 bool
  | CurveV2 chain_id address
  | BalancerV2 chain_id address string balancer_pool_type
  | BalancerV3 chain_id string balancer_pool_type
  | TraderJoeLB chain_id address "16 word"
  | MaverickV2 chain_id address
  | AaveGsm chain_id address
  | AggregatorRoute chain_id address string "address option"

fun venue_name :: "amm_venue \<Rightarrow> string" where
  "venue_name (UniswapV2 _ _ _) = ''uniswap_v2''"
| "venue_name (UniswapV3 _ _ _) = ''uniswap_v3''"
| "venue_name (UniswapV4 _ _ _ _) = ''uniswap_v4''"
| "venue_name (SushiV2 _ _) = ''sushi_v2''"
| "venue_name (CurveV1 _ _ _ _) = ''curve_v1''"
| "venue_name (CurveV2 _ _) = ''curve_v2''"
| "venue_name (BalancerV2 _ _ _ _) = ''balancer_v2''"
| "venue_name (BalancerV3 _ _ _) = ''balancer_v3''"
| "venue_name (TraderJoeLB _ _ _) = ''trader_joe_l_b''"
| "venue_name (MaverickV2 _ _) = ''maverick_v2''"
| "venue_name (AaveGsm _ _) = ''aave_gsm''"
| "venue_name (AggregatorRoute _ _ _ _) = ''aggregator_route''"

record tick_snapshot =
  ts_tick :: i32
  ts_liquidity_net :: string

record bin_state =
  bin_id :: u32
  bin_reserve_in :: u256
  bin_reserve_out :: u256

datatype pool_state =
    XyConstant u256 u256 u32
  | ConcentratedState u256 i32 u128 "tick_snapshot list"
  | StableV1 "u256 list" u32 u32
  | Cryptoswap "u256 list" "u256 list" u256 u32
  | WeightedState "u256 list" "u64 list" u32
  | StableState "u256 list" u32 u32
  | LiquidityBook u32 "bin_state list" u32
  | MaverickState string json
  | CustomState string json

section \<open>Swaps\<close>

datatype swap_direction =
    ExactInput u256 u256
  | ExactOutput u256 u256

record swap_params =
  sp_token_in :: token_ref
  sp_token_out :: "token_ref option"
  sp_direction :: swap_direction
  sp_recipient :: address
  sp_slippage_bp :: u32

record route_hop =
  rh_token_in :: token_ref
  rh_token_out :: token_ref
  rh_venue :: amm_venue
  rh_pool_state :: pool_state
  rh_effective_fee_bp :: u32
  rh_estimated_out :: u256

record route_path =
  rp_share_bp :: u32
  rp_hops :: "route_hop list"
  rp_estimated_out :: u256

datatype aggregator_kind =
    OneInchV5 | OneInchV6 | ZeroExV2 | ParaswapV5 | ParaswapV6 | KyberswapV2 | Odos | OkxAggregator
  | UniswapUniversalRouter | CowSwapSolver
  | CustomAggregator string

record aggregator_meta =
  ag_aggregator :: aggregator_kind
  ag_router :: address
  ag_executor :: "address option"
  ag_raw_calldata_hash :: string
  ag_permit_bundled :: bool
  ag_referrer :: "address option"
  ag_referrer_fee_bp :: u32

record swap_route =
  sr_paths :: "route_path list"
  sr_aggregator :: "aggregator_meta option"

record swap_live_inputs =
  sl_route :: "swap_route live_field"
  sl_expected_amount_out :: "u256 live_field"
  sl_price_impact_bp :: "u32 live_field"
  sl_gas_estimate :: "u256 live_field"

record swap_action =
  sw_venue :: amm_venue
  sw_params :: swap_params
  sw_live_inputs :: swap_live_inputs

datatype gsm_swap_side = BuyAsset | SellAsset

record gsm_swap_action =
  gsm_venue :: amm_venue
  gsm_asset :: token_ref
  gsm_gho :: token_ref
  gsm_side :: gsm_swap_side
  gsm_amount :: u256
  gsm_recipient :: address

section \<open>Liquidity\<close>

datatype add_liquidity_params =
    PooledDeposit "(token_ref \<times> u256) list" u256 address
  | ConcentratedMint "token_ref \<times> token_ref" "u256 \<times> u256" "u256 \<times> u256" range_spec address
  | ConcentratedIncrease token_key "u256 \<times> u256" "u256 \<times> u256"

record add_liquidity_live_inputs =
  all_pool_state :: "pool_state live_field"
  all_current_price :: "price live_field"

record add_liquidity_action =
  al_venue :: amm_venue
  al_params :: add_liquidity_params
  al_live_inputs :: add_liquidity_live_inputs

datatype remove_liquidity_params =
    PooledBurn token_ref u256 "(token_ref \<times> u256) list" address
  | ConcentratedDecrease token_key u128 "u256 \<times> u256"
  | ConcentratedBurn token_key
  | PooledBurnOneCoin token_ref u256 token_ref u256 address
  | PooledBurnImbalance token_ref u256 "(token_ref \<times> u256) list" address

record remove_liquidity_live_inputs =
  rll_pool_state :: "pool_state live_field"
  rll_fees_owed :: "(token_ref \<times> u256) list live_field"

record remove_liquidity_action =
  rl_venue :: amm_venue
  rl_params :: remove_liquidity_params
  rl_live_inputs :: remove_liquidity_live_inputs

record collect_fees_action =
  cf_venue :: amm_venue
  cf_nft_key :: token_key
  cf_recipient :: address
  cf_fees_owed :: "(token_ref \<times> u256) list live_field"

section \<open>Intent orders\<close>

datatype intent_venue =
    UniswapX chain_id address
  | CowSwap chain_id address
  | OneInchFusion chain_id
  | Bebop chain_id
  | OneInchLimitOrder chain_id address

fun intent_venue_name :: "intent_venue \<Rightarrow> string" where
  "intent_venue_name (UniswapX _ _) = ''uniswap_x''"
| "intent_venue_name (CowSwap _ _) = ''cow_swap''"
| "intent_venue_name (OneInchFusion _) = ''one_inch_fusion''"
| "intent_venue_name (Bebop _) = ''bebop''"
| "intent_venue_name (OneInchLimitOrder _ _) = ''one_inch_limit_order''"

datatype intent_order_kind = IntentDutch | IntentLimit | IntentRfq

record sign_intent_order_action =
  si_venue :: intent_venue
  si_sell :: token_ref
  si_buy :: token_ref
  si_sell_amount :: u256
  si_buy_min :: u256
  si_order_kind :: intent_order_kind
  si_recipient :: address
  si_valid_until :: time
  si_expected_fill_price :: "price live_field"
  si_competing_orders :: "u32 live_field"

record settle_intent_order_action =
  se_venue :: intent_venue
  se_swapper :: address
  se_sell :: token_ref
  se_buy :: token_ref
  se_sell_amount :: u256
  se_buy_min :: u256
  se_order_kind :: intent_order_kind
  se_recipient :: address
  se_valid_until :: time
  se_order_nonce :: u256
  se_signature :: "u8 list option"

record cancel_intent_order_action =
  ci_venue :: intent_venue
  ci_order_hash :: string
  ci_signature :: "u8 list option"

record pre_sign_intent_order_action =
  ps_venue :: intent_venue
  ps_order_hash :: string
  ps_signed :: bool

section \<open>Actions\<close>

datatype amm_action =
    Swap swap_action
  | GsmSwap gsm_swap_action
  | AddLiquidity add_liquidity_action
  | RemoveLiquidity remove_liquidity_action
  | CollectFees collect_fees_action
  | SignIntentOrder sign_intent_order_action
  | SettleIntentOrder settle_intent_order_action
  | CancelIntentOrder cancel_intent_order_action
  | PreSignIntentOrder pre_sign_intent_order_action

fun amm_action_tag :: "amm_action \<Rightarrow> string" where
  "amm_action_tag (Swap _) = ''swap''"
| "amm_action_tag (GsmSwap _) = ''gsm_swap''"
| "amm_action_tag (AddLiquidity _) = ''add_liquidity''"
| "amm_action_tag (RemoveLiquidity _) = ''remove_liquidity''"
| "amm_action_tag (CollectFees _) = ''collect_fees''"
| "amm_action_tag (SignIntentOrder _) = ''sign_intent_order''"
| "amm_action_tag (SettleIntentOrder _) = ''settle_intent_order''"
| "amm_action_tag (CancelIntentOrder _) = ''cancel_intent_order''"
| "amm_action_tag (PreSignIntentOrder _) = ''pre_sign_intent_order''"

fun amm_venue_name :: "amm_action \<Rightarrow> string option" where
  "amm_venue_name (Swap a) = Some (venue_name (sw_venue a))"
| "amm_venue_name (GsmSwap a) = Some (venue_name (gsm_venue a))"
| "amm_venue_name (AddLiquidity a) = Some (venue_name (al_venue a))"
| "amm_venue_name (RemoveLiquidity a) = Some (venue_name (rl_venue a))"
| "amm_venue_name (CollectFees a) = Some (venue_name (cf_venue a))"
| "amm_venue_name (SignIntentOrder a) = Some (intent_venue_name (si_venue a))"
| "amm_venue_name (SettleIntentOrder a) = Some (intent_venue_name (se_venue a))"
| "amm_venue_name (CancelIntentOrder a) = Some (intent_venue_name (ci_venue a))"
| "amm_venue_name (PreSignIntentOrder a) = Some (intent_venue_name (ps_venue a))"

end
