(* ===== verification/Amm_Quotes.thy ===== *)
theory Amm_Quotes
  imports Amm_Types
begin

text \<open>
  Pool mathematics of the venues whose quote is a closed form
  (\<open>asset-model/transition/src/effect/amm\<close>: \<open>uniswap_v2.rs\<close>, \<open>sushi_v2.rs\<close>, \<open>uniswap_v3.rs\<close>,
  \<open>uniswap_v4.rs\<close>, \<open>curve_v2.rs\<close>, \<open>balancer_v2.rs\<close>, \<open>trader_joe_lb.rs\<close>, \<open>maverick_v2.rs\<close>). The
  wallet, context and action every \<open>quote_swap_hop\<close> receives are not read by any of them and are
  not arguments here. The locale \<open>venue_quote\<close> is the contract a swap relies on; it
  is interpreted on every venue.
\<close>

section \<open>Constant product\<close>

definition uniswap_v2_quote :: "pool_state \<Rightarrow> u256 \<Rightarrow> u256 reducer_result" where
  "uniswap_v2_quote pool amount_in =
     (case pool of
        XyConstant reserve_in reserve_out fee_bp \<Rightarrow>
          if 10000 \<le> fee_bp
          then Err (Invariant (Text (''uniswap_v2 fee_bp '' @ dec_word fee_bp @ '' out of range (must be < 10000)'')))
          else
            let fee_multiplier = ucast (10000 - fee_bp) in
            bind_result (checked_mul_or ''uniswap_v2 amount_in_with_fee overflow'' amount_in fee_multiplier) (\<lambda>amount_in_with_fee.
            bind_result (checked_mul_or ''uniswap_v2 numerator overflow'' reserve_out amount_in_with_fee) (\<lambda>numerator.
            bind_result (checked_mul_or ''uniswap_v2 denominator base overflow'' reserve_in 10000) (\<lambda>denom_base.
            bind_result (checked_add_or ''uniswap_v2 denominator overflow'' denom_base amount_in_with_fee) (\<lambda>denominator.
              if denominator = 0 then Err (Invariant (Text ''uniswap_v2 zero denominator (empty pool)''))
              else Ok (numerator div denominator)))))
      | _ \<Rightarrow> Err (Invariant (Text ''non-XyConstant pool_state for uniswap_v2 swap'')))"

definition sushi_v2_quote :: "pool_state \<Rightarrow> u256 \<Rightarrow> u256 reducer_result" where
  "sushi_v2_quote pool amount_in = uniswap_v2_quote pool amount_in"

section \<open>Concentrated liquidity\<close>

definition q96 :: u256 where
  "q96 = push_bit 96 1"

definition concentrated_swap_math :: "pool_state \<Rightarrow> u256 \<Rightarrow> string \<Rightarrow> u256 reducer_result" where
  "concentrated_swap_math pool amount_in protocol_tag =
     (case pool of
        ConcentratedState sp _ liquidity _ \<Rightarrow>
          if liquidity = 0 then Err (Invariant (Text (protocol_tag @ '' quote: zero active liquidity'')))
          else if sp = 0 then Err (Invariant (Text (protocol_tag @ '' quote: zero sqrt_price_x96'')))
          else
            let l = ucast liquidity in
            if amount_in = 0 then Ok 0
            else
              bind_result (checked_mul_or (protocol_tag @ '' quote: L*sp overflow'') l sp) (\<lambda>num_l_sp.
              bind_result (checked_mul_or (protocol_tag @ '' quote: L*sp*Q96 overflow'') num_l_sp q96) (\<lambda>numerator.
              bind_result (checked_mul_or (protocol_tag @ '' quote: L*Q96 overflow'') l q96) (\<lambda>denom_l_q96.
              bind_result (checked_mul_or (protocol_tag @ '' quote: amount_in*sp overflow'') amount_in sp) (\<lambda>denom_in_sp.
              bind_result (checked_add_or (protocol_tag @ '' quote: denominator overflow'') denom_l_q96 denom_in_sp) (\<lambda>denominator.
              let sqrt_price_next = numerator div denominator in
              bind_result (checked_sub_or (protocol_tag @ '' quote: sqrt_price_next > sp (direction violation)'')
                sp sqrt_price_next) (\<lambda>sp_drop.
              bind_result (checked_mul_or (protocol_tag @ '' quote: L*(sp-sp_next) overflow'') l sp_drop) (\<lambda>out_num.
                Ok (out_num div q96))))))))
      | _ \<Rightarrow> Err (Invariant (Text (''non-Concentrated pool_state for '' @ protocol_tag @ '' swap''))))"

definition uniswap_v3_quote :: "pool_state \<Rightarrow> u256 \<Rightarrow> u256 reducer_result" where
  "uniswap_v3_quote pool amount_in = concentrated_swap_math pool amount_in ''uniswap_v3''"

definition uniswap_v4_quote :: "pool_state \<Rightarrow> u256 \<Rightarrow> u256 reducer_result" where
  "uniswap_v4_quote pool amount_in = concentrated_swap_math pool amount_in ''uniswap_v4''"

section \<open>Curve V2, one price scale\<close>

definition price_precision :: u256 where
  "price_precision = 10 ^ 18"

definition curve_v2_quote :: "pool_state \<Rightarrow> u256 \<Rightarrow> u256 reducer_result" where
  "curve_v2_quote pool amount_in =
     (case pool of
        Cryptoswap balances price_scale _ fee_bp \<Rightarrow>
          if length balances \<noteq> 2
          then Err (Invariant (Text (''curve_v2 twocrypto simplification needs 2 coins, got '' @ dec_string (length balances))))
          else if price_scale = [] then Err (Invariant (Text ''curve_v2: empty price_scale''))
          else if price_scale ! 0 = 0 then Err (Invariant (Text ''curve_v2: zero price_scale[0]''))
          else if 10000 \<le> fee_bp
          then Err (Invariant (Text (''curve_v2 fee_bp '' @ dec_word fee_bp @ '' out of range (must be < 10000)'')))
          else if amount_in = 0 then Ok 0
          else
            let precision = price_precision; price = price_scale ! 0; xp0 = balances ! 0 in
            bind_result (checked_mul_or ''curve_v2: xp1 mul overflow'' (balances ! 1) price) (\<lambda>scaled.
            let xp1 = scaled div precision in
            if xp0 = 0 \<or> xp1 = 0 then Err (Invariant (Text ''curve_v2: zero scaled balance''))
            else
              bind_result (checked_mul_or ''curve_v2: numerator overflow'' xp1 amount_in) (\<lambda>numerator.
              bind_result (checked_add_or ''curve_v2: denominator overflow'' xp0 amount_in) (\<lambda>denominator.
              if denominator = 0 then Err (Invariant (Text ''curve_v2: zero denominator''))
              else
                let dy_scaled = numerator div denominator in
                bind_result (checked_mul_or ''curve_v2: dy descale overflow'' dy_scaled precision) (\<lambda>descaled.
                let dy_pre_fee = descaled div price in
                bind_result (checked_mul_or ''curve_v2: fee numerator overflow'' dy_pre_fee (ucast fee_bp)) (\<lambda>fee_num.
                  checked_sub_or ''curve_v2: dy - fee underflow'' dy_pre_fee (fee_num div 10000))))))
      | _ \<Rightarrow> Err (Invariant (Text ''non-Cryptoswap pool_state for curve_v2 swap'')))"

section \<open>Balancer weighted pools\<close>

definition quote_weighted :: "u256 list \<Rightarrow> u64 list \<Rightarrow> u32 \<Rightarrow> u256 \<Rightarrow> u256 reducer_result" where
  "quote_weighted balances weights fee_bp amount_in =
     (if length balances < 2 \<or> length weights < 2
      then Err (Invariant (Text (''balancer_v2 weighted: needs >= 2 coins/weights, got '' @
        dec_string (length balances) @ ''/'' @ dec_string (length weights))))
      else if length balances \<noteq> length weights
      then Err (Invariant (Text (''balancer_v2 weighted: balances/weights length mismatch ('' @
        dec_string (length balances) @ '' != '' @ dec_string (length weights) @ '')'')))
      else if 10000 \<le> fee_bp
      then Err (Invariant (Text (''balancer_v2 weighted fee_bp '' @ dec_word fee_bp @ '' out of range (must be < 10000)'')))
      else
        let bal_in = balances ! 0; bal_out = balances ! 1 in
        if bal_in = 0 \<or> bal_out = 0 then Err (Invariant (Text ''balancer_v2 weighted: zero pool balance''))
        else
          let w_in = ucast (weights ! 0); w_out = ucast (weights ! 1) in
          if w_in = 0 \<or> w_out = 0 then Err (Invariant (Text ''balancer_v2 weighted: zero weight''))
          else
            let fee_multiplier = ucast (10000 - fee_bp) in
            bind_result (checked_mul_or ''balancer_v2 weighted: in-fee overflow'' amount_in fee_multiplier) (\<lambda>in_fee.
            let amount_in_after_fee = in_fee div 10000 in
            bind_result (checked_mul_or ''balancer_v2 weighted: numer_inner overflow'' amount_in_after_fee w_in) (\<lambda>numer_inner.
            bind_result (checked_mul_or ''balancer_v2 weighted: numerator overflow'' bal_out numer_inner) (\<lambda>numerator.
            bind_result (checked_mul_or ''balancer_v2 weighted: denom_a overflow'' bal_in w_out) (\<lambda>denom_a.
            bind_result (checked_add_or ''balancer_v2 weighted: denominator overflow'' denom_a numer_inner) (\<lambda>denominator.
              if denominator = 0 then Err (Invariant (Text ''balancer_v2 weighted: zero denominator''))
              else Ok (numerator div denominator)))))))"

section \<open>Trader Joe and Maverick, active bin\<close>

definition trader_joe_lb_quote :: "pool_state \<Rightarrow> u256 \<Rightarrow> u256 reducer_result" where
  "trader_joe_lb_quote pool amount_in =
     (case pool of
        LiquidityBook active_bin_id bins variable_fee_bp \<Rightarrow>
          if bins = [] then Err (Invariant (Text ''trader_joe_lb: empty bins''))
          else if 10000 \<le> variable_fee_bp
          then Err (Invariant (Text (''trader_joe_lb variable_fee_bp '' @ dec_word variable_fee_bp @
            '' out of range (must be < 10000)'')))
          else if amount_in = 0 then Ok 0
          else
            bind_result (ok_or (Invariant (Text (''trader_joe_lb: active_bin_id '' @ dec_word active_bin_id @ '' not in bins'')))
              (List.find (\<lambda>b. bin_id b = active_bin_id) bins)) (\<lambda>active.
            if bin_reserve_in active = 0 \<or> bin_reserve_out active = 0
            then Err (Invariant (Text ''trader_joe_lb: zero active-bin reserve''))
            else
              let fee_multiplier = ucast (10000 - variable_fee_bp) in
              bind_result (checked_mul_or ''trader_joe_lb: in-fee overflow'' amount_in fee_multiplier) (\<lambda>in_fee.
              let amount_in_after_fee = in_fee div 10000 in
              bind_result (checked_mul_or ''trader_joe_lb: numerator overflow'' (bin_reserve_out active) amount_in_after_fee) (\<lambda>numerator.
              bind_result (checked_add_or ''trader_joe_lb: denominator overflow'' (bin_reserve_in active) amount_in_after_fee) (\<lambda>denominator.
                if denominator = 0 then Err (Invariant (Text ''trader_joe_lb: zero denominator''))
                else Ok (numerator div denominator)))))
      | _ \<Rightarrow> Err (Invariant (Text ''non-LiquidityBook pool_state for trader_joe_lb swap'')))"

text \<open>\<open>parse_u256\<close> is \<open><U256 as FromStr>::from_str\<close> of the integer library, \<open>None\<close> for its error.\<close>

definition pull_u256 :: "(string \<Rightarrow> u256 option) \<Rightarrow> json \<Rightarrow> string \<Rightarrow> u256 reducer_result" where
  "pull_u256 parse_u256 raw key =
     (case json_get raw key of
        Some (JString s) \<Rightarrow> ok_or (Invariant (BadU256Field key)) (parse_u256 s)
      | _ \<Rightarrow> Err (Invariant (Text (''maverick_v2 raw payload: missing or non-string `'' @ key @ ''`''))))"

definition pull_u32 :: "json \<Rightarrow> string \<Rightarrow> u32 reducer_result" where
  "pull_u32 raw key =
     (case json_get raw key of
        Some (JNumber (PosInt n)) \<Rightarrow>
          if uint n < 2 ^ 32 then Ok (ucast n)
          else Err (Invariant (Text (''maverick_v2 raw payload: `'' @ key @ ''` overflows u32'')))
      | _ \<Rightarrow> Err (Invariant (Text (''maverick_v2 raw payload: missing or non-number `'' @ key @ ''`''))))"

definition maverick_v2_quote :: "(string \<Rightarrow> u256 option) \<Rightarrow> pool_state \<Rightarrow> u256 \<Rightarrow> u256 reducer_result" where
  "maverick_v2_quote parse_u256 pool amount_in =
     (case pool of
        MaverickState _ raw \<Rightarrow>
          if amount_in = 0 then Ok 0
          else
            bind_result (pull_u256 parse_u256 raw ''reserve_in'') (\<lambda>reserve_in.
            bind_result (pull_u256 parse_u256 raw ''reserve_out'') (\<lambda>reserve_out.
            bind_result (pull_u32 raw ''fee_bp'') (\<lambda>fee_bp.
            if 10000 \<le> fee_bp
            then Err (Invariant (Text (''maverick_v2 fee_bp '' @ dec_word fee_bp @ '' out of range (must be < 10000)'')))
            else if reserve_in = 0 \<or> reserve_out = 0 then Err (Invariant (Text ''maverick_v2: zero active-bin reserve''))
            else
              let fee_multiplier = ucast (10000 - fee_bp) in
              bind_result (checked_mul_or ''maverick_v2: in-fee overflow'' amount_in fee_multiplier) (\<lambda>in_fee.
              let amount_in_after_fee = in_fee div 10000 in
              bind_result (checked_mul_or ''maverick_v2: numerator overflow'' reserve_out amount_in_after_fee) (\<lambda>numerator.
              bind_result (checked_add_or ''maverick_v2: denominator overflow'' reserve_in amount_in_after_fee) (\<lambda>denominator.
                if denominator = 0 then Err (Invariant (Text ''maverick_v2: zero denominator''))
                else Ok (numerator div denominator)))))))
      | _ \<Rightarrow> Err (Invariant (Text ''non-Maverick pool_state for maverick_v2 swap'')))"

section \<open>Rounded division\<close>

lemma div_cross_mono:
  assumes "(x::nat) * y' \<le> x' * y" and "0 < y" and "0 < y'"
  shows "x div y \<le> x' div y'"
proof -
  have "(x div y) * y' * y = (x div y) * y * y'"
    by (simp add: mult_ac)
  also have "\<dots> \<le> x * y'"
    by (rule mult_right_mono) simp_all
  also have "\<dots> \<le> x' * y"
    by (rule assms(1))
  finally have "(x div y) * y' \<le> x'"
    using assms(2) by simp
  then show ?thesis
    using assms(3) by (simp add: less_eq_div_iff_mult_less_eq)
qed

text \<open>The output of a constant-product pool with reserves \<open>p\<close> and \<open>q\<close> for an input \<open>a\<close>, rounded down.\<close>

definition cp_out :: "nat \<Rightarrow> nat \<Rightarrow> nat \<Rightarrow> nat" where
  "cp_out p q a = (q * a) div (p + a)"

lemma cp_out_times: "(p + a) * cp_out p q a \<le> q * a"
  unfolding cp_out_def by (rule times_div_less_eq_dividend)

lemma cp_out_le: "cp_out p q a \<le> q"
proof (cases "p + a = 0")
  case False
  have "(p + a) * cp_out p q a \<le> (p + a) * q"
    using cp_out_times [of p a q] by (simp add: algebra_simps)
  with False show ?thesis
    by simp
qed (simp add: cp_out_def)

lemma cp_out_zero [simp]: "cp_out p q 0 = 0"
  by (simp add: cp_out_def)

lemma cp_out_mono:
  assumes "a \<le> b"
  shows "cp_out p q a \<le> cp_out p q b"
proof (cases "p + a = 0")
  case False
  have "p * a \<le> p * b"
    using assms by simp
  then have "q * (p * a) \<le> q * (p * b)"
    by (rule mult_left_mono) simp
  then have "q * a * (p + b) \<le> q * b * (p + a)"
    by (simp add: algebra_simps)
  then show ?thesis
    unfolding cp_out_def by (rule div_cross_mono) (use False assms in auto)
qed (simp add: cp_out_def)

lemma cp_product: "p * q \<le> (p + a) * (q - cp_out p q a)"
proof -
  have "p * q = (p + a) * q - q * a"
    by (simp add: algebra_simps)
  also have "\<dots> \<le> (p + a) * q - (p + a) * cp_out p q a"
    using cp_out_times by (rule diff_le_mono2)
  finally show ?thesis
    by (simp add: diff_mult_distrib2)
qed

text \<open>The input times the fee multiplier, in basis points.\<close>

definition fee_in :: "u32 \<Rightarrow> u256 \<Rightarrow> nat" where
  "fee_in f a = unat a * (10000 - unat f)"

lemma fee_in_zero [simp]: "fee_in f 0 = 0"
  by (simp add: fee_in_def)

lemma fee_in_mono: "a \<le> b \<Longrightarrow> fee_in f a \<le> fee_in f b"
  unfolding fee_in_def by (intro mult_right_mono) (simp_all add: word_le_nat_alt)

text \<open>A fee taken from the output, rounded down, leaves a monotone amount.\<close>

lemma after_fee_eq:
  assumes "f \<le> (10000 :: nat)"
  shows "x - x * f div 10000 = (x * (10000 - f) + 9999) div 10000"
proof -
  define q r where "q = x * f div 10000" and "r = x * f mod 10000"
  have split: "x * f = 10000 * q + r" and "r < 10000"
    by (simp_all add: q_def r_def)
  have total: "x * 10000 = x * f + x * (10000 - f)"
    using assms by (simp add: diff_mult_distrib2)
  have "10000 * q \<le> 10000 * x"
    using split total by linarith
  then have "q \<le> x"
    by simp
  then have "10000 * (x - q) \<le> x * (10000 - f) + 9999" "x * (10000 - f) + 9999 < 10000 * Suc (x - q)"
    using split total \<open>r < 10000\<close> by (simp_all add: diff_mult_distrib2)
  then show ?thesis
    unfolding q_def [symmetric] by (intro div_nat_eqI [symmetric]) simp_all
qed

lemma after_fee_mono:
  assumes "f \<le> (10000 :: nat)" and "x \<le> y"
  shows "x - x * f div 10000 \<le> y - y * f div 10000"
  unfolding after_fee_eq [OF assms(1)] using assms(2) by (simp add: div_le_mono)

section \<open>Quotes over the natural numbers\<close>

lemma unat_zero_iff: "(w :: 'a::len word) = 0 \<longleftrightarrow> unat w = 0"
  by (simp add: unat_eq_0)

lemma fee_multiplier:
  assumes "\<not> 10000 \<le> (f :: u32)"
  shows "unat (ucast (10000 - f) :: u256) = 10000 - unat f" and "unat f < 10000"
proof -
  show less: "unat f < 10000"
    using assms by (simp add: word_le_nat_alt)
  then have "unat (10000 - f) = 10000 - unat f"
    by (subst unat_sub) (simp_all add: word_le_nat_alt)
  then show "unat (ucast (10000 - f) :: u256) = 10000 - unat f"
    by (simp add: unat_ucast_up)
qed

lemma fee_rest: "\<not> 10000 \<le> (f :: u32) \<Longrightarrow> unat (10000 - f) = 10000 - unat f"
  using fee_multiplier [of f] by (simp add: unat_ucast_up)

lemma checked_sub_or_diff: "checked_sub_or msg a b = Ok c \<longleftrightarrow> unat b \<le> unat a \<and> unat c = unat a - unat b"
  by (auto simp: checked_sub_or_Ok)

lemma unat_q96: "unat q96 = 2 ^ 96"
  by (simp add: q96_def push_bit_eq_mult)

lemma unat_precision: "unat price_precision = 10 ^ 18"
  by (simp add: price_precision_def)

lemma uniswap_v2_quote_Ok:
  assumes "uniswap_v2_quote pool a = Ok out"
  obtains ri ro f where "pool = XyConstant ri ro f" and "unat f < 10000"
    and "unat out = cp_out (unat ri * 10000) (unat ro) (fee_in f a)"
  using assms
  by (auto simp: uniswap_v2_quote_def Let_def checked_simps cp_out_def fee_in_def unat_div_distrib fee_multiplier
      split: pool_state.splits if_splits)

lemma weighted_quote_Ok:
  assumes "quote_weighted bs ws f a = Ok out"
  obtains x where "2 \<le> length bs" and "unat f < 10000" and "x = fee_in f a div 10000 * unat (ws ! 0)"
    and "unat out = cp_out (unat (bs ! 0) * unat (ws ! 1)) (unat (bs ! 1)) x"
  using assms
  by (auto simp: quote_weighted_def Let_def checked_simps cp_out_def fee_in_def unat_div_distrib fee_multiplier fee_rest unat_ucast_up
      split: if_splits)

lemma trader_joe_lb_quote_Ok:
  assumes "trader_joe_lb_quote pool a = Ok out"
  obtains i bins f where "pool = LiquidityBook i bins f" and "a = 0" and "out = 0"
  | i bins f active where "pool = LiquidityBook i bins f" and "List.find (\<lambda>b. bin_id b = i) bins = Some active"
    and "unat f < 10000"
    and "unat out = cp_out (unat (bin_reserve_in active)) (unat (bin_reserve_out active))
      (fee_in f a div 10000)"
  using assms
  by (auto simp: trader_joe_lb_quote_def Let_def checked_simps cp_out_def fee_in_def unat_div_distrib fee_multiplier
      split: pool_state.splits if_splits)

lemma maverick_v2_quote_Ok:
  assumes "maverick_v2_quote pu pool a = Ok out"
  obtains m raw where "pool = MaverickState m raw" and "a = 0" and "out = 0"
  | m raw ri ro f where "pool = MaverickState m raw" and "pull_u256 pu raw ''reserve_in'' = Ok ri"
    and "pull_u256 pu raw ''reserve_out'' = Ok ro" and "pull_u32 raw ''fee_bp'' = Ok f" and "unat f < 10000"
    and "unat out = cp_out (unat ri) (unat ro) (fee_in f a div 10000)"
  using assms
  by (auto simp: maverick_v2_quote_def Let_def checked_simps cp_out_def fee_in_def unat_div_distrib fee_multiplier
      split: pool_state.splits if_splits)

text \<open>The output of the one-price-scale form of Curve V2, with the fee taken from the output.\<close>

definition crypto_out :: "nat \<Rightarrow> nat \<Rightarrow> nat \<Rightarrow> nat \<Rightarrow> nat \<Rightarrow> nat" where
  "crypto_out b0 b1 price f a =
     (let gross = cp_out b0 (b1 * price div 10 ^ 18) a * 10 ^ 18 div price in gross - gross * f div 10000)"

lemma curve_v2_quote_Ok:
  assumes "curve_v2_quote pool a = Ok out"
  obtains bs ps g f where "pool = Cryptoswap bs ps g f" and "a = 0" and "out = 0"
  | bs ps g f where "pool = Cryptoswap bs ps g f" and "length bs = 2" and "unat (ps ! 0) \<noteq> 0" and "unat f < 10000"
    and "unat out = crypto_out (unat (bs ! 0)) (unat (bs ! 1)) (unat (ps ! 0)) (unat f) (unat a)"
  using assms
  by (auto simp: curve_v2_quote_def Let_def checked_mul_or_Ok checked_add_or_Ok checked_sub_or_diff cp_out_def crypto_out_def unat_div_distrib unat_ucast_up
      unat_precision fee_multiplier unat_eq_0 split: pool_state.splits if_splits)

lemma crypto_out_le:
  assumes "price \<noteq> 0"
  shows "crypto_out b0 b1 price f a \<le> b1"
proof -
  have "b1 * price div 10 ^ 18 * 10 ^ 18 \<le> b1 * price"
    by (rule div_times_less_eq_dividend)
  moreover have "cp_out b0 (b1 * price div 10 ^ 18) a * 10 ^ 18 \<le> b1 * price div 10 ^ 18 * 10 ^ 18"
    by (rule mult_right_mono [OF cp_out_le]) simp
  ultimately have "cp_out b0 (b1 * price div 10 ^ 18) a * 10 ^ 18 div price \<le> b1 * price div price"
    by (intro div_le_mono) linarith
  then have "cp_out b0 (b1 * price div 10 ^ 18) a * 10 ^ 18 div price \<le> b1"
    using assms by simp
  then show ?thesis
    unfolding crypto_out_def Let_def by linarith
qed

lemma crypto_out_zero [simp]: "crypto_out b0 b1 price f 0 = 0"
  by (simp add: crypto_out_def)

lemma crypto_out_mono:
  assumes "f \<le> 10000" and "a \<le> b"
  shows "crypto_out b0 b1 price f a \<le> crypto_out b0 b1 price f b"
  unfolding crypto_out_def Let_def
  using assms by (intro after_fee_mono div_le_mono mult_right_mono cp_out_mono) simp_all

text \<open>The square-root price after an input and the output it gives, both rounded down.\<close>

definition v3_next :: "nat \<Rightarrow> nat \<Rightarrow> nat \<Rightarrow> nat" where
  "v3_next l sp a = (l * sp * 2 ^ 96) div (l * 2 ^ 96 + a * sp)"

definition v3_out :: "nat \<Rightarrow> nat \<Rightarrow> nat \<Rightarrow> nat" where
  "v3_out l sp a = l * (sp - v3_next l sp a) div 2 ^ 96"

lemma v3_next_le: "v3_next l sp a \<le> sp"
proof (cases "l = 0")
  case False
  have "l * sp * 2 ^ 96 \<le> sp * (l * 2 ^ 96 + a * sp)"
    by (simp add: algebra_simps)
  then have "v3_next l sp a \<le> sp * (l * 2 ^ 96 + a * sp) div (l * 2 ^ 96 + a * sp)"
    unfolding v3_next_def by (rule div_le_mono)
  with False show ?thesis
    by simp
qed (simp add: v3_next_def)

lemma v3_next_antimono:
  assumes "a \<le> b" and "0 < l"
  shows "v3_next l sp b \<le> v3_next l sp a"
  unfolding v3_next_def using assms
  by (intro div_le_mono2) (auto intro: mult_right_mono)

lemma v3_out_le: "v3_out l sp a \<le> l * sp div 2 ^ 96"
  unfolding v3_out_def by (intro div_le_mono mult_left_mono) simp_all

lemma v3_out_mono: "a \<le> b \<Longrightarrow> 0 < l \<Longrightarrow> v3_out l sp a \<le> v3_out l sp b"
  unfolding v3_out_def using v3_next_antimono [of a b l sp]
  by (intro div_le_mono mult_left_mono) simp_all

lemma checked_or_fits:
  fixes a b :: "'a::len word"
  shows "unat a * unat b < 2 ^ LENGTH('a) \<Longrightarrow> checked_mul_or m a b = Ok (a * b)"
    and "unat a + unat b < 2 ^ LENGTH('a) \<Longrightarrow> checked_add_or m a b = Ok (a + b)"
    and "unat b \<le> unat a \<Longrightarrow> checked_sub_or m a b = Ok (a - b)"
  by (simp_all add: checked_mul_or_Ok checked_add_or_Ok checked_sub_or_diff unat_mult_fits unat_add_fits unat_sub
      word_le_nat_alt)

lemma concentrated_quote_nonzero:
  assumes "l \<noteq> 0" and "sp \<noteq> 0" and "a \<noteq> 0"
  shows "concentrated_swap_math (ConcentratedState sp t l ts) a tag = Ok out \<longleftrightarrow>
    unat l * unat sp < 2 ^ 160 \<and> unat l * 2 ^ 96 + unat a * unat sp < 2 ^ 256 \<and>
    unat out = v3_out (unat l) (unat sp) (unat a)"
    (is "?quote = Ok out \<longleftrightarrow> ?fits1 \<and> ?fits2 \<and> ?amount")
proof
  assume "?quote = Ok out"
  then obtain x y z u v dr num where eqs: "unat (x :: u256) = unat l * unat sp" "unat (y :: u256) = unat x * unat q96"
      "unat (z :: u256) = unat l * unat q96" "unat (u :: u256) = unat a * unat sp" "unat (v :: u256) = unat z + unat u"
    and rest: "unat (dr :: u256) = unat sp - unat (y div v)" "unat (num :: u256) = unat l * unat dr" "out = num div q96"
    using assms
    by (auto simp: concentrated_swap_math_def Let_def checked_mul_or_Ok checked_add_or_Ok checked_sub_or_diff unat_ucast_up)
  have next_price: "unat (y div v) = v3_next (unat l) (unat sp) (unat a)"
    by (simp add: unat_div_distrib eqs unat_q96 v3_next_def)
  have ?amount
    by (simp only: rest(3) rest(1,2) next_price [unfolded unat_div_distrib] unat_div_distrib unat_q96 v3_out_def)
  moreover have "unat l * unat sp * 2 ^ 96 < 2 ^ 256" "unat l * 2 ^ 96 + unat a * unat sp < 2 ^ 256"
    using unat_fits [of y] unat_fits [of v] by (simp_all add: eqs unat_q96)
  moreover have "unat l * unat sp < 2 ^ 160"
  proof -
    have "unat l * unat sp * 2 ^ 96 < 2 ^ 160 * 2 ^ 96"
      using calculation(2) by simp
    then show ?thesis
      by (simp only: mult_less_cancel2)
  qed
  ultimately show "?fits1 \<and> ?fits2 \<and> ?amount"
    by blast
next
  assume fits: "?fits1 \<and> ?fits2 \<and> ?amount"
  let ?l = "ucast l :: u256"
  have l: "unat ?l = unat l"
    by (simp add: unat_ucast_up)
  have f1: "unat ?l * unat sp < 2 ^ LENGTH(256)" "unat (?l * sp) * unat q96 < 2 ^ LENGTH(256)"
    "unat ?l * unat q96 < 2 ^ LENGTH(256)" "unat a * unat sp < 2 ^ LENGTH(256)"
    "unat (?l * q96) + unat (a * sp) < 2 ^ LENGTH(256)"
    using fits by (simp_all add: l unat_mult_fits unat_q96 mult.commute)
  have next_price: "unat (?l * sp * q96 div (?l * q96 + a * sp)) = v3_next (unat l) (unat sp) (unat a)"
    using f1 by (simp add: unat_div_distrib unat_mult_fits unat_add_fits l unat_q96 v3_next_def)
  then have f2: "unat (?l * sp * q96 div (?l * q96 + a * sp)) \<le> unat sp"
    by (simp add: v3_next_le)
  have drop: "unat (sp - ?l * sp * q96 div (?l * q96 + a * sp)) = unat sp - v3_next (unat l) (unat sp) (unat a)"
    using f2 next_price by (simp add: unat_sub word_le_nat_alt)
  have "unat l * (unat sp - v3_next (unat l) (unat sp) (unat a)) \<le> unat l * unat sp"
    by (intro mult_left_mono) simp_all
  also have "\<dots> < 2 ^ 160"
    using fits by blast
  also have "\<dots> < (2 :: nat) ^ LENGTH(256)"
    by simp
  finally have f3: "unat ?l * unat (sp - ?l * sp * q96 div (?l * q96 + a * sp)) < 2 ^ LENGTH(256)"
    by (simp only: drop l)
  have "?quote = Ok (?l * (sp - ?l * sp * q96 div (?l * q96 + a * sp)) div q96)"
    using assms
    by (simp add: concentrated_swap_math_def Let_def checked_or_fits(1) [OF f1(1)] checked_or_fits(1) [OF f1(2)]
        checked_or_fits(1) [OF f1(3)] checked_or_fits(1) [OF f1(4)] checked_or_fits(2) [OF f1(5)]
        checked_or_fits(3) [OF f2] checked_or_fits(1) [OF f3])
  moreover have "unat (?l * (sp - ?l * sp * q96 div (?l * q96 + a * sp)) div q96) = unat out"
    unfolding unat_div_distrib unat_mult_fits [OF f3] l drop unat_q96 using fits v3_out_def by presburger
  ultimately show "?quote = Ok out"
    by (simp add: word_unat_eq_iff)
qed

lemma concentrated_quote_iff:
  "concentrated_swap_math pool a tag = Ok out \<longleftrightarrow>
   (\<exists>sp t l ts. pool = ConcentratedState sp t l ts \<and> l \<noteq> 0 \<and> sp \<noteq> 0 \<and>
     (if a = 0 then out = 0
      else unat l * unat sp < 2 ^ 160 \<and> unat l * 2 ^ 96 + unat a * unat sp < 2 ^ 256 \<and>
        unat out = v3_out (unat l) (unat sp) (unat a)))"
proof (cases pool)
  case (ConcentratedState sp t l ts)
  show ?thesis
  proof (cases "l = 0 \<or> sp = 0 \<or> a = 0")
    case True
    then show ?thesis
      using ConcentratedState by (auto simp: concentrated_swap_math_def Let_def)
  next
    case False
    then have "concentrated_swap_math pool a tag = Ok out \<longleftrightarrow>
      unat l * unat sp < 2 ^ 160 \<and> unat l * 2 ^ 96 + unat a * unat sp < 2 ^ 256 \<and>
      unat out = v3_out (unat l) (unat sp) (unat a)"
      using ConcentratedState concentrated_quote_nonzero [of l sp a] by blast
    then show ?thesis
      using False ConcentratedState by simp
  qed
qed (simp_all add: concentrated_swap_math_def)

section \<open>The contract of a quote\<close>

text \<open>
  What a swap relies on: nothing comes out for nothing, and never more than the pool's reserve of
  the output token. \<open>'p\<close> is what the quote reads: a pool snapshot, or a hop of a route.
\<close>

locale venue_quote =
  fixes quote :: "'p \<Rightarrow> u256 \<Rightarrow> u256 reducer_result"
    and reserve :: "'p \<Rightarrow> nat"
  assumes quote_zero: "quote p 0 = Ok out \<Longrightarrow> out = 0"
    and quote_bounded: "quote p a = Ok out \<Longrightarrow> unat out \<le> reserve p"
begin

lemma walk_zero: "try_fold (\<lambda>x p. quote p x) 0 ps = Ok out \<Longrightarrow> out = 0"
proof (induction ps)
  case (Cons p ps)
  then obtain x where "quote p 0 = Ok x" "try_fold (\<lambda>x p. quote p x) x ps = Ok out"
    by auto
  with quote_zero [of p x] Cons.IH show ?case
    by simp
qed simp

lemma walk_bounded:
  assumes "try_fold (\<lambda>x p. quote p x) a ps = Ok out" and "ps \<noteq> []"
  shows "unat out \<le> reserve (last ps)"
proof -
  from assms(2) obtain qs p where "ps = qs @ [p]"
    by (cases ps rule: rev_cases) auto
  with assms(1) obtain x where "quote p x = Ok out"
    by (auto simp: try_fold_append)
  with quote_bounded [OF this] \<open>ps = qs @ [p]\<close> show ?thesis
    by simp
qed

end

text \<open>A venue on whose \<open>smooth\<close> pools a larger input never gives a smaller output.\<close>

locale monotone_quote = venue_quote quote reserve
  for quote :: "'p \<Rightarrow> u256 \<Rightarrow> u256 reducer_result" and reserve :: "'p \<Rightarrow> nat" +
  fixes smooth :: "'p \<Rightarrow> bool"
  assumes quote_mono: "smooth p \<Longrightarrow> quote p a = Ok x \<Longrightarrow> quote p b = Ok y \<Longrightarrow> a \<le> b \<Longrightarrow> x \<le> y"
begin

lemma walk_mono:
  assumes "\<forall>p\<in>set ps. smooth p" and "a \<le> b"
    and "try_fold (\<lambda>x p. quote p x) a ps = Ok x" and "try_fold (\<lambda>x p. quote p x) b ps = Ok y"
  shows "x \<le> y"
  using assms
proof (induction ps arbitrary: a b)
  case (Cons p ps)
  then obtain u v where step: "quote p a = Ok u" "quote p b = Ok v"
    "try_fold (\<lambda>x p. quote p x) u ps = Ok x" "try_fold (\<lambda>x p. quote p x) v ps = Ok y"
    by auto
  have "u \<le> v"
    using quote_mono [OF _ step(1,2) Cons.prems(2)] Cons.prems(1) by simp
  then show ?case
    using Cons.IH [OF _ _ step(3,4)] Cons.prems(1) by simp
qed simp

end

text \<open>The reserve of the output token a pool snapshot records.\<close>

fun out_reserve :: "(string \<Rightarrow> u256 option) \<Rightarrow> pool_state \<Rightarrow> nat" where
  "out_reserve pu (XyConstant _ ro _) = unat ro"
| "out_reserve pu (ConcentratedState sp _ l _) = unat l * unat sp div 2 ^ 96"
| "out_reserve pu (StableV1 bs _ _) = unat (bs ! 1)"
| "out_reserve pu (Cryptoswap bs _ _ _) = unat (bs ! 1)"
| "out_reserve pu (WeightedState bs _ _) = unat (bs ! 1)"
| "out_reserve pu (StableState bs _ _) = unat (bs ! 1)"
| "out_reserve pu (LiquidityBook i bins _) =
     (case List.find (\<lambda>b. bin_id b = i) bins of Some b \<Rightarrow> unat (bin_reserve_out b) | None \<Rightarrow> 0)"
| "out_reserve pu (MaverickState _ raw) = (case pull_u256 pu raw ''reserve_out'' of Ok r \<Rightarrow> unat r | Err _ \<Rightarrow> 0)"
| "out_reserve pu (CustomState _ _) = 0"

interpretation v2: monotone_quote uniswap_v2_quote "out_reserve pu" "\<lambda>_. True" for pu
proof
  fix pool a b out x y
  show "uniswap_v2_quote pool 0 = Ok out \<Longrightarrow> out = 0"
    by (erule uniswap_v2_quote_Ok) (simp add: unat_eq_0)
  show "uniswap_v2_quote pool a = Ok out \<Longrightarrow> unat out \<le> out_reserve pu pool"
    by (erule uniswap_v2_quote_Ok) (simp add: cp_out_le)
  show "x \<le> y" if "uniswap_v2_quote pool a = Ok x" "uniswap_v2_quote pool b = Ok y" "a \<le> b"
    using that by (elim uniswap_v2_quote_Ok) (auto simp: word_le_nat_alt [of x y] intro!: cp_out_mono fee_in_mono)
qed

interpretation sushi: monotone_quote sushi_v2_quote "out_reserve pu" "\<lambda>_. True" for pu
  unfolding sushi_v2_quote_def by (rule v2.monotone_quote_axioms)

lemma concentrated_venue:
  "monotone_quote (\<lambda>pool a. concentrated_swap_math pool a tag) (out_reserve pu) (\<lambda>_. True)"
proof
  fix pool a b out x y
  show "concentrated_swap_math pool 0 tag = Ok out \<Longrightarrow> out = 0"
    by (auto simp: concentrated_quote_iff)
  show "concentrated_swap_math pool a tag = Ok out \<Longrightarrow> unat out \<le> out_reserve pu pool"
    by (auto simp: concentrated_quote_iff v3_out_le [simplified] split: if_splits)
  show "x \<le> y" if "concentrated_swap_math pool a tag = Ok x" "concentrated_swap_math pool b tag = Ok y" "a \<le> b"
    using that
    by (auto simp: concentrated_quote_iff word_le_nat_alt unat_eq_0 unat_gt_0 split: if_splits intro!: v3_out_mono)
qed

interpretation v3: monotone_quote uniswap_v3_quote "out_reserve pu" "\<lambda>_. True" for pu
  unfolding uniswap_v3_quote_def by (rule concentrated_venue)

interpretation v4: monotone_quote uniswap_v4_quote "out_reserve pu" "\<lambda>_. True" for pu
  unfolding uniswap_v4_quote_def by (rule concentrated_venue)

interpretation crypto: monotone_quote curve_v2_quote "out_reserve pu" "\<lambda>_. True" for pu
proof
  fix pool a b out x y
  show "curve_v2_quote pool 0 = Ok out \<Longrightarrow> out = 0"
    by (erule curve_v2_quote_Ok) (simp_all add: unat_eq_0)
  show "curve_v2_quote pool a = Ok out \<Longrightarrow> unat out \<le> out_reserve pu pool"
    by (erule curve_v2_quote_Ok) (simp_all add: crypto_out_le)
  show "x \<le> y" if "curve_v2_quote pool a = Ok x" "curve_v2_quote pool b = Ok y" "a \<le> b"
    using that by (elim curve_v2_quote_Ok) (auto simp: word_le_nat_alt intro!: crypto_out_mono)
qed

interpretation joe: monotone_quote trader_joe_lb_quote "out_reserve pu" "\<lambda>_. True" for pu
proof
  fix pool a b out x y
  show "trader_joe_lb_quote pool 0 = Ok out \<Longrightarrow> out = 0"
    by (erule trader_joe_lb_quote_Ok) (simp_all add: unat_eq_0)
  show "trader_joe_lb_quote pool a = Ok out \<Longrightarrow> unat out \<le> out_reserve pu pool"
    by (erule trader_joe_lb_quote_Ok) (simp_all add: cp_out_le)
  show "x \<le> y" if "trader_joe_lb_quote pool a = Ok x" "trader_joe_lb_quote pool b = Ok y" "a \<le> b"
    using that
    by (elim trader_joe_lb_quote_Ok) (auto simp: word_le_nat_alt [of x y] unat_eq_0 intro!: cp_out_mono div_le_mono fee_in_mono)
qed

interpretation maverick: monotone_quote "maverick_v2_quote pu" "out_reserve pu" "\<lambda>_. True" for pu
proof
  fix pool a b out x y
  show "maverick_v2_quote pu pool 0 = Ok out \<Longrightarrow> out = 0"
    by (erule maverick_v2_quote_Ok) (simp_all add: unat_eq_0)
  show "maverick_v2_quote pu pool a = Ok out \<Longrightarrow> unat out \<le> out_reserve pu pool"
    by (erule maverick_v2_quote_Ok) (simp_all add: cp_out_le)
  show "x \<le> y" if "maverick_v2_quote pu pool a = Ok x" "maverick_v2_quote pu pool b = Ok y" "a \<le> b"
    using that
    by (elim maverick_v2_quote_Ok) (auto simp: word_le_nat_alt [of x y] unat_eq_0 intro!: cp_out_mono div_le_mono fee_in_mono)
qed

section \<open>Properties\<close>

text \<open>
  C26. A constant-product quote leaves the pool no worse off: the output fits in the reserve, the
  product of the reserves does not decrease, and one unit more would exceed what the input, net of
  the fee, pays for.
\<close>

theorem uniswap_v2_constant_product:
  assumes "uniswap_v2_quote (XyConstant reserve_in reserve_out fee_bp) amount_in = Ok out"
  shows "unat out \<le> unat reserve_out \<and>
    unat reserve_in * unat reserve_out \<le> (unat reserve_in + unat amount_in) * (unat reserve_out - unat out) \<and>
    unat reserve_out * (unat amount_in * (10000 - unat fee_bp)) <
      (unat reserve_in * 10000 + unat amount_in * (10000 - unat fee_bp)) * (unat out + 1)"
proof -
  let ?p = "unat reserve_in * 10000" and ?q = "unat reserve_out" and ?x = "fee_in fee_bp amount_in"
  have out: "unat out = cp_out ?p ?q ?x"
    using assms by (rule uniswap_v2_quote_Ok) simp
  have pos: "0 < ?p + ?x"
    using assms
    by (auto simp: uniswap_v2_quote_def Let_def checked_simps fee_in_def fee_multiplier fee_rest unat_ucast_up unat_gt_0
        simp flip: unat_gt_0 split: if_splits)
  have "?x \<le> unat amount_in * 10000"
    unfolding fee_in_def by (intro mult_left_mono) simp_all
  then have "(?p + ?x) * (?q - unat out) \<le> (?p + unat amount_in * 10000) * (?q - unat out)"
    by (intro mult_right_mono) simp_all
  then have "?p * ?q \<le> (?p + unat amount_in * 10000) * (?q - unat out)"
    using cp_product [of ?p ?q ?x] unfolding out by (rule order_trans [rotated])
  then have "10000 * (unat reserve_in * ?q) \<le> 10000 * ((unat reserve_in + unat amount_in) * (?q - unat out))"
    by (simp add: algebra_simps)
  then have product: "unat reserve_in * ?q \<le> (unat reserve_in + unat amount_in) * (?q - unat out)"
    by (simp only: mult_le_cancel1)
  have "?q * ?x < (?p + ?x) * (unat out + 1)"
    using dividend_less_times_div [OF pos, of "?q * ?x"] unfolding out cp_out_def by (simp add: algebra_simps)
  with product cp_out_le [of ?p ?q ?x] show ?thesis
    unfolding out fee_in_def by blast
qed

theorem uniswap_v2_constant_product_witness:
  "uniswap_v2_quote (XyConstant 1000000 500000 30) 1000 = Ok 498 \<and>
   1000000 * 500000 \<le> (1000000 + 1000) * (500000 - 498 :: nat)"
proof -
  have "uniswap_v2_quote (XyConstant 1000000 500000 30) 1000 = Ok 498"
    by code_simp
  with uniswap_v2_constant_product [OF this] show ?thesis
    by simp
qed

text \<open>
  A concentrated-liquidity quote is given exactly when the pool has liquidity and a price, the
  liquidity times the square-root price is below 2^160 and the denominator fits in 256 bits; it is then the
  closed form with both divisions rounded down. In particular the branch for a price that rises
  and the overflow of the last product are never taken.
\<close>

lemma concentrated_quote_exact:
  "concentrated_swap_math pool amount_in tag = Ok out \<longleftrightarrow>
   (\<exists>sp t l ts. pool = ConcentratedState sp t l ts \<and> l \<noteq> 0 \<and> sp \<noteq> 0 \<and>
     (if amount_in = 0 then out = 0
      else unat l * unat sp < 2 ^ 160 \<and> unat l * 2 ^ 96 + unat amount_in * unat sp < 2 ^ 256 \<and>
        unat out = v3_out (unat l) (unat sp) (unat amount_in)))"
  by (rule concentrated_quote_iff)

text \<open>
  The square-root price after the swap is rounded down, in favour of the trader: on a pool
  within the protocol's limits one unit in is quoted at 16777216 units out, where the exact output
  \<open>L sp\<^sup>2 a / (Q (L Q + a sp))\<close> is below one unit.
\<close>

lemma v3_quote_rounds_up:
  "uniswap_v3_quote (ConcentratedState (2 ^ 33) 0 (2 ^ 120) []) 1 = Ok 16777216 \<and>
   (2 ^ 120 * (2 ^ 33 * 2 ^ 33) * 1 :: nat) < 2 ^ 96 * (2 ^ 120 * 2 ^ 96 + 1 * 2 ^ 33)"
proof
  show "uniswap_v3_quote (ConcentratedState (2 ^ 33) 0 (2 ^ 120) []) 1 = Ok 16777216"
    unfolding uniswap_v3_quote_def concentrated_quote_iff by (simp add: v3_out_def v3_next_def)
qed simp

end
