(* ===== verification/Amm_Stable.thy ===== *)
theory Amm_Stable
  imports Amm_Quotes
begin

text \<open>
  The StableSwap solver (\<open>asset-model/transition/src/effect/amm/curve_v1.rs\<close>) and the venues that
  quote with it (\<open>curve_v1.rs\<close>, the stable arm of \<open>balancer_v2.rs\<close>, \<open>balancer_v3.rs\<close>). Both Newton
  loops run at most \<open>MAX_ITER\<close> rounds and fail after that; for the second one the failure is shown
  to be unreachable and its result to be the root of the pool equation up to one unit.
\<close>

section \<open>The invariant\<close>

definition MAX_ITER :: nat where
  "MAX_ITER = 255"

definition n_pow_n :: "string \<Rightarrow> nat \<Rightarrow> u256 reducer_result" where
  "n_pow_n msg n = try_fold (\<lambda>acc _. checked_mul_or msg acc (of_nat n)) 1 [0..<n]"

definition d_p_step :: "u256 \<Rightarrow> u256 \<Rightarrow> u256 \<Rightarrow> u256 \<Rightarrow> u256 reducer_result" where
  "d_p_step n d d_p x =
     (if x = 0 then Err (Invariant (Text ''curve_v1 D: zero balance''))
      else
        bind_result (checked_mul_or ''curve_v1 D: x*n overflow'' x n) (\<lambda>denom.
        bind_result (checked_mul_or ''curve_v1 D: D_P*D overflow'' d_p d) (\<lambda>v. Ok (v div denom))))"

definition d_step :: "u256 list \<Rightarrow> u256 \<Rightarrow> u256 \<Rightarrow> u256 \<Rightarrow> u256 \<Rightarrow> u256 reducer_result" where
  "d_step balances n s ann d =
     bind_result (try_fold (d_p_step n d) d balances) (\<lambda>d_p.
     bind_result (checked_mul_or ''curve_v1 D: Ann*S overflow'' ann s) (\<lambda>ann_s.
     bind_result (checked_mul_or ''curve_v1 D: n*D_P overflow'' n d_p) (\<lambda>n_dp.
     bind_result (checked_add_or ''curve_v1 D: num_pre overflow'' ann_s n_dp) (\<lambda>num_pre.
     bind_result (checked_mul_or ''curve_v1 D: numerator overflow'' num_pre d) (\<lambda>num.
     bind_result (checked_sub_or ''curve_v1 D: (Ann-1) underflow'' ann 1) (\<lambda>ann_minus_one.
     bind_result (checked_mul_or ''curve_v1 D: (Ann-1)*D overflow'' ann_minus_one d) (\<lambda>term_a.
     bind_result (checked_add_or ''curve_v1 D: (n+1) overflow'' n 1) (\<lambda>n_plus_one.
     bind_result (checked_mul_or ''curve_v1 D: (n+1)*D_P overflow'' n_plus_one d_p) (\<lambda>term_b.
     bind_result (checked_add_or ''curve_v1 D: denominator overflow'' term_a term_b) (\<lambda>denom.
       if denom = 0 then Err (Invariant (Text ''curve_v1 D: zero denominator''))
       else Ok (num div denom)))))))))))"

text \<open>The \<open>for _ in 0..MAX_ITER\<close> loop of both solvers: stop when two iterates differ by at most one.\<close>

fun newton :: "string \<Rightarrow> ('a::len word \<Rightarrow> 'a word reducer_result) \<Rightarrow> nat \<Rightarrow> 'a word \<Rightarrow> 'a word reducer_result" where
  "newton msg step 0 x = Err (Invariant (Text msg))"
| "newton msg step (Suc k) x =
     bind_result (step x) (\<lambda>x'. if abs_diff_u x' x \<le> 1 then Ok x' else newton msg step k x')"

definition compute_d :: "u256 list \<Rightarrow> u32 \<Rightarrow> u256 reducer_result" where
  "compute_d balances a =
     (if 2 ^ 32 \<le> int (length balances) then Err (Invariant (Text ''curve_v1 D: too many coins''))
      else if length balances = 0 then Err (Invariant (Text ''curve_v1 D: empty balances''))
      else
        bind_result (try_fold (checked_add_or ''curve_v1 D: S overflow'') 0 balances) (\<lambda>s.
        if s = 0 then Ok 0
        else
          bind_result (n_pow_n ''curve_v1 D: n^n overflow'' (length balances)) (\<lambda>npn.
          bind_result (checked_mul_or ''curve_v1 D: Ann overflow'' (ucast a) npn) (\<lambda>ann.
            newton ''curve_v1 D: newton diverged'' (d_step balances (of_nat (length balances)) s ann) MAX_ITER s))))"

section \<open>The balance after a trade\<close>

definition y_coin_step ::
  "nat \<Rightarrow> nat \<Rightarrow> u256 \<Rightarrow> u256 \<Rightarrow> u256 \<Rightarrow> u256 \<times> u256 \<Rightarrow> nat \<times> u256 \<Rightarrow> (u256 \<times> u256) reducer_result" where
  "y_coin_step i j new_x_i n d acc entry =
     (let (s_prime, c) = acc; (k, b_k) = entry in
      if k = j then Ok (s_prime, c)
      else
        let x_k = (if k = i then new_x_i else b_k) in
        if x_k = 0 then Err (Invariant (Text ''curve_v1 y: zero x_k''))
        else
          bind_result (checked_add_or ''curve_v1 y: S' overflow'' s_prime x_k) (\<lambda>s_prime'.
          bind_result (checked_mul_or ''curve_v1 y: x_k*n overflow'' x_k n) (\<lambda>denom.
          bind_result (checked_mul_or ''curve_v1 y: c*D overflow'' c d) (\<lambda>c'. Ok (s_prime', c' div denom)))))"

text \<open>The coefficients \<open>c\<close> and \<open>b\<close> of the pool equation \<open>y\<^sup>2 + (b - D) y = c\<close>.\<close>

definition y_coeffs ::
  "u256 list \<Rightarrow> nat \<Rightarrow> nat \<Rightarrow> u256 \<Rightarrow> u32 \<Rightarrow> u256 \<Rightarrow> (u256 \<times> u256) reducer_result" where
  "y_coeffs balances i j new_x_i a d =
     bind_result (n_pow_n ''curve_v1 y: n^n overflow'' (length balances)) (\<lambda>npn.
     bind_result (checked_mul_or ''curve_v1 y: Ann overflow'' (ucast a) npn) (\<lambda>ann.
     if ann = 0 then Err (Invariant (Text ''curve_v1 y: zero Ann''))
     else
       let n = of_nat (length balances) in
       bind_result (try_fold (y_coin_step i j new_x_i n d) (0, d) (enumerate 0 balances)) (\<lambda>(s_prime, c).
       bind_result (checked_mul_or ''curve_v1 y: Ann*n overflow'' ann n) (\<lambda>denom_final.
       bind_result (checked_mul_or ''curve_v1 y: c*D overflow'' c d) (\<lambda>c_d.
       bind_result (checked_add_or ''curve_v1 y: b overflow'' s_prime (d div ann)) (\<lambda>b.
         Ok (c_d div denom_final, b)))))))"

definition y_step :: "u256 \<Rightarrow> u256 \<Rightarrow> u256 \<Rightarrow> u256 \<Rightarrow> u256 reducer_result" where
  "y_step c b d y =
     bind_result (checked_mul_or (''curve_v1 y: y'' @ [CHR 0xC2, CHR 0xB2] @ '' overflow'') y y) (\<lambda>y_sq.
     bind_result (checked_add_or ''curve_v1 y: num overflow'' y_sq c) (\<lambda>num.
     bind_result (checked_mul_or ''curve_v1 y: 2y overflow'' y 2) (\<lambda>two_y.
     bind_result (checked_add_or ''curve_v1 y: 2y+b overflow'' two_y b) (\<lambda>two_y_plus_b.
     bind_result (checked_sub_or ''curve_v1 y: 2y+b-D underflow'' two_y_plus_b d) (\<lambda>denom.
       if denom = 0 then Err (Invariant (Text ''curve_v1 y: zero denominator''))
       else Ok (num div denom))))))"

definition compute_y ::
  "u256 list \<Rightarrow> nat \<Rightarrow> nat \<Rightarrow> u256 \<Rightarrow> u32 \<Rightarrow> u256 \<Rightarrow> u256 reducer_result" where
  "compute_y balances i j new_x_i a d =
     (if 2 ^ 32 \<le> int (length balances) then Err (Invariant (Text ''curve_v1 y: too many coins''))
      else if length balances \<le> i \<or> length balances \<le> j \<or> i = j
      then Err (Invariant (Text (''curve_v1 y: bad indices (i='' @ dec_string i @ '', j='' @ dec_string j @
        '', n='' @ dec_string (length balances) @ '')'')))
      else
        bind_result (y_coeffs balances i j new_x_i a d) (\<lambda>(c, b).
          newton ''curve_v1 y: newton diverged'' (y_step c b d) MAX_ITER d))"

section \<open>Quotes\<close>

definition curve_v1_quote :: "pool_state \<Rightarrow> u256 \<Rightarrow> u256 reducer_result" where
  "curve_v1_quote pool amount_in =
     (case pool of
        StableV1 balances a fee_bp \<Rightarrow>
          if length balances < 2
          then Err (Invariant (Text (''curve_v1 needs >= 2 coins, got '' @ dec_string (length balances))))
          else if 10000 \<le> fee_bp
          then Err (Invariant (Text (''curve_v1 fee_bp '' @ dec_word fee_bp @ '' out of range (must be < 10000)'')))
          else if amount_in = 0 then Ok 0
          else
            bind_result (compute_d balances a) (\<lambda>d.
            bind_result (checked_add_or ''curve_v1: x_i + amount_in overflow'' (balances ! 0) amount_in) (\<lambda>new_x_i.
            bind_result (compute_y balances 0 1 new_x_i a d) (\<lambda>new_y.
            bind_result (checked_sub_or ''curve_v1: new_y < 1 (underflow)'' new_y 1) (\<lambda>new_y_minus_one.
            bind_result (checked_sub_or ''curve_v1: balance[j] < new_y (no out)'' (balances ! 1) new_y_minus_one) (\<lambda>dy_pre_fee.
            bind_result (checked_mul_or ''curve_v1: fee numerator overflow'' dy_pre_fee (ucast fee_bp)) (\<lambda>fee_num.
              checked_sub_or ''curve_v1: dy - fee underflow'' dy_pre_fee (fee_num div 10000)))))))
      | _ \<Rightarrow> Err (Invariant (Text ''non-StableV1 pool_state for curve_v1 swap'')))"

definition STABLE_I :: nat where
  "STABLE_I = 0"

definition STABLE_J :: nat where
  "STABLE_J = 1"

definition quote_stable :: "u256 list \<Rightarrow> u32 \<Rightarrow> u32 \<Rightarrow> u256 \<Rightarrow> u256 reducer_result" where
  "quote_stable balances amp fee_bp amount_in =
     (if length balances < 2
      then Err (Invariant (Text (''balancer_v2 stable: needs >= 2 coins, got '' @ dec_string (length balances))))
      else if 10000 \<le> fee_bp
      then Err (Invariant (Text (''balancer_v2 stable fee_bp '' @ dec_word fee_bp @ '' out of range (must be < 10000)'')))
      else
        let fee_multiplier = ucast (10000 - fee_bp) in
        bind_result (checked_mul_or ''balancer_v2 stable: in-fee overflow'' amount_in fee_multiplier) (\<lambda>in_fee.
        let amount_in_after_fee = in_fee div 10000 in
        bind_result (compute_d balances amp) (\<lambda>d.
        bind_result (checked_add_or ''balancer_v2 stable: x_i + in overflow'' (balances ! STABLE_I) amount_in_after_fee) (\<lambda>new_x_i.
        bind_result (compute_y balances STABLE_I STABLE_J new_x_i amp d) (\<lambda>new_y.
        bind_result (checked_sub_or ''balancer_v2 stable: new_y < 1 underflow'' new_y 1) (\<lambda>new_y_minus_one.
          checked_sub_or ''balancer_v2 stable: bal[j] < new_y'' (balances ! STABLE_J) new_y_minus_one))))))"

definition balancer_v2_quote :: "pool_state \<Rightarrow> u256 \<Rightarrow> u256 reducer_result" where
  "balancer_v2_quote pool amount_in =
     (if amount_in = 0 then Ok 0
      else
        case pool of
          WeightedState balances weights fee_bp \<Rightarrow> quote_weighted balances weights fee_bp amount_in
        | StableState balances amp fee_bp \<Rightarrow> quote_stable balances amp fee_bp amount_in
        | _ \<Rightarrow> Err (Invariant (Text ''balancer_v2: only Weighted / Stable PoolState are wired today'')))"

definition balancer_v3_quote :: "pool_state \<Rightarrow> u256 \<Rightarrow> u256 reducer_result" where
  "balancer_v3_quote pool amount_in = balancer_v2_quote pool amount_in"

section \<open>One Newton round\<close>

text \<open>
  For \<open>c \<ge> 0\<close> the larger root of \<open>y\<^sup>2 + B y = c\<close>, and what a rounded-down Newton round from \<open>y\<close>
  does to the distance from it.
\<close>

definition quad_root :: "real \<Rightarrow> real \<Rightarrow> real" where
  "quad_root B c = (sqrt (B * B + 4 * c) - B) / 2"

lemma root_facts:
  assumes "0 \<le> c"
  shows "quad_root B c * quad_root B c + B * quad_root B c = c" and "0 \<le> quad_root B c" and "0 \<le> 2 * quad_root B c + B"
    and "0 \<le> quad_root B c + B"
proof -
  let ?s = "sqrt (B * B + 4 * c)"
  have sq: "?s * ?s = B * B + 4 * c"
    using assms by (simp add: real_sqrt_mult_self)
  have "\<bar>B\<bar> = sqrt (B * B)"
    by simp
  also have "\<dots> \<le> ?s"
    using assms by (intro real_sqrt_le_mono) simp
  finally have abs: "\<bar>B\<bar> \<le> ?s" .
  show "quad_root B c * quad_root B c + B * quad_root B c = c"
    unfolding quad_root_def using sq by (simp add: field_simps)
  show "0 \<le> quad_root B c" "0 \<le> quad_root B c + B"
    unfolding quad_root_def using abs by (simp_all add: field_simps)
  show "0 \<le> 2 * quad_root B c + B"
    unfolding quad_root_def using assms by (simp add: diff_divide_distrib)
qed

lemma newton_distance:
  assumes "0 \<le> c" and "0 < 2 * y + B"
  shows "(y * y + c) / (2 * y + B) - quad_root B c = (y - quad_root B c) * (y - quad_root B c) / (2 * y + B)"
  using assms(2) root_facts(1) [OF assms(1), of B] by (simp add: field_simps)

lemma nat_div_real:
  assumes "0 < (m :: nat)"
  shows "real (n div m) \<le> real n / real m" and "real n / real m < real (n div m) + 1"
proof -
  have "real m * real (n div m) \<le> real n"
    unfolding of_nat_mult [symmetric] of_nat_le_iff by (rule times_div_less_eq_dividend)
  then show "real (n div m) \<le> real n / real m"
    using assms by (simp add: pos_le_divide_eq mult.commute)
  have "n < m * (n div m) + m"
    using dividend_less_times_div [OF assms, of n] by (simp add: add.commute)
  then have "real n < real m * real (n div m) + real m"
    unfolding of_nat_mult [symmetric] of_nat_add [symmetric] of_nat_less_iff .
  then show "real n / real m < real (n div m) + 1"
    using assms by (simp add: pos_divide_less_eq algebra_simps)
qed

text \<open>The integer round \<open>y' = (y\<^sup>2 + c) div (2 y + b - d)\<close>.\<close>

lemma int_round:
  assumes den: "d < 2 * y + b" and y': "y' = (y * y + c) div (2 * y + b - (d :: nat))"
  defines "r \<equiv> quad_root (real b - real d) (real c)"
  shows "r - 1 < real y'" and "r \<le> real y \<Longrightarrow> real y' - r \<le> (real y - r) / 2"
    and "r - 1 < real y \<Longrightarrow> real y \<le> r \<Longrightarrow> real y' < r + 1"
proof -
  let ?B = "real b - real d" and ?N = "(real y * real y + real c) / (2 * real y + (real b - real d))"
  have den_real: "real (2 * y + b - d) = 2 * real y + ?B" and den_pos: "1 \<le> 2 * real y + ?B"
    using den by (simp_all add: of_nat_diff)
  have N: "real y' \<le> ?N" "?N < real y' + 1"
    using nat_div_real [of "2 * y + b - d" "y * y + c"] den unfolding y' den_real by simp_all
  have dist: "?N - r = (real y - r) * (real y - r) / (2 * real y + ?B)"
    unfolding r_def using den_pos by (intro newton_distance) simp_all
  also have "\<dots> \<ge> 0"
    using den_pos by simp
  finally show "r - 1 < real y'"
    using N(2) by linarith
  have slope: "0 \<le> 2 * r + ?B"
    unfolding r_def by (rule root_facts) simp
  show "real y' - r \<le> (real y - r) / 2" if "r \<le> real y"
  proof -
    have "(real y - r) * (2 * (real y - r)) \<le> (real y - r) * (2 * real y + ?B)"
      using that slope by (intro mult_left_mono) simp_all
    then have "(real y - r) * (real y - r) / (2 * real y + ?B) \<le> (real y - r) / 2"
      using den_pos by (simp add: field_simps)
    then show ?thesis
      using N(1) dist by linarith
  qed
  show "real y' < r + 1" if "r - 1 < real y" "real y \<le> r"
  proof -
    have "(r - real y) * (r - real y) < 1 * 1"
      using that by (intro mult_strict_mono) linarith+
    then have "(real y - r) * (real y - r) < 1"
      by (simp add: algebra_simps)
    then have "(real y - r) * (real y - r) / (2 * real y + ?B) < 1"
      using den_pos by (simp add: divide_less_eq)
    then show ?thesis
      using N(1) dist by linarith
  qed
qed

section \<open>Convergence\<close>

lemma y_step_Ok:
  assumes "y_step c b d y = Ok y'"
  shows "unat d < 2 * unat y + unat b"
    and "unat y' = (unat y * unat y + unat c) div (2 * unat y + unat b - unat d)"
    and "unat y * unat y < 2 ^ 256"
proof -
  obtain u v w z where "unat (u :: u256) = unat y * unat y" "unat (v :: u256) = unat u + unat c"
    "unat (w :: u256) = unat y * 2 + unat b" "unat d \<le> unat w" "unat (z :: u256) = unat w - unat d" "z \<noteq> 0"
    "y' = v div z"
    using assms
    by (auto simp: y_step_def checked_mul_or_Ok checked_add_or_Ok checked_sub_or_diff split: if_splits)
  then show "unat d < 2 * unat y + unat b"
    "unat y' = (unat y * unat y + unat c) div (2 * unat y + unat b - unat d)" "unat y * unat y < 2 ^ 256"
    using unat_fits [of u] by (simp_all add: unat_div_distrib mult.commute unat_eq_0)
      (metis le_neq_implies_less diff_self_eq_0 unat_eq_0)
qed

lemma y_step_Err:
  assumes "y_step c b d y = Err e"
  shows "e \<noteq> Invariant (Text ''curve_v1 y: newton diverged'')"
  using assms by (auto simp: y_step_def bind_result_eq_Err dest!: checked_or_Err split: if_splits)

text \<open>The root of the pool equation of \<open>y_coeffs\<close>.\<close>

abbreviation y_root :: "u256 \<Rightarrow> u256 \<Rightarrow> u256 \<Rightarrow> real" where
  "y_root c b d \<equiv> quad_root (real (unat b) - real (unat d)) (real (unat c))"

lemma y_root_nonneg: "0 \<le> y_root c b d"
  by (rule root_facts) (rule of_nat_0_le_iff)

lemma half_less: "(u :: real) - r \<le> (v - r) / 2 \<Longrightarrow> v - r < 2 * p \<Longrightarrow> u - r < p"
  by argo

lemma y_round:
  assumes "y_step c b d y = Ok y'"
  shows "y_root c b d - 1 < real (unat y')"
    and "y_root c b d \<le> real (unat y) \<Longrightarrow> real (unat y') - y_root c b d \<le> (real (unat y) - y_root c b d) / 2"
    and "y_root c b d - 1 < real (unat y) \<Longrightarrow> real (unat y) \<le> y_root c b d \<Longrightarrow> real (unat y') < y_root c b d + 1"
  using int_round [OF y_step_Ok(1) [OF assms] y_step_Ok(2) [OF assms]] by blast+

text \<open>Within one of the root, the next iterate is too, so the loop stops.\<close>

lemma newton_in_zone:
  assumes "y_root c b d - 1 < real (unat y)" and "real (unat y) < y_root c b d + 1"
    and "y_step c b d y = Ok y'"
  shows "y_root c b d - 1 < real (unat y')" and "real (unat y') < y_root c b d + 1" and "abs_diff_u y' y \<le> 1"
proof -
  show low: "y_root c b d - 1 < real (unat y')"
    by (rule y_round(1) [OF assms(3)])
  show high: "real (unat y') < y_root c b d + 1"
  proof (cases "real (unat y) \<le> y_root c b d")
    case True
    then show ?thesis
      by (rule y_round(3) [OF assms(3,1)])
  next
    case False
    then have "real (unat y') - y_root c b d \<le> (real (unat y) - y_root c b d) / 2"
      by (intro y_round(2) [OF assms(3)]) linarith
    from half_less [OF this, of 1] show ?thesis
      using assms(2) by linarith
  qed
  have "real (unat y') < real (unat y) + 2" "real (unat y) < real (unat y') + 2"
    using assms low high by linarith+
  then have "unat y' < unat y + 2" "unat y < unat y' + 2"
    by linarith+
  then show "abs_diff_u y' y \<le> 1"
    by (simp add: abs_diff_u_le_1)
qed

lemma newton_halves:
  assumes "y_root c b d - 1 < real (unat y)" and "real (unat y) - y_root c b d < 2 ^ m" and "m < k"
  shows "newton ''curve_v1 y: newton diverged'' (y_step c b d) k y \<noteq> Err (Invariant (Text ''curve_v1 y: newton diverged''))"
  using assms
proof (induction m arbitrary: k y)
  case 0
  then obtain j where k: "k = Suc j"
    by (cases k) auto
  have zone: "real (unat y) < y_root c b d + 1"
    using 0(2) unfolding power_0 by linarith
  show ?case
  proof (cases "y_step c b d y")
    case (Inl e)
    then show ?thesis
      unfolding k using y_step_Err [OF Inl] by simp
  next
    case (Inr y')
    then show ?thesis
      unfolding k using newton_in_zone(3) [OF 0(1) zone Inr] by simp
  qed
next
  case (Suc m)
  then obtain j where k: "k = Suc j" "m < j"
    by (cases k) auto
  show ?case
  proof (cases "y_step c b d y")
    case (Inl e)
    then show ?thesis
      unfolding k using y_step_Err [OF Inl] by simp
  next
    case (Inr y')
    have "real (unat y') - y_root c b d < 2 ^ m"
    proof (cases "real (unat y) \<le> y_root c b d")
      case True
      then have "real (unat y') < y_root c b d + 1"
        by (rule y_round(3) [OF Inr Suc.prems(1)])
      moreover have "(1 :: real) \<le> 2 ^ m"
        by simp
      ultimately show ?thesis
        by linarith
    next
      case False
      then have "real (unat y') - y_root c b d \<le> (real (unat y) - y_root c b d) / 2"
        by (intro y_round(2) [OF Inr]) linarith
      then show ?thesis
        using Suc.prems(2) unfolding power_Suc by (rule half_less)
    qed
    then have "newton ''curve_v1 y: newton diverged'' (y_step c b d) j y' \<noteq> Err (Invariant (Text ''curve_v1 y: newton diverged''))"
      by (rule Suc.IH [OF y_round(1) [OF Inr] _ k(2)])
    then show ?thesis
      unfolding k using Inr by simp
  qed
qed

lemma newton_converges:
  assumes "130 \<le> k"
  shows "newton ''curve_v1 y: newton diverged'' (y_step c b d) k y \<noteq> Err (Invariant (Text ''curve_v1 y: newton diverged''))"
proof -
  obtain j where k: "k = Suc (Suc j)" "128 < Suc j"
    using assms by (intro that [of "k - 2"]) auto
  have tail: "newton ''curve_v1 y: newton diverged'' (y_step c b d) (Suc j) y' \<noteq> Err (Invariant (Text ''curve_v1 y: newton diverged''))"
    if "y_step c b d y = Ok y'" for y'
  proof (cases "y_step c b d y'")
    case (Inl e)
    then show ?thesis
      using y_step_Err [OF Inl] by simp
  next
    case (Inr y'')
    have "unat y' < 2 ^ 128"
    proof (rule ccontr)
      assume "\<not> unat y' < 2 ^ 128"
      then have "2 ^ 128 * 2 ^ 128 \<le> unat y' * unat y'"
        by (intro mult_mono) simp_all
      then show False
        using y_step_Ok(3) [OF Inr] by simp
    qed
    then have "real (unat y') < real (2 ^ 128)"
      unfolding of_nat_less_iff .
    then have "real (unat y') - y_root c b d < 2 ^ 128"
      using y_root_nonneg [of b d c] unfolding of_nat_power of_nat_numeral by linarith
    then show ?thesis
      by (rule newton_halves [OF y_round(1) [OF that] _ k(2)])
  qed
  show ?thesis
  proof (cases "y_step c b d y")
    case (Inl e)
    then show ?thesis
      unfolding k using y_step_Err [OF Inl] by simp
  next
    case (Inr y')
    then show ?thesis
      unfolding k using tail [OF Inr] by (simp del: newton.simps(2) add: newton.simps(2) [of _ _ "Suc j"])
  qed
qed

lemma try_fold_Err: "try_fold f s xs = Err e \<Longrightarrow> \<exists>s x. x \<in> set xs \<and> f s x = Err e"
  by (induction xs arbitrary: s) (fastforce simp: bind_result_eq_Err)+

lemma n_pow_n_Err: "n_pow_n msg n = Err e \<Longrightarrow> e = Invariant (Text msg)"
  unfolding n_pow_n_def by (auto dest!: try_fold_Err checked_or_Err)

lemma y_coin_step_Err:
  "y_coin_step i j x n d acc entry = Err e \<Longrightarrow> e \<noteq> Invariant (Text ''curve_v1 y: newton diverged'')"
  by (auto simp: y_coin_step_def Let_def bind_result_eq_Err dest!: checked_or_Err split: if_splits prod.splits)

lemma y_coeffs_Err:
  "y_coeffs bs i j x a d = Err e \<Longrightarrow> e \<noteq> Invariant (Text ''curve_v1 y: newton diverged'')"
  by (auto simp: y_coeffs_def Let_def bind_result_eq_Err dest!: checked_or_Err n_pow_n_Err try_fold_Err
      split: if_splits prod.splits dest: y_coin_step_Err)

section \<open>Accuracy\<close>

lemma newton_Ok:
  "newton msg step k x = Ok y \<Longrightarrow> \<exists>x'. step x' = Ok y \<and> abs_diff_u y x' \<le> 1"
  by (induction k arbitrary: x) (auto split: if_splits)

lemma last_round:
  assumes "y_step c b d y = Ok y'" and "abs_diff_u y' y \<le> 1"
  shows "real (unat y') \<le> y_root c b d + 1"
proof -
  have near: "real (unat y') \<le> real (unat y) + 1" "real (unat y) \<le> real (unat y') + 1"
    using assms(2) unfolding abs_diff_u_le_1 by linarith+
  show ?thesis
  proof (cases "real (unat y) \<le> y_root c b d")
    case True
    then show ?thesis
      using near(1) by argo
  next
    case False
    then have "real (unat y') - y_root c b d \<le> (real (unat y) - y_root c b d) / 2"
      by (intro y_round(2) [OF assms(1)]) argo
    then show ?thesis
      using near(2) by argo
  qed
qed

text \<open>The pool equation: its left side minus its right side at \<open>y\<close>.\<close>

definition stable_poly :: "u256 \<Rightarrow> u256 \<Rightarrow> u256 \<Rightarrow> int \<Rightarrow> int" where
  "stable_poly c b d y = y * y + (uint b - uint d) * y - uint c"

lemma stable_poly_real:
  "real_of_int (stable_poly c b d y) =
   real_of_int y * real_of_int y + (real (unat b) - real (unat d)) * real_of_int y - real (unat c)"
  by (simp add: stable_poly_def)

lemma poly_pos_above:
  assumes "quad_root B c < t" and "0 \<le> (c :: real)"
  shows "0 < t * t + B * t - c"
proof -
  have "quad_root B c * (quad_root B c + B) < t * (t + B)"
    using assms root_facts [OF assms(2), of B] by (intro mult_strict_mono') linarith+
  then show ?thesis
    using root_facts(1) [OF assms(2), of B] by (simp add: algebra_simps)
qed

lemma poly_neg_below:
  assumes "0 \<le> t" and "t \<le> quad_root B c" and "0 \<le> (c :: real)"
  shows "t * t + B * t - c \<le> 0"
proof (cases "0 \<le> t + B")
  case True
  then have "t * (t + B) \<le> quad_root B c * (quad_root B c + B)"
    using assms by (intro mult_mono) linarith+
  then show ?thesis
    using root_facts(1) [OF assms(3), of B] by (simp add: algebra_simps)
next
  case False
  then have "t * (t + B) \<le> 0"
    using assms(1) by (simp add: mult_nonneg_nonpos)
  then show ?thesis
    using assms(3) by (simp add: algebra_simps)
qed

lemma newton_root:
  assumes "newton msg (y_step c b d) k x = Ok y"
  shows "0 < stable_poly c b d (uint y + 1)" and "y \<noteq> 0 \<Longrightarrow> stable_poly c b d (uint y - 1) \<le> 0"
proof -
  obtain x' where step: "y_step c b d x' = Ok y" "abs_diff_u y x' \<le> 1"
    using newton_Ok [OF assms] by blast
  have y: "real_of_int (uint y) = real (unat y)"
    by simp
  have "0 < real_of_int (stable_poly c b d (uint y + 1))"
    unfolding stable_poly_real of_int_add of_int_1 y
    using y_round(1) [OF step(1)] by (intro poly_pos_above) (argo, rule of_nat_0_le_iff)
  then show "0 < stable_poly c b d (uint y + 1)"
    by (simp only: of_int_0_less_iff)
  show "stable_poly c b d (uint y - 1) \<le> 0" if "y \<noteq> 0"
  proof -
    have "1 \<le> unat y"
      using that by (simp add: Suc_le_eq unat_gt_0)
    then have "1 \<le> real (unat y)"
      by linarith
    then have "real_of_int (stable_poly c b d (uint y - 1)) \<le> 0"
      unfolding stable_poly_real of_int_diff of_int_1 y
      using last_round [OF step] by (intro poly_neg_below) (argo, argo, rule of_nat_0_le_iff)
    then show ?thesis
      by (simp only: of_int_le_0_iff)
  qed
qed

section \<open>Quotes over the natural numbers\<close>

lemma curve_v1_quote_Ok:
  assumes "curve_v1_quote pool a = Ok out"
  obtains bs amp f where "pool = StableV1 bs amp f" and "a = 0" and "out = 0"
  | bs amp f d x y where "pool = StableV1 bs amp f" and "2 \<le> length bs" and "unat f < 10000"
    and "compute_d bs amp = Ok d" and "unat x = unat (bs ! 0) + unat a" and "compute_y bs 0 1 x amp d = Ok y"
    and "1 \<le> unat y" and "unat y - 1 \<le> unat (bs ! 1)"
    and "unat out = (unat (bs ! 1) + 1 - unat y) - (unat (bs ! 1) + 1 - unat y) * unat f div 10000"
  using assms
  by (auto simp: curve_v1_quote_def Let_def checked_mul_or_Ok checked_add_or_Ok checked_sub_or_diff unat_div_distrib
      unat_ucast_up fee_multiplier Suc_diff_le split: pool_state.splits if_splits)

lemma quote_stable_Ok:
  assumes "quote_stable bs amp f a = Ok out"
  obtains d x y where "compute_d bs amp = Ok d" and "unat x = unat (bs ! 0) + fee_in f a div 10000"
    and "compute_y bs 0 1 x amp d = Ok y" and "1 \<le> unat y" and "unat out = unat (bs ! 1) + 1 - unat y"
  using assms
  by (auto simp: quote_stable_def Let_def checked_mul_or_Ok checked_add_or_Ok checked_sub_or_diff unat_div_distrib
      unat_ucast_up fee_multiplier fee_in_def fee_rest STABLE_I_def STABLE_J_def split: if_splits)

interpretation curve: venue_quote curve_v1_quote "out_reserve pu" for pu
proof
  fix pool a out
  show "curve_v1_quote pool 0 = Ok out \<Longrightarrow> out = 0"
    by (auto simp: curve_v1_quote_def split: pool_state.splits if_splits)
  show "curve_v1_quote pool a = Ok out \<Longrightarrow> unat out \<le> out_reserve pu pool"
    by (erule curve_v1_quote_Ok) auto
qed

fun is_weighted :: "pool_state \<Rightarrow> bool" where
  "is_weighted (WeightedState _ _ _) = True"
| "is_weighted _ = False"

interpretation balancer: monotone_quote balancer_v2_quote "out_reserve pu" is_weighted for pu
proof
  fix pool a b out x y
  show "balancer_v2_quote pool 0 = Ok out \<Longrightarrow> out = 0"
    by (simp add: balancer_v2_quote_def)
  show "unat out \<le> out_reserve pu pool" if "balancer_v2_quote pool a = Ok out"
  proof (cases pool)
    case (WeightedState bs ws f)
    show ?thesis
    proof (cases "a = 0")
      case False
      with that WeightedState have "quote_weighted bs ws f a = Ok out"
        by (simp add: balancer_v2_quote_def)
      then show ?thesis
        unfolding WeightedState by (rule weighted_quote_Ok) (simp add: cp_out_le)
    qed (use that in \<open>simp add: balancer_v2_quote_def\<close>)
  next
    case (StableState bs amp f)
    show ?thesis
    proof (cases "a = 0")
      case False
      with that StableState have "quote_stable bs amp f a = Ok out"
        by (simp add: balancer_v2_quote_def)
      then show ?thesis
        unfolding StableState by (rule quote_stable_Ok) simp
    qed (use that in \<open>simp add: balancer_v2_quote_def\<close>)
  qed (use that in \<open>auto simp: balancer_v2_quote_def split: if_splits\<close>)
  show "x \<le> y" if "is_weighted pool" "balancer_v2_quote pool a = Ok x" "balancer_v2_quote pool b = Ok y" "a \<le> b"
  proof -
    from that(1) obtain bs ws f where pool: "pool = WeightedState bs ws f"
      by (cases pool) auto
    show ?thesis
    proof (cases "a = 0")
      case True
      with that(2) show ?thesis
        by (simp add: balancer_v2_quote_def)
    next
      case False
      with that(4) have "b \<noteq> 0"
        by auto
      with False that(2,3) pool have q: "quote_weighted bs ws f a = Ok x" "quote_weighted bs ws f b = Ok y"
        by (simp_all add: balancer_v2_quote_def)
      have "unat x \<le> unat y"
        using weighted_quote_Ok [OF q(1)] weighted_quote_Ok [OF q(2)] fee_in_mono [OF that(4)]
        by (metis cp_out_mono div_le_mono mult_le_mono1)
      then show ?thesis
        by (simp add: word_le_nat_alt)
    qed
  qed
qed

interpretation balancer3: monotone_quote balancer_v3_quote "out_reserve pu" is_weighted for pu
  unfolding balancer_v3_quote_def by (rule balancer.monotone_quote_axioms)

section \<open>Properties\<close>

text \<open>
  C11. The Newton loop for the balance after a trade never runs out of rounds: whatever the pool, the
  trade and the invariant, \<open>compute_y\<close> does not fail with its divergence error.
\<close>

theorem compute_y_converges:
  "compute_y balances i j new_x_i a d \<noteq> Err (Invariant (Text ''curve_v1 y: newton diverged''))"
proof -
  have "newton ''curve_v1 y: newton diverged'' (y_step c b d) MAX_ITER d \<noteq>
      Err (Invariant (Text ''curve_v1 y: newton diverged''))" for c b
    by (rule newton_converges) (simp add: MAX_ITER_def)
  then show ?thesis
    by (auto simp: compute_y_def bind_result_eq_Err dest: y_coeffs_Err split: prod.splits)
qed

text \<open>
  C27. The balance \<open>compute_y\<close> returns is the root of the pool equation to within one unit: the
  equation has changed sign one unit above it and has not yet one unit below it.
\<close>

theorem compute_y_accurate:
  assumes "compute_y balances i j new_x_i a d = Ok y"
  shows "\<exists>c b. y_coeffs balances i j new_x_i a d = Ok (c, b) \<and>
    0 < stable_poly c b d (uint y + 1) \<and> (y = 0 \<or> stable_poly c b d (uint y - 1) \<le> 0)"
proof -
  obtain c b where "y_coeffs balances i j new_x_i a d = Ok (c, b)"
    and "newton ''curve_v1 y: newton diverged'' (y_step c b d) MAX_ITER d = Ok y"
    using assms by (auto simp: compute_y_def split: if_splits)
  with newton_root [OF this(2)] show ?thesis
    by blast
qed

theorem compute_y_accurate_witness:
  "\<exists>c b. y_coeffs [1000000, 1000000] 0 1 1000100 100 2000000 = Ok (c, b) \<and>
    0 < stable_poly c b 2000000 (999900 + 1) \<and> stable_poly c b 2000000 (999900 - 1) \<le> 0"
proof -
  have "compute_y [1000000, 1000000] 0 1 1000100 100 2000000 = Ok 999900"
    by code_simp
  from compute_y_accurate [OF this] show ?thesis
    by simp
qed

text \<open>
  On a balanced pool without a fee, selling one unit is quoted at two units: the code adds the
  rounding unit that the pool contract subtracts.
\<close>

lemma curve_v1_overquotes:
  "curve_v1_quote (StableV1 [1000000, 1000000] 100 0) 1 = Ok 2"
  by code_simp

end
