(* ===== verification/Balance_Flow.thy ===== *)
theory Balance_Flow
  imports Token_Effect
begin

text \<open>
  Sequences of balance operations. The reducers of the trading domains build a delta from several
  debits and credits; the locale \<open>balance_op\<close> is the contract of one such operation, interpreted
  on \<open>debit\<close> and \<open>credit\<close>, and gives the effect of a whole list of them on every balance.
\<close>

section \<open>Deltas under construction\<close>

text \<open>The delta built so far applies, without a gas charge, and takes the wallet to \<open>w'\<close>.\<close>

definition builds :: "position_codec \<Rightarrow> wallet_state \<Rightarrow> state_delta \<Rightarrow> wallet_state \<Rightarrow> bool" where
  "builds cd w d w' \<longleftrightarrow> apply_delta cd w d = Ok w' \<and> gas_paid d = None"

text \<open>Amounts as the signed arithmetic of the deltas reads them.\<close>

definition cap :: "u256 \<Rightarrow> int" where
  "cap x = min (uint x) i256_max"

definition capped_balance :: "wallet_state \<Rightarrow> token_key \<Rightarrow> int option" where
  "capped_balance w k = map_option cap (balance_of w k)"

lemma builds_new [simp]: "builds cd w delta_new w"
  by (simp add: builds_def)

lemma cap_bounds: "0 \<le> cap x" "cap x \<le> i256_max"
  by (simp_all add: cap_def i256_min_le)

lemma cap_signed: "sint (u256_to_signed_saturating x) = cap x"
  by (simp only: sint_u256_to_signed cap_def)

lemma cap_exact: "uint x \<le> i256_max \<Longrightarrow> cap x = uint x"
  by (simp add: cap_def)

lemma builds_push:
  assumes "builds cd w d w1" and "apply_token_change w1 tc = Ok w2"
  shows "builds cd w (push_token tc d) w2"
  using assms apply_push_token [of d cd w tc w2] by (auto simp: builds_def)

lemma balance_change_step:
  assumes "balance_of w1 k = Some b" and "0 \<le> cap b + sint x"
  shows "\<exists>w2. apply_token_change w1 (BalanceDelta k x) = Ok w2 \<and>
    capped_balance w2 k = Some (min (cap b + sint x) i256_max) \<and> (\<forall>k'. k' \<noteq> k \<longrightarrow> balance_of w2 k' = balance_of w1 k') \<and>
    fmdom (ws_tokens w2) = fmdom (ws_tokens w1)"
proof -
  let ?s = "saturating_add_i (u256_to_signed_saturating b) x"
  have s: "sint ?s = min (cap b + sint x) i256_max"
    using assms(2) i256_min_le by (simp add: sint_saturating_add_i cap_signed clamp_i256_def)
  then have nonneg: "0 \<le> sint ?s"
    using assms(2) i256_min_le by simp
  then have "uint (signed_to_u256_saturating ?s) = sint ?s"
    by (simp add: signed_to_u256_saturating_def is_negative_def uint_eq_sint_nonneg)
  then have "cap (signed_to_u256_saturating ?s) = min (cap b + sint x) i256_max"
    unfolding cap_def s by simp
  moreover obtain w2 where w2: "apply_token_change w1 (BalanceDelta k x) = Ok w2"
    and "balance_of w2 k = Some (signed_to_u256_saturating ?s)"
    using assms(1) nonneg by (auto simp: apply_balance_delta_balance Let_def is_negative_def balance_of_def)
  ultimately have "capped_balance w2 k = Some (min (cap b + sint x) i256_max)"
    by (simp add: capped_balance_def)
  moreover have "\<forall>k'. k' \<noteq> k \<longrightarrow> balance_of w2 k' = balance_of w1 k'"
    using w2 apply_balance_delta_other [of w1 k x w2] by auto
  moreover have "fmdom (ws_tokens w2) = fmdom (ws_tokens w1)"
    using w2 by (auto simp: apply_balance_delta_def fmdomI elim!: update_holding_Ok)
  ultimately show ?thesis
    using w2 by blast
qed

section \<open>Operations on balances\<close>

locale balance_op =
  fixes op :: "wallet_state \<Rightarrow> state_delta \<Rightarrow> token_key \<Rightarrow> u256 \<Rightarrow> state_delta reducer_result"
    and effect :: "int \<Rightarrow> int \<Rightarrow> int"
  assumes op_step: "builds cd w d w1 \<Longrightarrow> op w d k amt = Ok d' \<Longrightarrow>
    \<exists>w2 x. builds cd w d' w2 \<and> capped_balance w1 k = Some x \<and> capped_balance w2 k = Some (effect x (cap amt)) \<and>
      0 \<le> effect x (cap amt) \<and> (\<forall>k'. k' \<noteq> k \<longrightarrow> balance_of w2 k' = balance_of w1 k') \<and>
      fmdom (ws_tokens w2) = fmdom (ws_tokens w1)"
begin

text \<open>The effect of a list of operations on the balance of \<open>k\<close>.\<close>

definition flow :: "token_key \<Rightarrow> int \<Rightarrow> (token_ref \<times> u256) list \<Rightarrow> int" where
  "flow k = foldl (\<lambda>x (t, amt). if ref_key t = k then effect x (cap amt) else x)"

lemma op_step_balances:
  assumes "builds cd w d w1" and "op w d (ref_key t) amt = Ok d'"
  shows "\<exists>w2. builds cd w d' w2 \<and> (\<forall>k. capped_balance w2 k = map_option (\<lambda>x. flow k x [(t, amt)]) (capped_balance w1 k)) \<and>
    fmdom (ws_tokens w2) = fmdom (ws_tokens w1)"
proof -
  from op_step [OF assms] obtain w2 x where "builds cd w d' w2" "capped_balance w1 (ref_key t) = Some x"
    "capped_balance w2 (ref_key t) = Some (effect x (cap amt))"
    "\<forall>k'. k' \<noteq> ref_key t \<longrightarrow> balance_of w2 k' = balance_of w1 k'" "fmdom (ws_tokens w2) = fmdom (ws_tokens w1)"
    by blast
  moreover from this(4) have "k \<noteq> ref_key t \<Longrightarrow> capped_balance w2 k = capped_balance w1 k" for k
    by (simp add: capped_balance_def)
  ultimately have "capped_balance w2 k = map_option (\<lambda>x. flow k x [(t, amt)]) (capped_balance w1 k)" for k
    by (cases "k = ref_key t") (simp_all add: flow_def option.map_ident)
  with \<open>builds cd w d' w2\<close> \<open>fmdom (ws_tokens w2) = fmdom (ws_tokens w1)\<close> show ?thesis
    by blast
qed

lemma ops_step:
  assumes "builds cd w d w1" and "try_fold (\<lambda>d (t, amt). op w d (ref_key t) amt) d xs = Ok d'"
  shows "\<exists>w2. builds cd w d' w2 \<and> (\<forall>k. capped_balance w2 k = map_option (\<lambda>x. flow k x xs) (capped_balance w1 k)) \<and>
    fmdom (ws_tokens w2) = fmdom (ws_tokens w1)"
  using assms
proof (induction xs arbitrary: d w1)
  case Nil
  then show ?case
    by (auto simp: flow_def option.map_ident)
next
  case (Cons a xs)
  obtain t amt where a: "a = (t, amt)"
    by (cases a)
  from Cons.prems(2) obtain e where e: "op w d (ref_key t) amt = Ok e"
    "try_fold (\<lambda>d (t, amt). op w d (ref_key t) amt) e xs = Ok d'"
    by (auto simp: a)
  from op_step_balances [OF Cons.prems(1) e(1)] obtain v where v: "builds cd w e v"
    "\<forall>k. capped_balance v k = map_option (\<lambda>x. flow k x [(t, amt)]) (capped_balance w1 k)"
    "fmdom (ws_tokens v) = fmdom (ws_tokens w1)"
    by blast
  from Cons.IH [OF v(1) e(2)] v(2,3) show ?case
    by (auto simp: flow_def a option.map_comp comp_def)
qed

end

interpretation debits: balance_op debit "\<lambda>x a. x - a"
proof
  fix cd w d w1 k amt d'
  assume b: "builds cd w d w1" and op: "debit w d k amt = Ok d'"
  obtain b0 where "balance_of w k = Some b0"
    using op by (rule debit_Ok_balance)
  then obtain b1 where b1: "balance_of w1 k = Some b1" "effective_signed_balance w d k = Ok (u256_to_signed_saturating b1)"
    using apply_delta_balance [of cd w d w1 k b0] b by (auto simp: builds_def)
  with op have d': "d' = push_token (BalanceDelta k (- u256_to_signed_saturating amt)) d" and le: "cap amt \<le> cap b1"
    by (auto simp: debit_eq cap_signed simp flip: cap_def split: if_splits)
  have neg: "sint (- u256_to_signed_saturating amt) = - cap amt"
    by (simp only: sint_uminus_i256 [OF u256_to_signed_bounds(1)] cap_signed)
  have "cap b1 + - cap amt \<le> i256_max"
    using cap_bounds [of b1] cap_bounds [of amt] by linarith
  then have "min (cap b1 + - cap amt) i256_max = cap b1 - cap amt"
    by simp
  then show "\<exists>w2 x. builds cd w d' w2 \<and> capped_balance w1 k = Some x \<and> capped_balance w2 k = Some (x - cap amt) \<and>
      0 \<le> x - cap amt \<and> (\<forall>k'. k' \<noteq> k \<longrightarrow> balance_of w2 k' = balance_of w1 k') \<and>
      fmdom (ws_tokens w2) = fmdom (ws_tokens w1)"
    using balance_change_step [OF b1(1), of "- u256_to_signed_saturating amt"] le b b1(1) builds_push [OF b]
    unfolding neg d' by (force simp: capped_balance_def)
qed

interpretation credits: balance_op credit "\<lambda>x a. min (x + a) i256_max"
proof
  fix cd w d w1 k amt d'
  assume b: "builds cd w d w1" and op: "credit w d k amt = Ok d'"
  obtain b0 where "balance_of w k = Some b0" and d': "d' = push_token (BalanceDelta k (u256_to_signed_saturating amt)) d"
    using op by (auto simp: credit_def balance_of_def split: if_splits) (metis as_fungible.simps(1) balance.exhaust)
  then obtain b1 where b1: "balance_of w1 k = Some b1"
    using apply_delta_balance [of cd w d w1 k b0] b by (auto simp: builds_def)
  have "0 \<le> cap b1 + cap amt"
    using cap_bounds [of b1] cap_bounds [of amt] by linarith
  then show "\<exists>w2 x. builds cd w d' w2 \<and> capped_balance w1 k = Some x \<and>
      capped_balance w2 k = Some (min (x + cap amt) i256_max) \<and> 0 \<le> min (x + cap amt) i256_max \<and>
      (\<forall>k'. k' \<noteq> k \<longrightarrow> balance_of w2 k' = balance_of w1 k') \<and> fmdom (ws_tokens w2) = fmdom (ws_tokens w1)"
    using balance_change_step [OF b1, of "u256_to_signed_saturating amt"] b1 builds_push [OF b] i256_min_le
    unfolding cap_signed d' by (force simp: capped_balance_def)
qed

text \<open>A list of debits takes the sum of its amounts.\<close>

definition total_of :: "token_key \<Rightarrow> (token_ref \<times> u256) list \<Rightarrow> int" where
  "total_of k xs = (\<Sum>(t, amt)\<leftarrow>xs. if ref_key t = k then cap amt else 0)"

lemma debits_flow: "debits.flow k x xs = x - total_of k xs"
  by (induction xs arbitrary: x) (auto simp: debits.flow_def total_of_def)

lemma total_of_nonneg: "0 \<le> total_of k xs"
  unfolding total_of_def by (rule sum_list_nonneg) (auto simp: cap_bounds)

lemma credits_flow:
  assumes "0 \<le> x" and "x \<le> i256_max"
  shows "credits.flow k x xs = min (x + total_of k xs) i256_max"
  using assms
proof (induction xs arbitrary: x)
  case (Cons a xs)
  obtain t amt where a: "a = (t, amt)"
    by (cases a)
  let ?y = "if ref_key t = k then min (x + cap amt) i256_max else x"
  have "credits.flow k x (a # xs) = credits.flow k ?y xs"
    by (simp add: credits.flow_def a)
  also have "\<dots> = min (?y + total_of k xs) i256_max"
    using Cons.prems cap_bounds [of amt] i256_min_le by (intro Cons.IH) auto
  also have "\<dots> = min (x + total_of k (a # xs)) i256_max"
    using total_of_nonneg [of k xs] by (auto simp: total_of_def a min_def)
  finally show ?case .
qed (simp add: credits.flow_def total_of_def)

lemma capped_range: "capped_balance w k = Some x \<Longrightarrow> 0 \<le> x \<and> x \<le> i256_max"
  by (auto simp: capped_balance_def cap_bounds)

lemma try_fold_gasless:
  assumes "try_fold f d xs = Ok d'" and "gas_paid d = None"
    and "\<And>d x d'. f d x = Ok d' \<Longrightarrow> gas_paid d' = gas_paid d"
  shows "gas_paid d' = None"
  by (rule try_fold_invariant [where P = "\<lambda>d. gas_paid d = None", OF assms(1,2)]) (use assms(3) in simp)

lemma credit_gas: "credit w d k amt = Ok d' \<Longrightarrow> gas_paid d' = gas_paid d"
  by (auto simp: credit_def split: if_splits)

lemma debit_gas: "debit w d k amt = Ok d' \<Longrightarrow> gas_paid d' = gas_paid d"
  by (auto dest: debit_Ok_push)

end
