(* ===== verification/Amm_Swap.thy ===== *)
theory Amm_Swap
  imports Amm_Stable Balance_Flow
begin

text \<open>
  The swap reducer (\<open>asset-model/transition/src/effect/amm/swap.rs\<close>): the walk over the paths and
  hops of a route with the venue dispatch, the slippage floor, the aggregator checks
  (\<open>aggregator.rs\<close>) and the resulting balance changes.
\<close>

section \<open>Aggregators\<close>

definition known_safe_executors :: "string \<Rightarrow> address list option" where
  "known_safe_executors key =
     (if key = ''one_inch_v6'' then Some [0x111111125421ca6dc452d289314280a0f8842a65] else None)"

fun discriminator :: "aggregator_kind \<Rightarrow> string option" where
  "discriminator OneInchV6 = Some ''one_inch_v6''"
| "discriminator _ = None"

definition PERMIT_BUNDLE_DEFAULT_TTL :: duration where
  "PERMIT_BUNDLE_DEFAULT_TTL = Duration 3600"

text \<open>The derived \<open>Debug\<close> text of an aggregator.\<close>

fun aggregator_debug :: "aggregator_kind \<Rightarrow> string" where
  "aggregator_debug OneInchV5 = ''OneInchV5''"
| "aggregator_debug OneInchV6 = ''OneInchV6''"
| "aggregator_debug ZeroExV2 = ''ZeroExV2''"
| "aggregator_debug ParaswapV5 = ''ParaswapV5''"
| "aggregator_debug ParaswapV6 = ''ParaswapV6''"
| "aggregator_debug KyberswapV2 = ''KyberswapV2''"
| "aggregator_debug Odos = ''Odos''"
| "aggregator_debug OkxAggregator = ''OkxAggregator''"
| "aggregator_debug UniswapUniversalRouter = ''UniswapUniversalRouter''"
| "aggregator_debug CowSwapSolver = ''CowSwapSolver''"
| "aggregator_debug (CustomAggregator n) = ''Custom { name: '' @ n @ '' }''"

fun is_custom_aggregator :: "aggregator_kind \<Rightarrow> bool" where
  "is_custom_aggregator (CustomAggregator _) = True"
| "is_custom_aggregator _ = False"

definition verify_executor :: "aggregator_meta \<Rightarrow> unit reducer_result" where
  "verify_executor meta =
     (case ag_executor meta of
        None \<Rightarrow> Ok ()
      | Some executor \<Rightarrow>
          if is_custom_aggregator (ag_aggregator meta) then Err (Invariant (CustomExecutor executor))
          else
            case discriminator (ag_aggregator meta) of
              None \<Rightarrow> Err (Invariant (UnknownExecutor executor (aggregator_debug (ag_aggregator meta))))
            | Some key \<Rightarrow>
                (case known_safe_executors key of
                   None \<Rightarrow> Err (Invariant (NoExecutorList (aggregator_debug (ag_aggregator meta))))
                 | Some allowed \<Rightarrow>
                     if executor \<in> set allowed then Ok ()
                     else Err (Invariant (UnknownExecutor executor (aggregator_debug (ag_aggregator meta))))))"

definition is_ascii_hexdigit :: "char \<Rightarrow> bool" where
  "is_ascii_hexdigit c \<longleftrightarrow>
     CHR ''0'' \<le> c \<and> c \<le> CHR ''9'' \<or> CHR ''a'' \<le> c \<and> c \<le> CHR ''f'' \<or> CHR ''A'' \<le> c \<and> c \<le> CHR ''F''"

definition verify_calldata_hash :: "aggregator_meta \<Rightarrow> unit reducer_result" where
  "verify_calldata_hash meta =
     (let h = ag_raw_calldata_hash meta in
      if take 2 h \<noteq> ''0x'' \<or> length h \<noteq> 66 then Err (Invariant (HashLength h))
      else if \<not> list_all is_ascii_hexdigit (drop 2 h) then Err (Invariant (HashDigit h))
      else Ok ())"

text \<open>The exact input of an exact-input swap, the spending cap of an exact-output one.\<close>

fun direction_amount_in :: "swap_direction \<Rightarrow> u256" where
  "direction_amount_in (ExactInput amount_in _) = amount_in"
| "direction_amount_in (ExactOutput max_amount_in _) = max_amount_in"

definition apply_permit_bundle ::
  "wallet_state \<Rightarrow> state_delta \<Rightarrow> eval_context \<Rightarrow> aggregator_meta \<Rightarrow> swap_action \<Rightarrow> state_delta reducer_result" where
  "apply_permit_bundle w d ctx meta action =
     (if \<not> ag_permit_bundled meta then Ok d
      else
        let token = sp_token_in (sw_params action);
            spender_addr = (case ag_executor meta of Some e \<Rightarrow> e | None \<Rightarrow> ag_router meta);
            amount = direction_amount_in (sp_direction (sw_params action));
            expires_at = time_saturating_add (ec_now ctx) PERMIT_BUNDLE_DEFAULT_TTL
        in upsert_permit2_allowance w d token spender_addr amount expires_at)"

section \<open>Routes\<close>

definition quote_hop :: "(string \<Rightarrow> u256 option) \<Rightarrow> route_hop \<Rightarrow> u256 \<Rightarrow> u256 reducer_result" where
  "quote_hop pu hop hop_in =
     (case rh_venue hop of
        UniswapV2 _ _ _ \<Rightarrow> uniswap_v2_quote (rh_pool_state hop) hop_in
      | SushiV2 _ _ \<Rightarrow> sushi_v2_quote (rh_pool_state hop) hop_in
      | UniswapV3 _ _ _ \<Rightarrow> uniswap_v3_quote (rh_pool_state hop) hop_in
      | UniswapV4 _ _ _ hooks \<Rightarrow>
          if hooks \<noteq> 0 then Err (UnsupportedProtocol ''swap'' ''uniswap_v4_with_hooks'')
          else uniswap_v4_quote (rh_pool_state hop) hop_in
      | CurveV1 _ _ _ _ \<Rightarrow> curve_v1_quote (rh_pool_state hop) hop_in
      | CurveV2 _ _ \<Rightarrow> curve_v2_quote (rh_pool_state hop) hop_in
      | BalancerV2 _ _ _ _ \<Rightarrow> balancer_v2_quote (rh_pool_state hop) hop_in
      | BalancerV3 _ _ _ \<Rightarrow> balancer_v3_quote (rh_pool_state hop) hop_in
      | TraderJoeLB _ _ _ \<Rightarrow> trader_joe_lb_quote (rh_pool_state hop) hop_in
      | MaverickV2 _ _ \<Rightarrow> maverick_v2_quote pu (rh_pool_state hop) hop_in
      | AggregatorRoute _ _ _ _ \<Rightarrow> Err (UnsupportedProtocol ''swap'' ''aggregator_route'')
      | AaveGsm _ _ \<Rightarrow> Err (UnsupportedProtocol ''swap'' ''aave_gsm''))"

definition quote_path :: "(string \<Rightarrow> u256 option) \<Rightarrow> u256 \<Rightarrow> route_path \<Rightarrow> u256 reducer_result" where
  "quote_path pu total_amount_in path =
     bind_result (checked_mul_or ''swap: path_amount_in numerator overflow'' total_amount_in (ucast (rp_share_bp path))) (\<lambda>v.
       try_fold (\<lambda>hop_in hop. quote_hop pu hop hop_in) (v div 10000) (rp_hops path))"

definition quote_route :: "(string \<Rightarrow> u256 option) \<Rightarrow> u256 \<Rightarrow> route_path list \<Rightarrow> u256 reducer_result" where
  "quote_route pu total_amount_in paths =
     try_fold (\<lambda>total_out path.
       bind_result (quote_path pu total_amount_in path) (\<lambda>hop_in. Ok (saturating_add_u total_out hop_in))) 0 paths"

definition check_slippage :: "swap_direction \<Rightarrow> u256 \<Rightarrow> unit reducer_result" where
  "check_slippage direction total_out =
     (case direction of
        ExactInput _ min_amount_out \<Rightarrow>
          if total_out < min_amount_out
          then Err (Invariant (Text (''swap slippage: out '' @ dec_word total_out @ '' < min '' @ dec_word min_amount_out)))
          else Ok ()
      | ExactOutput _ _ \<Rightarrow> Ok ())"

definition aggregator_hooks :: "swap_action \<Rightarrow> swap_route \<Rightarrow> wallet_state \<Rightarrow> eval_context \<Rightarrow> state_delta reducer_result" where
  "aggregator_hooks action route w ctx =
     (case sw_venue action of
        AggregatorRoute _ _ _ _ \<Rightarrow>
          (case sr_aggregator route of
             Some agg_meta \<Rightarrow>
               bind_result (verify_executor agg_meta) (\<lambda>_.
               bind_result (verify_calldata_hash agg_meta) (\<lambda>_.
                 if ag_permit_bundled agg_meta then apply_permit_bundle w delta_new ctx agg_meta action
                 else Ok delta_new))
           | None \<Rightarrow> Ok delta_new)
      | _ \<Rightarrow> Ok delta_new)"

definition apply_swap :: "(string \<Rightarrow> u256 option) \<Rightarrow> swap_action reducer" where
  "apply_swap pu action w ctx =
     (let route = lf_value (sl_route (sw_live_inputs action));
          params = sw_params action;
          total_amount_in = direction_amount_in (sp_direction params) in
      bind_result (quote_route pu total_amount_in (sr_paths route)) (\<lambda>total_out.
      bind_result (check_slippage (sp_direction params) total_out) (\<lambda>_.
      bind_result (aggregator_hooks action route w ctx) (\<lambda>d0.
      bind_result (debit w d0 (ref_key (sp_token_in params)) total_amount_in) (\<lambda>d1.
        case sp_token_out params of
          Some token_out \<Rightarrow> credit w d1 (ref_key token_out) total_out
        | None \<Rightarrow> Ok d1)))))"

section \<open>The dispatch keeps the contract of the venues\<close>

abbreviation hop_reserve :: "(string \<Rightarrow> u256 option) \<Rightarrow> route_hop \<Rightarrow> nat" where
  "hop_reserve pu hop \<equiv> out_reserve pu (rh_pool_state hop)"

text \<open>Hops quoted by a closed form, not by the StableSwap solver.\<close>

fun smooth_hop :: "route_hop \<Rightarrow> bool" where
  "smooth_hop hop =
     (case rh_venue hop of
        CurveV1 _ _ _ _ \<Rightarrow> False
      | BalancerV2 _ _ _ _ \<Rightarrow> is_weighted (rh_pool_state hop)
      | BalancerV3 _ _ _ \<Rightarrow> is_weighted (rh_pool_state hop)
      | _ \<Rightarrow> True)"

lemmas venue_zeros = v2.quote_zero sushi.quote_zero v3.quote_zero v4.quote_zero crypto.quote_zero curve.quote_zero
  balancer.quote_zero balancer3.quote_zero joe.quote_zero maverick.quote_zero

lemmas venue_bounds = v2.quote_bounded sushi.quote_bounded v3.quote_bounded v4.quote_bounded crypto.quote_bounded
  curve.quote_bounded balancer.quote_bounded balancer3.quote_bounded joe.quote_bounded maverick.quote_bounded

lemmas venue_monos = v2.quote_mono [OF TrueI] sushi.quote_mono [OF TrueI] v3.quote_mono [OF TrueI] v4.quote_mono [OF TrueI]
  crypto.quote_mono [OF TrueI] joe.quote_mono [OF TrueI] maverick.quote_mono [OF TrueI]

interpretation hop: monotone_quote "quote_hop pu" "hop_reserve pu" smooth_hop for pu
proof
  fix hop a b out x y
  show "quote_hop pu hop 0 = Ok out \<Longrightarrow> out = 0"
    by (auto simp: quote_hop_def dest: venue_zeros split: amm_venue.splits if_splits)
  show "quote_hop pu hop a = Ok out \<Longrightarrow> unat out \<le> hop_reserve pu hop"
    by (auto simp: quote_hop_def intro: venue_bounds split: amm_venue.splits if_splits)
  show "x \<le> y" if "smooth_hop hop" "quote_hop pu hop a = Ok x" "quote_hop pu hop b = Ok y" "a \<le> b"
    using that
    by (auto simp: quote_hop_def split: amm_venue.splits if_splits
        dest: venue_monos balancer.quote_mono balancer3.quote_mono)
qed

section \<open>Routes as sums\<close>

lemma quote_path_Ok:
  assumes "quote_path pu amt path = Ok out"
  obtains v where "unat v = unat amt * unat (rp_share_bp path)"
    and "try_fold (\<lambda>hop_in hop. quote_hop pu hop hop_in) (v div 10000) (rp_hops path) = Ok out"
  using assms by (auto simp: quote_path_def checked_mul_or_Ok unat_ucast_up)

lemma path_bounded:
  assumes "quote_path pu amt path = Ok out" and "rp_hops path \<noteq> []"
  shows "unat out \<le> hop_reserve pu (last (rp_hops path))"
  using assms(1) by (rule quote_path_Ok) (rule hop.walk_bounded [OF _ assms(2)])

lemma path_at_par:
  assumes "quote_path pu amt path = Ok out" and "rp_hops path = []"
  shows "unat out = unat amt * unat (rp_share_bp path) div 10000"
proof -
  obtain v where "unat v = unat amt * unat (rp_share_bp path)" "v div 10000 = out"
    using assms(1) by (rule quote_path_Ok) (use assms(2) in simp)
  then show ?thesis
    by (auto simp: unat_div_distrib)
qed

lemma path_mono:
  assumes "\<forall>hop\<in>set (rp_hops path). smooth_hop hop" and "a \<le> b"
    and "quote_path pu a path = Ok x" and "quote_path pu b path = Ok y"
  shows "x \<le> y"
proof -
  obtain u v where uv: "unat u = unat a * unat (rp_share_bp path)" "unat v = unat b * unat (rp_share_bp path)"
    "try_fold (\<lambda>hop_in hop. quote_hop pu hop hop_in) (u div 10000) (rp_hops path) = Ok x"
    "try_fold (\<lambda>hop_in hop. quote_hop pu hop hop_in) (v div 10000) (rp_hops path) = Ok y"
    using quote_path_Ok [OF assms(3)] quote_path_Ok [OF assms(4)] by metis
  have "unat u \<le> unat v"
    unfolding uv(1,2) using assms(2) by (intro mult_right_mono) (simp_all add: word_le_nat_alt)
  then have "u div 10000 \<le> v div 10000"
    by (simp add: word_le_nat_alt unat_div_distrib div_le_mono)
  then show ?thesis
    using hop.walk_mono [OF assms(1)] uv(3,4) by blast
qed

definition sat_sum :: "nat list \<Rightarrow> nat" where
  "sat_sum xs = min (sum_list xs) (2 ^ 256 - 1)"

lemma quote_route_from:
  "try_fold (\<lambda>total_out path. bind_result (quote_path pu amt path) (\<lambda>hop_in. Ok (saturating_add_u total_out hop_in))) t paths
     = Ok tot \<longleftrightarrow>
   (\<exists>outs. try_map (quote_path pu amt) paths = Ok outs \<and> unat tot = sat_sum (unat t # map unat outs))"
proof (induction paths arbitrary: t)
  case Nil
  have "unat t \<le> 2 ^ 256 - 1"
    using unat_fits [of t] by simp
  then show ?case
    by (auto simp: sat_sum_def word_unat_eq_iff)
next
  case (Cons path paths)
  have "unat (saturating_add_u t out) = min (unat t + unat out) (2 ^ 256 - 1)" for out
    by (simp add: unat_saturating_add_u)
  then have add: "sat_sum (unat (saturating_add_u t out) # xs) = sat_sum (unat t # unat out # xs)" for out xs
    by (simp add: sat_sum_def)
  show ?case
    by (cases "quote_path pu amt path") (auto simp: Cons.IH add)
qed

lemma quote_route_Ok:
  "quote_route pu amt paths = Ok tot \<longleftrightarrow>
   (\<exists>outs. try_map (quote_path pu amt) paths = Ok outs \<and> unat tot = sat_sum (map unat outs))"
  unfolding quote_route_def quote_route_from by (simp add: sat_sum_def)

section \<open>Effect on the wallet\<close>

fun meets_floor :: "swap_direction \<Rightarrow> u256 \<Rightarrow> bool" where
  "meets_floor (ExactInput _ min_amount_out) out \<longleftrightarrow> min_amount_out \<le> out"
| "meets_floor (ExactOutput _ _) out \<longleftrightarrow> True"

lemma check_slippage_Ok: "check_slippage dir out = Ok u \<longleftrightarrow> meets_floor dir out"
  by (cases dir) (auto simp: check_slippage_def not_less)

lemma permit_bundle_builds:
  assumes "apply_permit_bundle w delta_new ctx meta action = Ok d"
  shows "\<exists>w0. builds cd w d w0 \<and> (\<forall>k. balance_of w0 k = balance_of w k)"
proof (cases "ag_permit_bundled meta")
  case True
  with assms obtain k sp al where key: "is_erc20_key k" and d: "d = push_token (ApprovalSet k sp al) delta_new"
    by (auto simp: apply_permit_bundle_def upsert_permit2_allowance_def Let_def split: if_splits)
  from erc20_changes_apply(1) [OF key, of w sp al] obtain w0 where w0: "apply_token_change w (ApprovalSet k sp al) = Ok w0"
    by (auto simp: is_ok_iff)
  have "balance_of w0 k' = balance_of w k'" for k'
    by (rule balance_neutral_change [OF w0]) (simp add: balance_neutral_def)
  with builds_push [OF builds_new w0] show ?thesis
    unfolding d by blast
next
  case False
  with assms show ?thesis
    by (auto simp: apply_permit_bundle_def intro!: exI [of _ w])
qed

lemma aggregator_hooks_route:
  "aggregator_hooks action route w ctx =
   (if \<exists>c r h e. sw_venue action = AggregatorRoute c r h e
    then case sr_aggregator route of
        None \<Rightarrow> Ok delta_new
      | Some meta \<Rightarrow> bind_result (verify_executor meta) (\<lambda>_. bind_result (verify_calldata_hash meta) (\<lambda>_.
          apply_permit_bundle w delta_new ctx meta action))
    else Ok delta_new)"
  by (cases "sw_venue action"; cases "sr_aggregator route") (simp_all add: aggregator_hooks_def apply_permit_bundle_def)

lemma aggregator_hooks_builds:
  assumes "aggregator_hooks action route w ctx = Ok d"
  shows "\<exists>w0. builds cd w d w0 \<and> (\<forall>k. balance_of w0 k = balance_of w k)"
proof (cases "d = delta_new")
  case True
  then show ?thesis
    using builds_new by blast
next
  case False
  with assms obtain meta where "apply_permit_bundle w delta_new ctx meta action = Ok d"
    unfolding aggregator_hooks_route by (cases "sr_aggregator route") (auto split: if_splits)
  then show ?thesis
    by (rule permit_bundle_builds)
qed

abbreviation swap_amount :: "swap_action \<Rightarrow> u256" where
  "swap_amount action \<equiv> direction_amount_in (sp_direction (sw_params action))"

abbreviation swap_paths :: "swap_action \<Rightarrow> route_path list" where
  "swap_paths action \<equiv> sr_paths (lf_value (sl_route (sw_live_inputs action)))"

abbreviation swap_in :: "swap_action \<Rightarrow> token_key" where
  "swap_in action \<equiv> ref_key (sp_token_in (sw_params action))"

abbreviation swap_out :: "swap_action \<Rightarrow> token_key option" where
  "swap_out action \<equiv> map_option ref_key (sp_token_out (sw_params action))"

lemma apply_swap_Ok:
  assumes "apply_swap pu action w ctx = Ok d"
  obtains tot d0 d1 where "quote_route pu (swap_amount action) (swap_paths action) = Ok tot"
    and "meets_floor (sp_direction (sw_params action)) tot"
    and "aggregator_hooks action (lf_value (sl_route (sw_live_inputs action))) w ctx = Ok d0"
    and "debit w d0 (swap_in action) (swap_amount action) = Ok d1"
    and "case swap_out action of Some k \<Rightarrow> credit w d1 k tot = Ok d | None \<Rightarrow> d = d1"
  using assms by (auto simp: apply_swap_def Let_def check_slippage_Ok split: option.splits)

text \<open>What a swap takes from and gives to the balance of \<open>k\<close>.\<close>

definition swap_spent :: "swap_action \<Rightarrow> token_key \<Rightarrow> int" where
  "swap_spent action k = (if k = swap_in action then cap (swap_amount action) else 0)"

definition swap_received :: "swap_action \<Rightarrow> u256 \<Rightarrow> token_key \<Rightarrow> int" where
  "swap_received action tot k = (if swap_out action = Some k then cap tot else 0)"

lemma spent_capped: "capped_balance w k = Some x \<Longrightarrow> min (x - swap_spent action k) i256_max = x - swap_spent action k"
  using capped_range [of w k x] cap_bounds [of "swap_amount action"] by (auto simp: swap_spent_def)

lemma swap_received_other: "swap_out action \<noteq> Some k \<Longrightarrow> swap_received action tot k = 0"
  by (auto simp: swap_received_def)

lemma map_option_Some_cong: "(\<And>x. m = Some x \<Longrightarrow> f x = g x) \<Longrightarrow> map_option f m = map_option g m"
  by (cases m) auto

lemma swap_builds:
  assumes "apply_swap pu action w ctx = Ok d"
  shows "\<exists>tot w' x. quote_route pu (swap_amount action) (swap_paths action) = Ok tot \<and>
    meets_floor (sp_direction (sw_params action)) tot \<and> builds cd w d w' \<and>
    capped_balance w (swap_in action) = Some x \<and> cap (swap_amount action) \<le> x \<and>
    (\<forall>k. capped_balance w' k =
      map_option (\<lambda>x. min (x - swap_spent action k + swap_received action tot k) i256_max) (capped_balance w k))"
proof -
  obtain tot d0 d1 where parts: "quote_route pu (swap_amount action) (swap_paths action) = Ok tot"
    "meets_floor (sp_direction (sw_params action)) tot"
    "aggregator_hooks action (lf_value (sl_route (sw_live_inputs action))) w ctx = Ok d0"
    "debit w d0 (swap_in action) (swap_amount action) = Ok d1"
    "case swap_out action of Some k \<Rightarrow> credit w d1 k tot = Ok d | None \<Rightarrow> d = d1"
    using assms by (rule apply_swap_Ok)
  obtain w0 where w0: "builds cd w d0 w0" "\<forall>k. balance_of w0 k = balance_of w k"
    using aggregator_hooks_builds [OF parts(3)] by blast
  then have same: "capped_balance w0 k = capped_balance w k" for k
    by (simp add: capped_balance_def)
  obtain w1 x where w1: "builds cd w d1 w1" "capped_balance w (swap_in action) = Some x"
    "capped_balance w1 (swap_in action) = Some (x - cap (swap_amount action))" "cap (swap_amount action) \<le> x"
    and other1: "\<forall>k. k \<noteq> swap_in action \<longrightarrow> balance_of w1 k = balance_of w0 k"
    using debits.op_step [OF w0(1) parts(4)] same by auto
  have bal1: "capped_balance w1 k = map_option (\<lambda>x. x - swap_spent action k) (capped_balance w k)" for k
  proof (cases "k = swap_in action")
    case False
    then have "capped_balance w1 k = capped_balance w k"
      using other1 same [of k] by (simp add: capped_balance_def)
    with False show ?thesis
      by (simp add: swap_spent_def option.map_ident)
  qed (simp add: w1(2,3) swap_spent_def)
  have kept: "capped_balance w1 k =
      map_option (\<lambda>x. min (x - swap_spent action k + swap_received action tot k) i256_max) (capped_balance w k)"
    if "swap_out action \<noteq> Some k" for k
    unfolding bal1 swap_received_other [OF that] by (intro map_option_Some_cong) (simp only: spent_capped add_0_right)
  show ?thesis
  proof (cases "swap_out action")
    case None
    then have "d = d1"
      using parts(5) by simp
    moreover have "\<forall>k. capped_balance w1 k =
        map_option (\<lambda>x. min (x - swap_spent action k + swap_received action tot k) i256_max) (capped_balance w k)"
      using kept None by simp
    ultimately show ?thesis
      using parts(1,2) w1 by blast
  next
    case (Some ko)
    with parts(5) have "credit w d1 ko tot = Ok d"
      by simp
    from credits.op_step [OF w1(1) this] obtain w2 z where w2: "builds cd w d w2" "capped_balance w1 ko = Some z"
      "capped_balance w2 ko = Some (min (z + cap tot) i256_max)" "\<forall>k. k \<noteq> ko \<longrightarrow> balance_of w2 k = balance_of w1 k"
      by blast
    have "capped_balance w2 k =
      map_option (\<lambda>x. min (x - swap_spent action k + swap_received action tot k) i256_max) (capped_balance w k)" for k
    proof (cases "k = ko")
      case True
      then show ?thesis
        using w2(2,3) Some unfolding bal1 by (auto simp: swap_received_def)
    next
      case False
      with w2(4) have "capped_balance w2 k = capped_balance w1 k"
        by (simp add: capped_balance_def)
      moreover have "swap_out action \<noteq> Some k"
        unfolding Some using False by simp
      ultimately show ?thesis
        using kept [of k] by metis
    qed
    with w2(1) parts(1,2) w1(2,4) show ?thesis
      by blast
  qed
qed

text \<open>A swap of 100 USDC for ether over one Uniswap V2 pool, for the witnesses.\<close>

definition sample_hop :: route_hop where
  "sample_hop =
     \<lparr>rh_token_in = TokenRef usdc_key, rh_token_out = TokenRef eth_key, rh_venue = UniswapV2 ethereum_mainnet 0xB1 0xB2,
      rh_pool_state = XyConstant 1000000 50000 30, rh_effective_fee_bp = 30, rh_estimated_out = 4\<rparr>"

definition sample_path :: route_path where
  "sample_path = \<lparr>rp_share_bp = 10000, rp_hops = [sample_hop], rp_estimated_out = 4\<rparr>"

definition sample_meta :: aggregator_meta where
  "sample_meta =
     \<lparr>ag_aggregator = OneInchV6, ag_router = 0xB3, ag_executor = Some 0x111111125421ca6dc452d289314280a0f8842a65,
      ag_raw_calldata_hash = ''0x'' @ replicate 64 (CHR ''a''), ag_permit_bundled = True, ag_referrer = None,
      ag_referrer_fee_bp = 0\<rparr>"

definition sample_swap :: swap_action where
  "sample_swap =
     \<lparr>sw_venue = AggregatorRoute ethereum_mainnet 0xB3 ''0x00'' None,
      sw_params = \<lparr>sp_token_in = TokenRef usdc_key, sp_token_out = Some (TokenRef eth_key),
        sp_direction = ExactInput 100 4, sp_recipient = 0xC0, sp_slippage_bp = 50\<rparr>,
      sw_live_inputs = \<lparr>
        sl_route = live_field_new \<lparr>sr_paths = [sample_path], sr_aggregator = Some sample_meta\<rparr> UserSupplied (Time 1),
        sl_expected_amount_out = live_field_new 4 UserSupplied (Time 1),
        sl_price_impact_bp = live_field_new 0 UserSupplied (Time 1),
        sl_gas_estimate = live_field_new 0 UserSupplied (Time 1)\<rparr>\<rparr>"

lemma sample_swap_Ok:
  obtains d where "apply_swap (\<lambda>_. None) sample_swap sample_wallet sample_ctx = Ok d"
proof -
  have "is_ok (apply_swap (\<lambda>_. None) sample_swap sample_wallet sample_ctx)"
    by code_simp
  then show ?thesis
    using that by (auto simp: is_ok_iff)
qed

section \<open>Properties\<close>



text \<open>
  C12. Whatever venues a route mixes, its output is the saturating sum of the outputs of its paths and at most the sum of
  their limits: the output reserve recorded for the last pool of a path, and for a path without hops, which is
  quoted at par, its share of the input.
\<close>

theorem route_within_reserves:
  assumes "quote_route pu amount_in paths = Ok tot"
  shows "unat tot \<le> (\<Sum>path\<leftarrow>paths. if rp_hops path = [] then unat amount_in * unat (rp_share_bp path) div 10000
        else hop_reserve pu (last (rp_hops path))) \<and>
    (\<exists>outs. try_map (quote_path pu amount_in) paths = Ok outs \<and> unat tot = min (\<Sum>out\<leftarrow>outs. unat out) (2 ^ 256 - 1))"
proof -
  obtain outs where outs: "try_map (quote_path pu amount_in) paths = Ok outs" "unat tot = sat_sum (map unat outs)"
    using assms unfolding quote_route_Ok by blast
  have "(\<Sum>out\<leftarrow>outs. unat out) \<le> (\<Sum>path\<leftarrow>paths. if rp_hops path = [] then unat amount_in * unat (rp_share_bp path) div 10000
      else hop_reserve pu (last (rp_hops path)))"
    using outs(1)
  proof (induction paths arbitrary: outs)
    case (Cons path paths)
    then obtain o' os where "quote_path pu amount_in path = Ok o'" "try_map (quote_path pu amount_in) paths = Ok os"
      "outs = o' # os"
      by auto
    with Cons.IH [of os] path_bounded [of pu amount_in path o'] path_at_par [of pu amount_in path o'] show ?case
      by auto
  qed simp
  then show ?thesis
    using outs unfolding sat_sum_def by simp
qed

theorem route_within_reserves_witness:
  "quote_route (\<lambda>_. None) 100 [sample_path] = Ok 4 \<and> (4 :: nat) \<le> 50000"
proof -
  have q: "quote_route (\<lambda>_. None) 100 [sample_path] = Ok 4"
    by code_simp
  from route_within_reserves [OF q] q show ?thesis
    by (simp add: sample_path_def sample_hop_def)
qed

text \<open>
  C33. On routes whose hops are all quoted by closed forms, selling more never yields less in total.
\<close>

theorem route_monotone:
  assumes "list_all (\<lambda>path. list_all smooth_hop (rp_hops path)) paths" and "a \<le> b"
    and "quote_route pu a paths = Ok x" and "quote_route pu b paths = Ok y"
  shows "x \<le> y"
proof -
  obtain xs ys where outs: "try_map (quote_path pu a) paths = Ok xs" "unat x = sat_sum (map unat xs)"
    "try_map (quote_path pu b) paths = Ok ys" "unat y = sat_sum (map unat ys)"
    using assms(3,4) unfolding quote_route_Ok by blast
  have "(\<Sum>out\<leftarrow>xs. unat out) \<le> (\<Sum>out\<leftarrow>ys. unat out)"
    using assms(1) outs(1,3)
  proof (induction paths arbitrary: xs ys)
    case (Cons path paths)
    then obtain u us v vs where steps: "quote_path pu a path = Ok u" "try_map (quote_path pu a) paths = Ok us"
      "quote_path pu b path = Ok v" "try_map (quote_path pu b) paths = Ok vs" "xs = u # us" "ys = v # vs"
      by auto
    have "u \<le> v"
      using path_mono [OF _ assms(2) steps(1,3)] Cons.prems(1) by (simp add: list_all_iff)
    with Cons.IH [OF _ steps(2,4)] Cons.prems(1) steps(5,6) show ?case
      by (simp add: word_le_nat_alt)
  qed simp
  then show ?thesis
    using outs(2,4) by (simp add: sat_sum_def word_le_nat_alt)
qed

theorem route_monotone_witness:
  "quote_route (\<lambda>_. None) 100 [sample_path] = Ok 4 \<and> quote_route (\<lambda>_. None) 200 [sample_path] = Ok 9 \<and> (4 :: u256) \<le> 9"
proof -
  have q: "quote_route (\<lambda>_. None) 100 [sample_path] = Ok 4" "quote_route (\<lambda>_. None) 200 [sample_path] = Ok 9"
    by code_simp+
  have "list_all (\<lambda>path. list_all smooth_hop (rp_hops path)) [sample_path]" "(100 :: u256) \<le> 200"
    by (simp_all add: sample_path_def sample_hop_def)
  from route_monotone [OF this q] q show ?thesis
    by simp
qed

lemma calldata_hash_form:
  assumes "verify_calldata_hash meta = Ok ()"
  shows "\<exists>digits. ag_raw_calldata_hash meta = ''0x'' @ digits \<and> length digits = 64 \<and> list_all is_ascii_hexdigit digits"
proof -
  let ?h = "ag_raw_calldata_hash meta"
  have h: "take 2 ?h = ''0x''" "length ?h = 66" "list_all is_ascii_hexdigit (drop 2 ?h)"
    using assms by (auto simp: verify_calldata_hash_def Let_def split: if_splits)
  have "?h = ''0x'' @ drop 2 ?h"
    using append_take_drop_id [of 2 ?h] unfolding h(1) by (rule sym)
  with h(2,3) show ?thesis
    by (intro exI [of _ "drop 2 ?h"]) simp
qed



text \<open>
  A path without hops passes its share of the input on as output, in units of the bought token, so a
  route of one such path is quoted at par whatever the two tokens are.
\<close>

lemma empty_path_at_par:
  assumes "unat a * 10000 < 2 ^ 256"
  shows "quote_route pu a [\<lparr>rp_share_bp = 10000, rp_hops = [], rp_estimated_out = e\<rparr>] = Ok a"
proof -
  have ten: "unat (ucast (10000 :: u32) :: u256) = 10000"
    by (simp add: unat_ucast_up)
  have fits: "unat a * unat (ucast (10000 :: u32) :: u256) < 2 ^ LENGTH(256)"
    unfolding ten using assms by simp
  have "unat (a * ucast (10000 :: u32)) = unat a * 10000"
    using unat_mult_fits [OF fits] by (simp only: ten)
  then have "a * ucast (10000 :: u32) div 10000 = a"
    by (simp add: word_unat_eq_iff unat_div_distrib)
  moreover have "checked_mul_or m a (ucast (10000 :: u32)) = Ok (a * ucast (10000 :: u32))" for m
    by (rule checked_or_fits(1) [OF fits])
  moreover have "saturating_add_u 0 a = a"
    using unat_fits [of a] by (simp add: saturating_add_u_def)
  ultimately show ?thesis
    unfolding quote_route_def quote_path_def by simp
qed

end
