(* ===== verification/Amm_Liquidity.thy ===== *)
theory Amm_Liquidity
  imports Amm_Swap
begin

text \<open>
  Liquidity reducers (\<open>asset-model/transition/src/effect/amm\<close>: \<open>add_liquidity.rs\<close>,
  \<open>remove_liquidity.rs\<close>, \<open>collect_fees.rs\<close>). The three files carry their own copies of the venue
  tag table and of the concentrated-venue check; both are one definition here.
\<close>

unbundle bit_operations_syntax

section \<open>Venues\<close>

fun venue_tag :: "amm_venue \<Rightarrow> string" where
  "venue_tag (UniswapV2 _ _ _) = ''uniswap_v2''"
| "venue_tag (UniswapV3 _ _ _) = ''uniswap_v3''"
| "venue_tag (UniswapV4 _ _ _ _) = ''uniswap_v4''"
| "venue_tag (SushiV2 _ _) = ''sushi_v2''"
| "venue_tag (CurveV1 _ _ _ _) = ''curve_v1''"
| "venue_tag (CurveV2 _ _) = ''curve_v2''"
| "venue_tag (BalancerV2 _ _ _ _) = ''balancer_v2''"
| "venue_tag (BalancerV3 _ _ _) = ''balancer_v3''"
| "venue_tag (TraderJoeLB _ _ _) = ''trader_joe_lb''"
| "venue_tag (MaverickV2 _ _) = ''maverick_v2''"
| "venue_tag (AaveGsm _ _) = ''aave_gsm''"
| "venue_tag (AggregatorRoute _ _ _ _) = ''aggregator_route''"

fun venue_chain :: "amm_venue \<Rightarrow> chain_id" where
  "venue_chain (UniswapV2 c _ _) = c"
| "venue_chain (UniswapV3 c _ _) = c"
| "venue_chain (UniswapV4 c _ _ _) = c"
| "venue_chain (SushiV2 c _) = c"
| "venue_chain (CurveV1 c _ _ _) = c"
| "venue_chain (CurveV2 c _) = c"
| "venue_chain (BalancerV2 c _ _ _) = c"
| "venue_chain (BalancerV3 c _ _) = c"
| "venue_chain (TraderJoeLB c _ _) = c"
| "venue_chain (MaverickV2 c _) = c"
| "venue_chain (AaveGsm c _) = c"
| "venue_chain (AggregatorRoute c _ _ _) = c"

definition require_concentrated_venue :: "amm_venue \<Rightarrow> string \<Rightarrow> unit reducer_result" where
  "require_concentrated_venue venue action =
     (case venue of
        UniswapV3 _ _ _ \<Rightarrow> Ok ()
      | UniswapV4 _ _ _ _ \<Rightarrow> Ok ()
      | TraderJoeLB _ _ _ \<Rightarrow> Ok ()
      | _ \<Rightarrow> Err (UnsupportedProtocol action (venue_tag venue)))"

definition require_pooled_venue :: "amm_venue \<Rightarrow> string \<Rightarrow> unit reducer_result" where
  "require_pooled_venue venue action =
     (case venue of
        UniswapV2 _ _ _ \<Rightarrow> Ok ()
      | SushiV2 _ _ \<Rightarrow> Ok ()
      | CurveV1 _ _ _ _ \<Rightarrow> Ok ()
      | CurveV2 _ _ \<Rightarrow> Ok ()
      | BalancerV2 _ _ _ _ \<Rightarrow> Ok ()
      | BalancerV3 _ _ _ \<Rightarrow> Ok ()
      | MaverickV2 _ _ \<Rightarrow> Ok ()
      | _ \<Rightarrow> Err (UnsupportedProtocol action (venue_tag venue)))"

section \<open>LP tokens\<close>

definition hex_nibble :: "char \<Rightarrow> u8 reducer_result" where
  "hex_nibble c =
     (let b = of_char c :: u8 in
      if 0x30 \<le> b \<and> b \<le> 0x39 then Ok (b - 0x30)
      else if 0x61 \<le> b \<and> b \<le> 0x66 then Ok (b - 0x61 + 10)
      else if 0x41 \<le> b \<and> b \<le> 0x46 then Ok (b - 0x41 + 10)
      else Err (Invariant (Text (''balancer pool_id contains non-hex byte: 0x'' @ hex_fixed 2 (unat b)))))"

text \<open>\<open>Address::from([u8; 20])\<close>: the bytes, most significant first.\<close>

definition address_from_bytes :: "u8 list \<Rightarrow> address" where
  "address_from_bytes = foldl (\<lambda>acc b. acc * 256 + ucast b) 0"

definition pool_id_to_address :: "string \<Rightarrow> address reducer_result" where
  "pool_id_to_address pid =
     (let stripped = (if take 2 pid = ''0x'' then drop 2 pid else pid) in
      if length stripped < 40
      then Err (Invariant (Text (''balancer pool_id too short to extract LP address: '' @ pid)))
      else
        bind_result (try_map (\<lambda>i.
          bind_result (hex_nibble (stripped ! (i * 2))) (\<lambda>hi.
          bind_result (hex_nibble (stripped ! (i * 2 + 1))) (\<lambda>lo. Ok (push_bit 4 hi OR lo)))) [0..<20]) (\<lambda>bytes.
        Ok (address_from_bytes bytes)))"

definition pooled_lp_key :: "amm_venue \<Rightarrow> token_key reducer_result" where
  "pooled_lp_key venue =
     (case venue of
        UniswapV2 chain pool _ \<Rightarrow> Ok (TK_Erc20 chain pool)
      | SushiV2 chain pool \<Rightarrow> Ok (TK_Erc20 chain pool)
      | CurveV1 chain pool _ _ \<Rightarrow> Ok (TK_Erc20 chain pool)
      | CurveV2 chain pool \<Rightarrow> Ok (TK_Erc20 chain pool)
      | MaverickV2 chain pool \<Rightarrow> Ok (TK_Erc20 chain pool)
      | BalancerV2 chain _ pid _ \<Rightarrow> bind_result (pool_id_to_address pid) (\<lambda>a. Ok (TK_Erc20 chain a))
      | BalancerV3 chain pid _ \<Rightarrow> bind_result (pool_id_to_address pid) (\<lambda>a. Ok (TK_Erc20 chain a))
      | _ \<Rightarrow> Err (UnsupportedProtocol ''add_liquidity'' (venue_tag venue)))"

definition concentrated_underlyings :: "wallet_state \<Rightarrow> token_key \<Rightarrow> (token_ref \<times> token_ref) reducer_result" where
  "concentrated_underlyings w k =
     bind_result (ok_or (TokenNotFound k) (fmlookup (ws_tokens w) k)) (\<lambda>holding.
       case h_kind holding of
         LpShare _ underlyings _ (Concentrated _ _) \<Rightarrow>
           if length underlyings \<noteq> 2 then Err (Invariant (UnderlyingCount k (length underlyings)))
           else Ok (underlyings ! 0, underlyings ! 1)
       | _ \<Rightarrow> Err (Invariant (NotConcentratedLp k)))"

definition ensure_mint_stub :: "wallet_state \<Rightarrow> state_delta \<Rightarrow> token_key \<Rightarrow> token_kind \<Rightarrow> state_delta" where
  "ensure_mint_stub w d k kind_hint =
     (if fmlookup (ws_tokens w) k = None then push_token (Mint k kind_hint) d else d)"

definition raw_credit :: "state_delta \<Rightarrow> token_key \<Rightarrow> u256 \<Rightarrow> state_delta" where
  "raw_credit d k amount = push_token (BalanceDelta k (u256_to_signed_saturating amount)) d"

definition pooled_lp_kind_hint :: "token_ref list \<Rightarrow> token_kind" where
  "pooled_lp_kind_hint underlyings =
     LpShare \<lparr>pool_protocol = protocol_ref_new ''unknown'', pool_addr = None, pool_id = None, pool_fee_tier = None\<rparr>
       underlyings FungibleShare (Pooled None)"

section \<open>Reducers\<close>

definition debit_all :: "wallet_state \<Rightarrow> state_delta \<Rightarrow> (token_ref \<times> u256) list \<Rightarrow> state_delta reducer_result" where
  "debit_all w = try_fold (\<lambda>d (token_ref, amount). debit w d (ref_key token_ref) amount)"

definition credit_all :: "wallet_state \<Rightarrow> state_delta \<Rightarrow> (token_ref \<times> u256) list \<Rightarrow> state_delta reducer_result" where
  "credit_all w = try_fold (\<lambda>d (token_ref, amount). credit w d (ref_key token_ref) amount)"

definition credit_fees :: "wallet_state \<Rightarrow> state_delta \<Rightarrow> (token_ref \<times> u256) list \<Rightarrow> state_delta reducer_result" where
  "credit_fees w = try_fold (\<lambda>d (token_ref, amount).
     if amount \<noteq> 0 then credit w d (ref_key token_ref) amount else Ok d)"

definition apply_add_liquidity :: "add_liquidity_action reducer" where
  "apply_add_liquidity action w ctx =
     (case al_params action of
        PooledDeposit tokens min_lp_out _ \<Rightarrow>
          if tokens = [] then Err (Invariant (Text ''add_liquidity pooled: tokens list is empty''))
          else
            bind_result (debit_all w delta_new tokens) (\<lambda>d.
            bind_result (pooled_lp_key (al_venue action)) (\<lambda>lp_key.
              if fmlookup (ws_tokens w) lp_key \<noteq> None then credit w d lp_key min_lp_out
              else
                let d' = ensure_mint_stub w d lp_key (pooled_lp_kind_hint (map fst tokens))
                in Ok (raw_credit d' lp_key min_lp_out)))
      | ConcentratedMint (token0, token1) (amount0, amount1) _ _ _ \<Rightarrow>
          bind_result (require_concentrated_venue (al_venue action) ''add_liquidity'') (\<lambda>_.
          let chain = venue_chain (al_venue action) in
          if tk_chain (ref_key token0) \<noteq> chain then Err (Invariant (MintChainMismatch (ref_key token0) chain))
          else if tk_chain (ref_key token1) \<noteq> chain then Err (Invariant (MintChainMismatch (ref_key token1) chain))
          else
            bind_result (debit w delta_new (ref_key token0) amount0) (\<lambda>d.
              debit w d (ref_key token1) amount1))
      | ConcentratedIncrease nft (amount0, amount1) _ \<Rightarrow>
          bind_result (require_concentrated_venue (al_venue action) ''add_liquidity'') (\<lambda>_.
          bind_result (concentrated_underlyings w nft) (\<lambda>(token_a, token_b).
          bind_result (debit w delta_new (ref_key token_a) amount0) (\<lambda>d.
            debit w d (ref_key token_b) amount1))))"

fun concentrated_liquidity_is_zero :: "range_spec \<Rightarrow> bool" where
  "concentrated_liquidity_is_zero (TickRange _ _ liquidity) \<longleftrightarrow> liquidity = 0"
| "concentrated_liquidity_is_zero (BinRange _ _) \<longleftrightarrow> False"
| "concentrated_liquidity_is_zero (CustomRange _ _) \<longleftrightarrow> False"

definition apply_remove_liquidity :: "remove_liquidity_action reducer" where
  "apply_remove_liquidity action w ctx =
     (let fees = lf_value (rll_fees_owed (rl_live_inputs action)) in
      case rl_params action of
        PooledBurn lp_token lp_amount min_out _ \<Rightarrow>
          bind_result (require_pooled_venue (rl_venue action) ''remove_liquidity'') (\<lambda>_.
          bind_result (debit w delta_new (ref_key lp_token) lp_amount) (\<lambda>d.
          bind_result (credit_all w d min_out) (\<lambda>d'. credit_fees w d' fees)))
      | PooledBurnOneCoin lp_token lp_amount token_out min_out _ \<Rightarrow>
          bind_result (require_pooled_venue (rl_venue action) ''remove_liquidity'') (\<lambda>_.
          bind_result (debit w delta_new (ref_key lp_token) lp_amount) (\<lambda>d.
          bind_result (credit w d (ref_key token_out) min_out) (\<lambda>d'. credit_fees w d' fees)))
      | PooledBurnImbalance lp_token max_lp_burn amounts_out _ \<Rightarrow>
          bind_result (require_pooled_venue (rl_venue action) ''remove_liquidity'') (\<lambda>_.
          bind_result (debit w delta_new (ref_key lp_token) max_lp_burn) (\<lambda>d.
          bind_result (credit_all w d amounts_out) (\<lambda>d'. credit_fees w d' fees)))
      | ConcentratedDecrease nft liquidity_burn _ \<Rightarrow>
          bind_result (require_concentrated_venue (rl_venue action) ''remove_liquidity'') (\<lambda>_.
          bind_result (concentrated_underlyings w nft) (\<lambda>_.
            if liquidity_burn = 0
            then Err (Invariant (Text ''remove_liquidity concentrated_decrease: liquidity_burn is zero''))
            else Ok delta_new))
      | ConcentratedBurn nft \<Rightarrow>
          bind_result (require_concentrated_venue (rl_venue action) ''remove_liquidity'') (\<lambda>_.
          bind_result (ok_or (TokenNotFound nft) (fmlookup (ws_tokens w) nft)) (\<lambda>holding.
            case h_kind holding of
              LpShare _ _ _ (Concentrated rng _) \<Rightarrow>
                if \<not> concentrated_liquidity_is_zero rng then Err (Invariant (BurnLiquidityLeft nft))
                else transfer_nft w delta_new nft 0 None
            | _ \<Rightarrow> Err (Invariant (BurnNotConcentrated nft)))))"

definition apply_collect_fees :: "collect_fees_action reducer" where
  "apply_collect_fees action w ctx =
     bind_result (require_concentrated_venue (cf_venue action) ''collect_fees'') (\<lambda>_.
     bind_result (concentrated_underlyings w (cf_nft_key action)) (\<lambda>_.
       credit_fees w delta_new (lf_value (cf_fees_owed action))))"

section \<open>Flows of a list of operations\<close>

lemma debit_all_builds:
  assumes "builds cd w d w1" and "debit_all w d xs = Ok d'"
  shows "\<exists>w2. builds cd w d' w2 \<and> (\<forall>k. capped_balance w2 k = map_option (\<lambda>x. x - total_of k xs) (capped_balance w1 k)) \<and>
    fmdom (ws_tokens w2) = fmdom (ws_tokens w1)"
  using debits.ops_step [OF assms(1), of xs d'] assms(2) by (simp add: debit_all_def debits_flow)

lemma credit_all_builds:
  assumes "builds cd w d w1" and "credit_all w d xs = Ok d'"
  shows "\<exists>w2. builds cd w d' w2 \<and>
    (\<forall>k. capped_balance w2 k = map_option (\<lambda>x. min (x + total_of k xs) i256_max) (capped_balance w1 k))"
proof -
  obtain w2 where w2: "builds cd w d' w2"
    "\<forall>k. capped_balance w2 k = map_option (\<lambda>x. credits.flow k x xs) (capped_balance w1 k)"
    using credits.ops_step [OF assms(1), of xs d'] assms(2) by (auto simp: credit_all_def)
  have "map_option (\<lambda>x. credits.flow k x xs) (capped_balance w1 k) =
      map_option (\<lambda>x. min (x + total_of k xs) i256_max) (capped_balance w1 k)" for k
    using capped_range [of w1 k] by (intro map_option_Some_cong) (simp add: credits_flow)
  with w2 show ?thesis
    by metis
qed

lemma credit_fees_filter: "credit_fees w d fees = credit_all w d (filter (\<lambda>(t, amt). amt \<noteq> 0) fees)"
  by (induction fees arbitrary: d) (auto simp: credit_fees_def credit_all_def intro!: bind_result_cong)

lemma cap_zero [simp]: "cap 0 = 0"
  using i256_min_le by (simp add: cap_def)

lemma total_of_nonzero: "total_of k (filter (\<lambda>(t, amt). amt \<noteq> 0) fees) = total_of k fees"
  by (induction fees) (auto simp: total_of_def split: if_splits)

lemma total_of_append [simp]: "total_of k (xs @ ys) = total_of k xs + total_of k ys"
  by (simp add: total_of_def)

lemma total_of_Nil [simp]: "total_of k [] = 0"
  by (simp add: total_of_def)

lemma credit_all_append: "credit_all w d (xs @ ys) = bind_result (credit_all w d xs) (\<lambda>d'. credit_all w d' ys)"
  by (simp add: credit_all_def try_fold_append)

lemma credit_one: "credit_all w d [(t, amt)] = credit w d (ref_key t) amt"
  by (simp add: credit_all_def)

lemma debit_one: "debit_all w d [(t, amt)] = debit w d (ref_key t) amt"
  by (simp add: debit_all_def)

text \<open>Debits followed by credits: the pattern of every reducer of this file.\<close>

lemma exchange_builds:
  assumes "debit_all w delta_new outs = Ok d1" and "credit_all w d1 ins = Ok d"
  shows "\<exists>w'. builds cd w d w' \<and>
    (\<forall>k. capped_balance w' k = map_option (\<lambda>x. min (x - total_of k outs + total_of k ins) i256_max) (capped_balance w k))"
proof -
  obtain w1 where w1: "builds cd w d1 w1"
    "\<forall>k. capped_balance w1 k = map_option (\<lambda>x. x - total_of k outs) (capped_balance w k)"
    using debit_all_builds [OF builds_new assms(1)] by blast
  obtain w2 where "builds cd w d w2"
    "\<forall>k. capped_balance w2 k = map_option (\<lambda>x. min (x + total_of k ins) i256_max) (capped_balance w1 k)"
    using credit_all_builds [OF w1(1) assms(2)] by blast
  with w1(2) show ?thesis
    by (auto simp: option.map_comp comp_def)
qed

text \<open>The tokens a removal burns and pays out, fees included.\<close>

fun removed :: "remove_liquidity_params \<Rightarrow> (token_ref \<times> u256) list" where
  "removed (PooledBurn lp amount _ _) = [(lp, amount)]"
| "removed (PooledBurnOneCoin lp amount _ _ _) = [(lp, amount)]"
| "removed (PooledBurnImbalance lp cap_amount _ _) = [(lp, cap_amount)]"
| "removed _ = []"

fun paid_out :: "remove_liquidity_params \<Rightarrow> (token_ref \<times> u256) list \<Rightarrow> (token_ref \<times> u256) list" where
  "paid_out (PooledBurn _ _ outs _) fees = outs @ fees"
| "paid_out (PooledBurnOneCoin _ _ t amount _) fees = [(t, amount)] @ fees"
| "paid_out (PooledBurnImbalance _ _ outs _) fees = outs @ fees"
| "paid_out _ _ = []"

fun burns_nft :: "remove_liquidity_params \<Rightarrow> bool" where
  "burns_nft (ConcentratedBurn _) = True"
| "burns_nft _ = False"

lemma remove_liquidity_exchange:
  assumes "apply_remove_liquidity action w ctx = Ok d" and "\<not> burns_nft (rl_params action)"
  shows "\<exists>d1 ins. debit_all w delta_new (removed (rl_params action)) = Ok d1 \<and> credit_all w d1 ins = Ok d \<and>
    (\<forall>k. total_of k ins = total_of k (paid_out (rl_params action) (lf_value (rll_fees_owed (rl_live_inputs action)))))"
proof -
  let ?fees = "lf_value (rll_fees_owed (rl_live_inputs action))"
  let ?paid = "filter (\<lambda>(t, amt). amt \<noteq> 0) ?fees"
  have paid: "bind_result (credit_all w d1 outs) (\<lambda>d'. credit_fees w d' ?fees) = credit_all w d1 (outs @ ?paid)" for d1 outs
    by (simp add: credit_fees_filter credit_all_append)
  show ?thesis
  proof (cases "rl_params action")
    case (PooledBurn lp amt outs r)
    with assms(1) obtain d1 where "debit w delta_new (ref_key lp) amt = Ok d1" "credit_all w d1 (outs @ ?paid) = Ok d"
      unfolding apply_remove_liquidity_def Let_def by (auto simp: paid)
    with PooledBurn show ?thesis
      by (intro exI [of _ d1] exI [of _ "outs @ ?paid"]) (simp add: debit_one total_of_nonzero)
  next
    case (PooledBurnOneCoin lp amt t out r)
    with assms(1) obtain d1 where "debit w delta_new (ref_key lp) amt = Ok d1"
      "bind_result (credit_all w d1 [(t, out)]) (\<lambda>d'. credit_fees w d' ?fees) = Ok d"
      unfolding apply_remove_liquidity_def Let_def by (auto simp: credit_one)
    with PooledBurnOneCoin show ?thesis
      by (intro exI [of _ d1] exI [of _ "[(t, out)] @ ?paid"]) (simp only: paid removed.simps paid_out.simps debit_one
          total_of_append total_of_nonzero simp_thms)
  next
    case (PooledBurnImbalance lp amt outs r)
    with assms(1) obtain d1 where "debit w delta_new (ref_key lp) amt = Ok d1" "credit_all w d1 (outs @ ?paid) = Ok d"
      unfolding apply_remove_liquidity_def Let_def by (auto simp: paid)
    with PooledBurnImbalance show ?thesis
      by (intro exI [of _ d1] exI [of _ "outs @ ?paid"]) (simp add: debit_one total_of_nonzero)
  next
    case (ConcentratedDecrease nft l mins)
    with assms(1) have "d = delta_new"
      by (auto simp: apply_remove_liquidity_def Let_def split: if_splits)
    with ConcentratedDecrease show ?thesis
      by (intro exI [of _ delta_new] exI [of _ "[]"]) (simp add: debit_all_def credit_all_def)
  qed (use assms(2) in simp)
qed

section \<open>Minted LP tokens\<close>

lemma mint_credit_builds:
  assumes "builds cd w d w1" and "fmlookup (ws_tokens w1) k = None"
  shows "\<exists>w2. builds cd w (raw_credit (push_token (Mint k kd) d) k amt) w2 \<and> capped_balance w2 k = Some (cap amt) \<and>
    (\<forall>k'. k' \<noteq> k \<longrightarrow> balance_of w2 k' = balance_of w1 k')"
proof -
  let ?v = "w1\<lparr>ws_tokens := fmupd k (mint_stub_holding k kd) (ws_tokens w1)\<rparr>"
  have "apply_token_change w1 (Mint k kd) = Ok ?v"
    using assms(2) by simp
  with assms(1) have v: "builds cd w (push_token (Mint k kd) d) ?v"
    by (rule builds_push)
  have "balance_of ?v k = Some 0"
    by (simp add: balance_of_def mint_stub_holding_def zero_fungible_def)
  from balance_change_step [OF this, of "u256_to_signed_saturating amt"] obtain w2 where
    w2: "apply_token_change ?v (BalanceDelta k (u256_to_signed_saturating amt)) = Ok w2"
    "capped_balance w2 k = Some (min (cap amt) i256_max)" "\<forall>k'. k' \<noteq> k \<longrightarrow> balance_of w2 k' = balance_of ?v k'"
    using cap_bounds [of amt] by (auto simp: cap_signed)
  have "min (cap amt) i256_max = cap amt"
    using cap_bounds [of amt] by simp
  with w2 builds_push [OF v w2(1)] show ?thesis
    unfolding raw_credit_def by (auto simp: balance_of_def)
qed

lemma fmdom_None: "fmdom m = fmdom m' \<Longrightarrow> fmlookup m k = None \<longleftrightarrow> fmlookup m' k = None"
  by (metis fmdom_notD fmdom_notI)

section \<open>Decoding pool ids\<close>

lemma hex_nibble_digit:
  assumes "n < 16"
  shows "hex_nibble (digit_char n) = Ok (of_nat n)"
proof -
  have "\<forall>n\<in>set [0..<16]. hex_nibble (digit_char n) = Ok (of_nat n)"
    by code_simp
  with assms show ?thesis
    by simp
qed

lemma nth_hex_fixed: "i < k \<Longrightarrow> hex_fixed k n ! i = digit_char (n div 16 ^ (k - Suc i) mod 16)"
proof (induction k arbitrary: n)
  case (Suc k)
  show ?case
  proof (cases "i = k")
    case False
    with Suc.prems have "i < k" "Suc k - Suc i = Suc (k - Suc i)"
      by auto
    with Suc.IH [of "n div 16"] show ?thesis
      by (simp add: nth_append div_mult2_eq)
  qed (simp add: nth_append)
qed simp

lemma nibbles_byte:
  assumes "hi < 16" and "lo < (16 :: nat)"
  shows "(push_bit 4 (of_nat hi) OR of_nat lo :: u8) = of_nat (16 * hi + lo)"
proof -
  have "\<forall>hi\<in>set [0..<16]. \<forall>lo\<in>set [0..<16]. (push_bit 4 (of_nat hi) OR of_nat lo :: u8) = of_nat (16 * hi + lo)"
    by code_simp
  with assms show ?thesis
    by simp
qed

text \<open>The byte at position \<open>i\<close> of a 20-byte number, most significant first.\<close>

definition byte_at :: "nat \<Rightarrow> nat \<Rightarrow> nat" where
  "byte_at n i = n div 256 ^ (19 - i) mod 256"

lemma two_digits:
  assumes "i < 20"
  shows "16 * (n div 16 ^ (39 - 2 * i) mod 16) + n div 16 ^ (38 - 2 * i) mod 16 = byte_at n i"
proof -
  have e: "39 - 2 * i = Suc (38 - 2 * i)" "38 - 2 * i = 2 * (19 - i)"
    using assms by auto
  have "(16 :: nat) ^ (38 - 2 * i) = 256 ^ (19 - i)"
    unfolding e(2) power_mult by simp
  moreover have "n div 16 ^ (39 - 2 * i) = n div 16 ^ (38 - 2 * i) div 16"
    unfolding e(1) power_Suc2 div_mult2_eq by (rule refl)
  ultimately show ?thesis
    unfolding byte_at_def using mod_mult2_eq [of "n div 256 ^ (19 - i)" 16 16] by simp
qed

lemma decoded_bytes:
  assumes "length s = 40" and "s = hex_fixed 40 n"
  shows "try_map (\<lambda>i.
      bind_result (hex_nibble ((s @ rest) ! (i * 2))) (\<lambda>hi.
      bind_result (hex_nibble ((s @ rest) ! (i * 2 + 1))) (\<lambda>lo. Ok (push_bit 4 hi OR lo)))) [0..<20] =
    Ok (map (\<lambda>i. of_nat (byte_at n i)) [0..<20])"
proof -
  have "bind_result (hex_nibble ((s @ rest) ! (i * 2))) (\<lambda>hi.
      bind_result (hex_nibble ((s @ rest) ! (i * 2 + 1))) (\<lambda>lo. Ok (push_bit 4 hi OR lo))) = Ok (of_nat (byte_at n i))"
    if "i < 20" for i
  proof -
    have i: "i * 2 < 40" "i * 2 + 1 < 40" "40 - Suc (i * 2) = 39 - 2 * i" "40 - Suc (i * 2 + 1) = 38 - 2 * i"
      using that by auto
    have "(s @ rest) ! (i * 2) = digit_char (n div 16 ^ (39 - 2 * i) mod 16)"
      "(s @ rest) ! (i * 2 + 1) = digit_char (n div 16 ^ (38 - 2 * i) mod 16)"
      using i assms(1) nth_hex_fixed [OF i(1), of n] nth_hex_fixed [OF i(2), of n] unfolding assms(2) i(3,4)
      by (simp_all only: nth_append length_hex_fixed if_True)
    then show ?thesis
      by (simp only: hex_nibble_digit bind_result_simps nibbles_byte two_digits [OF that] mod_less_divisor zero_less_numeral)
  qed
  then show ?thesis
    by (simp add: try_map_Ok_iff list_all2_conv_all_nth)
qed

lemma address_of_bytes:
  assumes "k \<le> 20"
  shows "address_from_bytes (map (\<lambda>i. of_nat (byte_at n i)) [0..<k]) = of_nat (n div 256 ^ (20 - k) mod 256 ^ k)"
  using assms
proof (induction k)
  case (Suc k)
  have byte: "(ucast (of_nat (byte_at n k) :: u8) :: address) = of_nat (byte_at n k)"
  proof -
    have "byte_at n k < 256"
      by (simp add: byte_at_def)
    then have "unat (of_nat (byte_at n k) :: u8) = byte_at n k"
      by (simp add: unat_of_nat)
    then have "unat (ucast (of_nat (byte_at n k) :: u8) :: address) = byte_at n k"
      by (simp add: unat_ucast_up)
    with \<open>byte_at n k < 256\<close> show ?thesis
      by (simp add: word_unat_eq_iff unat_of_nat)
  qed
  let ?m = "n div 256 ^ (20 - Suc k)"
  have split: "20 - k = Suc (20 - Suc k)"
    using Suc.prems by simp
  have "n div 256 ^ (20 - k) = ?m div 256"
    unfolding split power_Suc2 div_mult2_eq by (rule refl)
  moreover have "byte_at n k = ?m mod 256"
    using Suc.prems by (simp add: byte_at_def)
  ultimately have "256 * (n div 256 ^ (20 - k) mod 256 ^ k) + byte_at n k = ?m mod 256 ^ Suc k"
    using mod_mult2_eq [of ?m 256 "256 ^ k"] by simp
  moreover have "address_from_bytes (map (\<lambda>i. of_nat (byte_at n i)) [0..<Suc k]) =
      of_nat (n div 256 ^ (20 - k) mod 256 ^ k) * 256 + of_nat (byte_at n k)"
    using Suc by (simp add: address_from_bytes_def byte)
  moreover have "(of_nat (n div 256 ^ (20 - k) mod 256 ^ k) * 256 + of_nat (byte_at n k) :: address) =
      of_nat (256 * (n div 256 ^ (20 - k) mod 256 ^ k) + byte_at n k)"
    by simp
  ultimately show ?case
    by metis
qed (simp add: address_from_bytes_def)

lemma hex_fixed_no_prefix: "take 2 (hex_fixed 40 n @ rest) \<noteq> ''0x''"
proof
  assume "take 2 (hex_fixed 40 n @ rest) = ''0x''"
  then have "take 2 (hex_fixed 40 n @ rest) ! 1 = CHR ''x''"
    by simp
  then have "digit_char (n div 16 ^ 38 mod 16) = CHR ''x''"
    using nth_hex_fixed [of 1 40 n] by (simp add: nth_append)
  moreover have "\<forall>m\<in>set [0..<16]. digit_char m \<noteq> CHR ''x''"
    by code_simp
  ultimately show False
    by simp
qed

lemma pooled_deposit_parts:
  assumes "apply_add_liquidity action w ctx = Ok d" and "al_params action = PooledDeposit tokens min_lp_out r"
  obtains d1 lp where "debit_all w delta_new tokens = Ok d1" and "pooled_lp_key (al_venue action) = Ok lp"
    and "(if fmlookup (ws_tokens w) lp \<noteq> None then credit w d1 lp min_lp_out
      else Ok (raw_credit (ensure_mint_stub w d1 lp (pooled_lp_kind_hint (map fst tokens))) lp min_lp_out)) = Ok d"
  using assms by (auto simp: apply_add_liquidity_def Let_def split: if_splits)

lemma concentrated_burn_parts:
  assumes "apply_remove_liquidity action w ctx = Ok d" and "rl_params action = ConcentratedBurn nft"
  shows "transfer_nft w delta_new nft 0 None = Ok d"
proof -
  obtain h where h: "fmlookup (ws_tokens w) nft = Some h"
    using assms by (auto simp: apply_remove_liquidity_def)
  show ?thesis
  proof (cases "h_kind h")
    case (LpShare x1 x2 x3 shape)
    then show ?thesis
      using assms h by (cases shape) (simp_all add: apply_remove_liquidity_def split: if_splits)
  qed (use assms h in \<open>simp_all add: apply_remove_liquidity_def\<close>)
qed

text \<open>A pooled deposit of 100 USDC into a pool whose LP token the wallet does not hold yet.\<close>

definition sample_deposit :: add_liquidity_action where
  "sample_deposit =
     \<lparr>al_venue = SushiV2 ethereum_mainnet 0xB7, al_params = PooledDeposit [(TokenRef usdc_key, 100), (TokenRef eth_key, 1)] 40 0xC0,
      al_live_inputs = \<lparr>all_pool_state = live_field_new (XyConstant 1000 10 30) UserSupplied (Time 1),
        all_current_price = live_field_new (Decimal ''100'') UserSupplied (Time 1)\<rparr>\<rparr>"

definition sample_removal :: remove_liquidity_action where
  "sample_removal =
     \<lparr>rl_venue = CurveV1 ethereum_mainnet 0xB7 2 False,
      rl_params = PooledBurnOneCoin (TokenRef usdc_key) 100 (TokenRef eth_key) 1 0xC0,
      rl_live_inputs = \<lparr>rll_pool_state = live_field_new (StableV1 [1000, 1000] 100 4) UserSupplied (Time 1),
        rll_fees_owed = live_field_new [(TokenRef eth_key, 2), (TokenRef (TK_Native arbitrum), 0)] UserSupplied (Time 1)\<rparr>\<rparr>"

section \<open>Properties\<close>

text \<open>
  The LP token address read from a Balancer pool id is the address whose hexadecimal text the id
  begins with, with or without the prefix and whatever follows.
\<close>

lemma pool_id_roundtrip:
  "pool_id_to_address (hex_address a @ rest) = Ok a \<and> pool_id_to_address (hex_fixed 40 (unat a) @ rest) = Ok a"
proof -
  have "unat a < 256 ^ 20"
    using unat_fits [of a] by simp
  then have decoded: "address_from_bytes (map (\<lambda>i. of_nat (byte_at (unat a) i)) [0..<20]) = a"
    using address_of_bytes [of 20 "unat a"] by simp
  show ?thesis
    unfolding pool_id_to_address_def hex_address_def Let_def
    using hex_fixed_no_prefix [of "unat a" rest] decoded_bytes [OF length_hex_fixed refl, of "unat a" rest] decoded
    by simp
qed

text \<open>
  C34. A pooled deposit takes every listed amount and gives the signed minimum of LP tokens: a holding
  that does not exist is created with exactly that amount, an existing one grows by it, and the delta
  always applies.
\<close>

theorem pooled_deposit_exact:
  assumes "apply_add_liquidity action w ctx = Ok d" and "al_params action = PooledDeposit tokens min_lp_out r"
  shows "\<exists>lp w'. pooled_lp_key (al_venue action) = Ok lp \<and> apply_delta cd w d = Ok w' \<and>
    capped_balance w' lp = Some (case capped_balance w lp of
      None \<Rightarrow> cap min_lp_out | Some x \<Rightarrow> min (x - total_of lp tokens + cap min_lp_out) i256_max) \<and>
    (\<forall>k. k \<noteq> lp \<longrightarrow> capped_balance w' k = map_option (\<lambda>x. x - total_of k tokens) (capped_balance w k))"
proof -
  obtain d1 lp where parts: "debit_all w delta_new tokens = Ok d1" "pooled_lp_key (al_venue action) = Ok lp"
    and d: "(if fmlookup (ws_tokens w) lp \<noteq> None then credit w d1 lp min_lp_out
        else Ok (raw_credit (ensure_mint_stub w d1 lp (pooled_lp_kind_hint (map fst tokens))) lp min_lp_out)) = Ok d"
    using assms by (rule pooled_deposit_parts)
  obtain w1 where w1: "builds cd w d1 w1"
    "\<forall>k. capped_balance w1 k = map_option (\<lambda>x. x - total_of k tokens) (capped_balance w k)"
    "fmdom (ws_tokens w1) = fmdom (ws_tokens w)"
    using debit_all_builds [OF builds_new parts(1)] by blast
  have other: "capped_balance w2 k = map_option (\<lambda>x. x - total_of k tokens) (capped_balance w k)"
    if "\<forall>k'. k' \<noteq> lp \<longrightarrow> balance_of w2 k' = balance_of w1 k'" "k \<noteq> lp" for w2 k
    using that w1(2) by (simp add: capped_balance_def)
  show ?thesis
  proof (cases "fmlookup (ws_tokens w) lp")
    case None
    then have gone: "capped_balance w lp = None" "fmlookup (ws_tokens w1) lp = None"
      using fmdom_None [OF w1(3)] by (simp_all add: capped_balance_def balance_of_def)
    obtain w2 where "builds cd w d w2" "capped_balance w2 lp = Some (cap min_lp_out)"
      "\<forall>k'. k' \<noteq> lp \<longrightarrow> balance_of w2 k' = balance_of w1 k'"
      using mint_credit_builds [OF w1(1) gone(2), of "pooled_lp_kind_hint (map fst tokens)" min_lp_out] d None
      by (auto simp: ensure_mint_stub_def)
    with other gone(1) parts(2) show ?thesis
      by (auto simp: builds_def)
  next
    case (Some h)
    with d have "credit w d1 lp min_lp_out = Ok d"
      by simp
    from credits.op_step [OF w1(1) this] obtain w2 x where w2: "builds cd w d w2" "capped_balance w1 lp = Some x"
      "capped_balance w2 lp = Some (min (x + cap min_lp_out) i256_max)"
      "\<forall>k'. k' \<noteq> lp \<longrightarrow> balance_of w2 k' = balance_of w1 k'"
      by blast
    with w1(2) obtain y where "capped_balance w lp = Some y" "x = y - total_of lp tokens"
      by auto
    with other w2 parts(2) show ?thesis
      by (auto simp: builds_def)
  qed
qed

theorem pooled_deposit_exact_witness:
  "\<exists>d lp w'. apply_add_liquidity sample_deposit sample_wallet sample_ctx = Ok d \<and>
     apply_delta sample_codec sample_wallet d = Ok w' \<and> capped_balance w' lp = Some 40"
proof -
  have "is_ok (apply_add_liquidity sample_deposit sample_wallet sample_ctx)"
    by code_simp
  then obtain d where d: "apply_add_liquidity sample_deposit sample_wallet sample_ctx = Ok d"
    by (auto simp: is_ok_iff)
  have p: "al_params sample_deposit = PooledDeposit [(TokenRef usdc_key, 100), (TokenRef eth_key, 1)] 40 0xC0"
    by (simp add: sample_deposit_def)
  obtain lp w' where "pooled_lp_key (al_venue sample_deposit) = Ok lp" "apply_delta sample_codec sample_wallet d = Ok w'"
    "capped_balance w' lp = Some (case capped_balance sample_wallet lp of None \<Rightarrow> cap 40
      | Some x \<Rightarrow> min (x - total_of lp [(TokenRef usdc_key, 100), (TokenRef eth_key, 1)] + cap 40) i256_max)"
    using pooled_deposit_exact [OF d p, of sample_codec] by blast
  moreover from this(1) have "lp = TK_Erc20 ethereum_mainnet 0xB7"
    by (simp add: sample_deposit_def pooled_lp_key_def)
  moreover have "capped_balance sample_wallet (TK_Erc20 ethereum_mainnet 0xB7) = None"
    by code_simp
  moreover have "cap 40 = 40"
    by code_simp
  ultimately show ?thesis
    using d by (intro exI [of _ d] exI [of _ lp] exI [of _ w']) simp
qed

text \<open>
  C35. A pooled removal of liquidity takes the signed LP amount (its cap, for an imbalanced one) and pays out the listed
  amounts and the fees owed; a concentrated decrease moves no balance, its amounts being collected later. The delta
  always applies and no other balance moves. The burn of a position NFT is not covered.
\<close>

theorem remove_liquidity_exact:
  assumes "apply_remove_liquidity action w ctx = Ok d" and "\<not> burns_nft (rl_params action)"
  shows "\<exists>w'. apply_delta cd w d = Ok w' \<and> (\<forall>k. capped_balance w' k = map_option (\<lambda>x. min
    (x - total_of k (removed (rl_params action)) +
     total_of k (paid_out (rl_params action) (lf_value (rll_fees_owed (rl_live_inputs action))))) i256_max) (capped_balance w k))"
proof -
  obtain d1 ins where "debit_all w delta_new (removed (rl_params action)) = Ok d1" "credit_all w d1 ins = Ok d"
    and "\<forall>k. total_of k ins = total_of k (paid_out (rl_params action) (lf_value (rll_fees_owed (rl_live_inputs action))))"
    using remove_liquidity_exchange [OF assms] by blast
  with exchange_builds [of w "removed (rl_params action)" d1 ins d cd] show ?thesis
    by (auto simp: builds_def)
qed

theorem remove_liquidity_exact_witness:
  "\<exists>d w'. apply_remove_liquidity sample_removal sample_wallet sample_ctx = Ok d \<and>
     apply_delta sample_codec sample_wallet d = Ok w' \<and> capped_balance w' eth_key = Some 8"
proof -
  have "is_ok (apply_remove_liquidity sample_removal sample_wallet sample_ctx)"
    by code_simp
  then obtain d where d: "apply_remove_liquidity sample_removal sample_wallet sample_ctx = Ok d"
    by (auto simp: is_ok_iff)
  have "\<not> burns_nft (rl_params sample_removal)"
    by (simp add: sample_removal_def)
  from remove_liquidity_exact [OF d this, of sample_codec] obtain w' where
    w': "apply_delta sample_codec sample_wallet d = Ok w'" and
    bal: "capped_balance w' eth_key = map_option (\<lambda>x. min (x - total_of eth_key (removed (rl_params sample_removal)) +
      total_of eth_key (paid_out (rl_params sample_removal) (lf_value (rll_fees_owed (rl_live_inputs sample_removal)))))
      i256_max) (capped_balance sample_wallet eth_key)"
    by blast
  have "capped_balance w' eth_key = Some 8"
    unfolding bal by code_simp
  with d w' show ?thesis
    by blast
qed

text \<open>
  Burning a position NFT the wallet owns yields a delta \<open>apply_delta\<close> always refuses: the burn is
  recorded as a balance change of a holding that is not fungible.
\<close>

lemma concentrated_burn_refused:
  assumes "apply_remove_liquidity action w ctx = Ok d" and "rl_params action = ConcentratedBurn (TK_Erc721 c a i)"
    and "fmlookup (ws_tokens w) (TK_Erc721 c a i) = Some h" and "h_balance h = Owned"
  shows "apply_delta cd w d = Err (Invariant (DeltaOnNonFungible (TK_Erc721 c a i)))"
  using concentrated_burn_parts [OF assms(1,2)] transfer_nft_owned_refused [OF assms(3,4), of 0 None cd] by auto

end
