(* ===== verification/Amm_Effect.thy ===== *)
theory Amm_Effect
  imports Amm_Liquidity
begin

text \<open>
  Intent orders (\<open>asset-model/transition/src/effect/amm/intent_order.rs\<close>), GSM swaps
  (\<open>gsm_swap.rs\<close>) and the dispatch of the AMM domain (\<open>mod.rs\<close>).
\<close>

section \<open>Intent orders\<close>

fun map_order_kind :: "intent_order_kind \<Rightarrow> order_kind" where
  "map_order_kind IntentDutch = Dutch"
| "map_order_kind IntentLimit = LimitOrder"
| "map_order_kind IntentRfq = Rfq"

fun project_venue :: "intent_venue \<Rightarrow> venue_ref \<times> address" where
  "project_venue (UniswapX chain reactor) = (\<lparr>vr_name = ''uniswap_x'', vr_chain = Some chain\<rparr>, reactor)"
| "project_venue (CowSwap chain settlement) = (\<lparr>vr_name = ''cow_swap'', vr_chain = Some chain\<rparr>, settlement)"
| "project_venue (OneInchFusion chain) = (\<lparr>vr_name = ''one_inch_fusion'', vr_chain = Some chain\<rparr>, 0)"
| "project_venue (Bebop chain) = (\<lparr>vr_name = ''bebop'', vr_chain = Some chain\<rparr>, 0)"
| "project_venue (OneInchLimitOrder chain verifying_contract) =
     (\<lparr>vr_name = ''one_inch_limit_order'', vr_chain = Some chain\<rparr>, verifying_contract)"

definition pending_id_for_intent :: "string \<Rightarrow> string \<Rightarrow> string \<Rightarrow> string \<Rightarrow> u64 \<Rightarrow> string" where
  "pending_id_for_intent name sell_hex buy_hex sell_amount valid_until_unix =
     ''intent:'' @ name @ '':'' @ sell_hex @ '':'' @ buy_hex @ '':'' @ sell_amount @ '':'' @ dec_word valid_until_unix"

definition contract_text :: "token_ref \<Rightarrow> string" where
  "contract_text t = (case key_contract (ref_key t) of None \<Rightarrow> ''native'' | Some addr \<Rightarrow> hex_address addr)"

definition apply_sign_intent_order :: "sign_intent_order_action reducer" where
  "apply_sign_intent_order a w ctx =
     (let (venue, spender) = project_venue (si_venue a);
          pid = pending_id_for_intent (vr_name venue) (contract_text (si_sell a)) (contract_text (si_buy a))
            (dec_word (si_sell_amount a)) (as_unix (si_valid_until a));
          pending = PendingTx pid
            (OffchainLimitOrder venue (si_sell a) (si_buy a) (si_sell_amount a) (si_buy_min a) (map_order_kind (si_order_kind a)))
            (PermitCap (si_sell a) spender (si_sell_amount a))
            delta_new
            \<lparr>pl_status = PSActive, pl_valid_until = Some (si_valid_until a), pl_nonce = None,
             pl_on_chain_tx = None, pl_raw_status = None\<rparr>
            UserSupplied (ec_now ctx) []
      in Ok (push_pending (PendingAdd pending) delta_new))"

definition apply_settle_intent_order :: "settle_intent_order_action reducer" where
  "apply_settle_intent_order a w ctx = Ok delta_new"

definition apply_cancel_intent_order :: "cancel_intent_order_action reducer" where
  "apply_cancel_intent_order a w ctx = Ok (push_pending (PendingRemove (ci_order_hash a) RR_Cancelled) delta_new)"

definition apply_pre_sign_intent_order :: "pre_sign_intent_order_action reducer" where
  "apply_pre_sign_intent_order a w ctx =
     (if \<not> ps_signed a then Ok (push_pending (PendingRemove (ps_order_hash a) RR_Cancelled) delta_new)
      else Ok delta_new)"

section \<open>Dispatch\<close>

definition apply_gsm_swap :: "gsm_swap_action reducer" where
  "apply_gsm_swap a w ctx = Ok delta_new"

fun apply_amm_action :: "(string \<Rightarrow> u256 option) \<Rightarrow> amm_action reducer" where
  "apply_amm_action pu (Swap a) w ctx = apply_swap pu a w ctx"
| "apply_amm_action pu (GsmSwap a) w ctx = apply_gsm_swap a w ctx"
| "apply_amm_action pu (AddLiquidity a) w ctx = apply_add_liquidity a w ctx"
| "apply_amm_action pu (RemoveLiquidity a) w ctx = apply_remove_liquidity a w ctx"
| "apply_amm_action pu (CollectFees a) w ctx = apply_collect_fees a w ctx"
| "apply_amm_action pu (SignIntentOrder a) w ctx = apply_sign_intent_order a w ctx"
| "apply_amm_action pu (SettleIntentOrder a) w ctx = apply_settle_intent_order a w ctx"
| "apply_amm_action pu (CancelIntentOrder a) w ctx = apply_cancel_intent_order a w ctx"
| "apply_amm_action pu (PreSignIntentOrder a) w ctx = apply_pre_sign_intent_order a w ctx"

section \<open>Gas\<close>

lemma apply_swap_gasless: "apply_swap pu a w ctx = Ok d \<Longrightarrow> gas_paid d = None"
  using swap_builds [of pu a w ctx d] by (auto simp: builds_def)

lemma apply_remove_liquidity_gasless:
  assumes "apply_remove_liquidity a w ctx = Ok d"
  shows "gas_paid d = None"
proof (cases "burns_nft (rl_params a)")
  case True
  then obtain nft where "rl_params a = ConcentratedBurn nft"
    by (cases "rl_params a") auto
  from transfer_nft_Ok_push [OF concentrated_burn_parts [OF assms this]] show ?thesis
    by auto
next
  case False
  then show ?thesis
    using remove_liquidity_exchange [OF assms] exchange_builds [of w "removed (rl_params a)"] by (auto simp: builds_def)
qed

lemma apply_collect_fees_gasless: "apply_collect_fees a w ctx = Ok d \<Longrightarrow> gas_paid d = None"
  using credit_all_builds [OF builds_new] by (fastforce simp: apply_collect_fees_def credit_fees_filter builds_def)

lemma debit_twice_gasless:
  "debit w delta_new k a = Ok d1 \<Longrightarrow> debit w d1 k' a' = Ok d \<Longrightarrow> gas_paid d = None"
  by (auto dest!: debit_gas)

lemma apply_add_liquidity_gasless:
  assumes "apply_add_liquidity a w ctx = Ok d"
  shows "gas_paid d = None"
proof (cases "al_params a")
  case (PooledDeposit tokens min_lp r)
  obtain d1 lp where "debit_all w delta_new tokens = Ok d1" and
    d: "(if fmlookup (ws_tokens w) lp \<noteq> None then credit w d1 lp min_lp
        else Ok (raw_credit (ensure_mint_stub w d1 lp (pooled_lp_kind_hint (map fst tokens))) lp min_lp)) = Ok d"
    using assms PooledDeposit by (rule pooled_deposit_parts)
  then have "gas_paid d1 = None"
    using debit_all_builds [OF builds_new] by (fastforce simp: builds_def)
  with d show ?thesis
    by (auto simp: raw_credit_def ensure_mint_stub_def split: if_splits dest!: credit_gas)
next
  case (ConcentratedMint pair amounts mins rng r)
  with assms show ?thesis
    by (cases pair; cases amounts)
      (auto simp: apply_add_liquidity_def Let_def split: if_splits intro: debit_twice_gasless)
next
  case (ConcentratedIncrease nft amounts mins)
  with assms show ?thesis
    by (cases amounts) (auto simp: apply_add_liquidity_def split: prod.splits intro: debit_twice_gasless)
qed

lemma apply_amm_action_gasless: "apply_amm_action pu a w ctx = Ok d \<Longrightarrow> gas_paid d = None"
  by (cases a)
    (auto simp: apply_gsm_swap_def apply_sign_intent_order_def apply_settle_intent_order_def apply_cancel_intent_order_def
      apply_pre_sign_intent_order_def Let_def split: prod.splits if_splits
      dest: apply_swap_gasless apply_remove_liquidity_gasless apply_collect_fees_gasless apply_add_liquidity_gasless)

section \<open>Properties\<close>

text \<open>
  Signing an intent order reserves its sell amount, and no cancellation by order hash releases it:
  the pending entry is filed under an identifier of the form \<open>intent:...\<close>, so on the wallet after
  signing, a cancellation for a hash that is not of that form and names no other pending entry is refused.
\<close>

lemma intent_cancel_refused:
  assumes "apply_sign_intent_order a w ctx = Ok d" and "apply_delta cd w d = Ok w'"
    and "apply_cancel_intent_order c w' ctx' = Ok e"
    and "take 7 (ci_order_hash c) \<noteq> ''intent:''" and "\<forall>p\<in>set (ws_pending w). ptx_id p \<noteq> ci_order_hash c"
  shows "apply_delta cd w' e = Err (Invariant (PendingRemoveNotFound (ci_order_hash c))) \<and>
    (\<exists>p. ws_pending w' = ws_pending w @ [p] \<and> cap_for (ptx_commitment p) (ref_key (si_sell a)) = si_sell_amount a)"
proof -
  obtain p where d: "d = push_pending (PendingAdd p) delta_new" and pid: "take 7 (ptx_id p) = ''intent:''"
    and cap: "cap_for (ptx_commitment p) (ref_key (si_sell a)) = si_sell_amount a"
    using assms(1) by (auto simp: apply_sign_intent_order_def Let_def pending_id_for_intent_def split: prod.splits)
  then have w': "w' = w\<lparr>ws_pending := ws_pending w @ [p]\<rparr>"
    using assms(2) by simp
  have "ptx_id p \<noteq> ci_order_hash c"
    using pid assms(4) by auto
  then have "filter (\<lambda>q. ptx_id q \<noteq> ci_order_hash c) (ws_pending w') = ws_pending w'"
    using assms(5) by (simp add: w' filter_id_conv)
  moreover have "e = push_pending (PendingRemove (ci_order_hash c) RR_Cancelled) delta_new"
    using assms(3) by (simp add: apply_cancel_intent_order_def)
  ultimately have "apply_delta cd w' e = Err (Invariant (PendingRemoveNotFound (ci_order_hash c)))"
    by (simp add: apply_delta_def)
  with w' cap show ?thesis
    by simp
qed

end
