(* ===== verification/Lending_Types.thy ===== *)
theory Lending_Types
  imports Reducer_Base
begin

text \<open>
  The lending actions (\<open>asset-model/action/src/lending\<close>): venues, reserve and account snapshots and the
  thirteen actions. The live inputs of an action are a record of their own where the source has one.
\<close>

datatype lending_venue =
    AaveV3 chain_id address "u8 option"
  | AaveV2 chain_id address
  | CompoundV3 chain_id address token_ref
  | CompoundV2 chain_id address
  | MorphoBlue chain_id string
  | MorphoOptimizer chain_id address
  | Spark chain_id address
  | Fluid chain_id address
  | MetaMorpho chain_id address
  | CrvUsd chain_id address token_ref
  | LlamaLend chain_id address token_ref
  | AaveV3Periphery chain_id address

fun lending_name :: "lending_venue \<Rightarrow> string" where
  "lending_name (AaveV3 _ _ _) = ''aave_v3''"
| "lending_name (AaveV2 _ _) = ''aave_v2''"
| "lending_name (CompoundV3 _ _ _) = ''compound_v3''"
| "lending_name (CompoundV2 _ _) = ''compound_v2''"
| "lending_name (MorphoBlue _ _) = ''morpho_blue''"
| "lending_name (MorphoOptimizer _ _) = ''morpho_optimizer''"
| "lending_name (Spark _ _) = ''spark''"
| "lending_name (Fluid _ _) = ''fluid''"
| "lending_name (MetaMorpho _ _) = ''metamorpho''"
| "lending_name (CrvUsd _ _ _) = ''crv_usd''"
| "lending_name (LlamaLend _ _ _) = ''llama_lend''"
| "lending_name (AaveV3Periphery _ _) = ''aave_v3_periphery''"

record reserve_state =
  rs_total_supply :: u256
  rs_total_borrow :: u256
  rs_utilization_bp :: u32
  rs_supply_cap :: "u256 option"
  rs_borrow_cap :: "u256 option"
  rs_ltv_bp :: u32
  rs_liquidation_threshold_bp :: u32
  rs_liquidation_bonus_bp :: u32
  rs_reserve_factor_bp :: u32
  rs_is_frozen :: bool
  rs_is_paused :: bool

record user_lending_state =
  ul_health_factor :: decimal
  ul_total_collat_usd :: u256
  ul_total_debt_usd :: u256
  ul_available_borrow_usd :: u256

record supply_live_inputs =
  suli_reserve_state :: "reserve_state live_field"
  suli_supply_apy :: "decimal live_field"
  suli_a_token_price_usd :: "price live_field"
  suli_eligible_as_collat :: "bool live_field"
  suli_user_state_before :: "user_lending_state live_field"

record supply_action =
  su_venue :: lending_venue
  su_asset :: token_ref
  su_amount :: u256
  su_on_behalf_of :: "address option"
  su_live_inputs :: supply_live_inputs

record withdraw_live_inputs =
  wili_reserve_state :: "reserve_state live_field"
  wili_available_to_withdraw :: "u256 live_field"
  wili_user_state_before :: "user_lending_state live_field"

record withdraw_action =
  wi_venue :: lending_venue
  wi_asset :: token_ref
  wi_amount :: u256
  wi_recipient :: address
  wi_live_inputs :: withdraw_live_inputs

record borrow_live_inputs =
  boli_reserve_state :: "reserve_state live_field"
  boli_user_state_before :: "user_lending_state live_field"
  boli_asset_price_usd :: "price live_field"
  boli_current_borrow_rate :: "decimal live_field"
  boli_available_liquidity :: "u256 live_field"

record borrow_action =
  bo_venue :: lending_venue
  bo_asset :: token_ref
  bo_amount :: u256
  bo_rate_mode :: rate_mode
  bo_on_behalf_of :: "address option"
  bo_live_inputs :: borrow_live_inputs

record buy_collateral_action =
  bc_venue :: lending_venue
  bc_collateral_asset :: token_ref
  bc_base_asset :: token_ref
  bc_min_collateral_amount :: u256
  bc_base_amount :: u256
  bc_recipient :: address

record repay_live_inputs =
  reli_reserve_state :: "reserve_state live_field"
  reli_current_debt :: "u256 live_field"
  reli_user_state_before :: "user_lending_state live_field"

record repay_action =
  re_venue :: lending_venue
  re_asset :: token_ref
  re_amount :: u256
  re_rate_mode :: rate_mode
  re_on_behalf_of :: "address option"
  re_use_a_tokens :: bool
  re_live_inputs :: repay_live_inputs

record swap_rate_mode_action =
  sr_venue :: lending_venue
  sr_asset :: token_ref
  sr_new_mode :: rate_mode
  sr_current_debts :: "(u256 \<times> u256) live_field"
  sr_rates :: "(decimal \<times> decimal) live_field"

record emode_config =
  em_ltv_bp :: u32
  em_liquidation_threshold_bp :: u32
  em_liquidation_bonus_bp :: u32
  em_price_source :: "address option"
  em_assets_in_category :: "token_ref list"
  em_category :: "u8 option"

record set_emode_action =
  se_em_venue :: lending_venue
  se_em_category_id :: u8
  se_em_on_behalf_of :: "address option"
  se_em_category_config :: "emode_config live_field"
  se_em_user_state_before :: "user_lending_state live_field"

record set_collateral_action =
  sc_venue :: lending_venue
  sc_asset :: token_ref
  sc_on_behalf_of :: "address option"
  sc_reserve_state :: "reserve_state live_field"
  sc_user_state_before :: "user_lending_state live_field"

record delegate_borrow_action =
  de_venue :: lending_venue
  de_asset :: token_ref
  de_delegatee :: address
  de_amount :: u256
  de_rate_mode :: rate_mode

record liquidate_live_inputs =
  lili_victim_state :: "user_lending_state live_field"
  lili_liquidation_bonus :: "u32 live_field"
  lili_debt_asset_price :: "price live_field"
  lili_collat_asset_price :: "price live_field"

record liquidate_action =
  li_venue :: lending_venue
  li_victim :: address
  li_debt_asset :: token_ref
  li_collat_asset :: token_ref
  li_debt_to_cover :: u256
  li_receive_a_token :: bool
  li_live_inputs :: liquidate_live_inputs

record set_authorization_action =
  sa_chain :: chain_id
  sa_protocol :: address
  sa_authorizer :: "address option"
  sa_authorized :: address
  sa_is_authorized :: bool

datatype lending_periphery_kind =
  SwapCollateral | RepayWithCollateral | DebtSwap | Migration | WithdrawSwap | RawPeriphery

record periphery_operation_action =
  po_venue :: lending_venue
  po_adapter :: address
  po_kind :: lending_periphery_kind
  po_asset_in :: "token_ref option"
  po_asset_out :: "token_ref option"
  po_amount :: "u256 option"
  po_limit_amount :: "u256 option"
  po_user :: "address option"
  po_recipient :: "address option"
  po_calldata :: string

datatype lending_action =
    Supply supply_action
  | Withdraw withdraw_action
  | Borrow borrow_action
  | BuyCollateral buy_collateral_action
  | Repay repay_action
  | SwapRateMode swap_rate_mode_action
  | SetEMode set_emode_action
  | EnableCollateral set_collateral_action
  | DisableCollateral set_collateral_action
  | DelegateBorrow delegate_borrow_action
  | Liquidate liquidate_action
  | SetAuthorization set_authorization_action
  | PeripheryOperation periphery_operation_action

fun lending_action_tag :: "lending_action \<Rightarrow> string" where
  "lending_action_tag (Supply _) = ''supply''"
| "lending_action_tag (Withdraw _) = ''withdraw''"
| "lending_action_tag (Borrow _) = ''borrow''"
| "lending_action_tag (BuyCollateral _) = ''buy_collateral''"
| "lending_action_tag (Repay _) = ''repay''"
| "lending_action_tag (SwapRateMode _) = ''swap_rate_mode''"
| "lending_action_tag (SetEMode _) = ''set_e_mode''"
| "lending_action_tag (EnableCollateral _) = ''enable_collateral''"
| "lending_action_tag (DisableCollateral _) = ''disable_collateral''"
| "lending_action_tag (DelegateBorrow _) = ''delegate_borrow''"
| "lending_action_tag (Liquidate _) = ''liquidate''"
| "lending_action_tag (SetAuthorization _) = ''set_authorization''"
| "lending_action_tag (PeripheryOperation _) = ''periphery_operation''"

fun lending_venue_name :: "lending_action \<Rightarrow> string option" where
  "lending_venue_name (Supply a) = Some (lending_name (su_venue a))"
| "lending_venue_name (Withdraw a) = Some (lending_name (wi_venue a))"
| "lending_venue_name (Borrow a) = Some (lending_name (bo_venue a))"
| "lending_venue_name (BuyCollateral a) = Some (lending_name (bc_venue a))"
| "lending_venue_name (Repay a) = Some (lending_name (re_venue a))"
| "lending_venue_name (SwapRateMode a) = Some (lending_name (sr_venue a))"
| "lending_venue_name (SetEMode a) = Some (lending_name (se_em_venue a))"
| "lending_venue_name (EnableCollateral a) = Some (lending_name (sc_venue a))"
| "lending_venue_name (DisableCollateral a) = Some (lending_name (sc_venue a))"
| "lending_venue_name (DelegateBorrow a) = Some (lending_name (de_venue a))"
| "lending_venue_name (Liquidate a) = Some (lending_name (li_venue a))"
| "lending_venue_name (SetAuthorization _) = None"
| "lending_venue_name (PeripheryOperation a) = Some (lending_name (po_venue a))"

end
