(* ===== verification/Lending_Math.thy ===== *)
theory Lending_Math
  imports Lending_Types Rust_Decimal
begin

text \<open>
  Rates and share conversions of the lending venues (\<open>asset-model/transition/src/effect/lending\<close>: \<open>shared.rs\<close>
  and the files of the venues) and the health factor (\<open>helpers/derived.rs\<close>). Most venues use the index-1
  conversion and the two-slope rate with their own parameters.
\<close>

section \<open>Shared primitives\<close>

definition reserve_broken :: "string \<Rightarrow> reserve_state \<Rightarrow> reducer_error" where
  "reserve_broken tag reserve =
     Invariant (Text (tag @ '' reserve invariant: total_supply '' @ dec_word (rs_total_supply reserve) @
       '' < total_borrow '' @ dec_word (rs_total_borrow reserve)))"

definition asset_to_scaled_balance :: "reserve_state \<Rightarrow> u256 \<Rightarrow> string \<Rightarrow> u256 reducer_result" where
  "asset_to_scaled_balance reserve asset_amount tag =
     (if rs_total_supply reserve < rs_total_borrow reserve then Err (reserve_broken tag reserve)
      else Ok asset_amount)"

definition scaled_balance_to_asset :: "reserve_state \<Rightarrow> u256 \<Rightarrow> string \<Rightarrow> u256 reducer_result" where
  "scaled_balance_to_asset reserve scaled_amount tag =
     (if rs_total_supply reserve < rs_total_borrow reserve then Err (reserve_broken tag reserve)
      else Ok scaled_amount)"

text \<open>The errors of the rate functions are texts; that of a failed parse ends in a message of the decimal library.\<close>

datatype rate_error = RateText string | RateParse string

fun strip_zeros :: "string \<Rightarrow> string" where
  "strip_zeros s = (if s \<noteq> [] \<and> last s = CHR ''0'' then strip_zeros (butlast s) else s)"

declare strip_zeros.simps [simp del]

definition dec_fixed :: "nat \<Rightarrow> nat \<Rightarrow> string" where
  "dec_fixed k n = replicate (k - length (dec_string n)) (CHR ''0'') @ dec_string n"

definition bp_to_decimal :: "u64 \<Rightarrow> decimal" where
  "bp_to_decimal bp =
     (let ipart = bp div 10000; frac = bp mod 10000 in
      if frac = 0 then Decimal (dec_word ipart)
      else Decimal (dec_word ipart @ ''.'' @ strip_zeros (dec_fixed 4 (unat frac))))"

definition two_slope_rate_bp :: "u32 \<Rightarrow> u32 \<Rightarrow> u32 \<Rightarrow> u32 \<Rightarrow> u32 \<Rightarrow> u64" where
  "two_slope_rate_bp utilization_bp base_rate_bp slope1_bp slope2_bp optimal_bp =
     (if utilization_bp \<le> optimal_bp then
        ucast base_rate_bp + (ucast slope1_bp * ucast utilization_bp) div ucast optimal_bp
      else
        let excess = ucast (utilization_bp - optimal_bp); span = ucast (10000 - optimal_bp)
        in ucast base_rate_bp + ucast slope1_bp + (ucast slope2_bp * excess) div span)"

definition two_slope_borrow_apr :: "u32 \<Rightarrow> u32 \<Rightarrow> u32 \<Rightarrow> u32 \<Rightarrow> u32 \<Rightarrow> rate_error + decimal" where
  "two_slope_borrow_apr utilization_bp base_rate_bp slope1_bp slope2_bp optimal_bp =
     (if utilization_bp > 10000 then
        Err (RateText (''utilization '' @ dec_word utilization_bp @ '' bp > 10000 (>100 %)''))
      else if optimal_bp = 0 \<or> optimal_bp \<ge> 10000 then
        Err (RateText (''optimal '' @ dec_word optimal_bp @ '' bp out of (0, 10000) range''))
      else Ok (bp_to_decimal (two_slope_rate_bp utilization_bp base_rate_bp slope1_bp slope2_bp optimal_bp)))"

definition bp_to_rust_decimal :: "'n rust_decimal \<Rightarrow> u32 \<Rightarrow> 'n" where
  "bp_to_rust_decimal rd bp = rd_new rd (uint bp) 4"

definition supply_apr_from_borrow :: "'n rust_decimal \<Rightarrow> decimal \<Rightarrow> u32 \<Rightarrow> u32 \<Rightarrow> rate_error + decimal" where
  "supply_apr_from_borrow rd borrow_apr utilization_bp reserve_factor_bp =
     (if utilization_bp > 10000 then Err (RateText (''utilization '' @ dec_word utilization_bp @ '' bp > 10000''))
      else if reserve_factor_bp > 10000 then
        Err (RateText (''reserve_factor '' @ dec_word reserve_factor_bp @ '' bp > 10000''))
      else
        bind_result (ok_or (RateParse (decimal_str borrow_apr)) (rd_from_str rd (decimal_str borrow_apr))) (\<lambda>borrow_dec.
          let util_factor = bp_to_rust_decimal rd utilization_bp;
              rf_factor = bp_to_rust_decimal rd (10000 - reserve_factor_bp)
          in Ok (decimal_to_state rd (rd_mul rd (rd_mul rd borrow_dec util_factor) rf_factor))))"

text \<open>\<open>map_err(|msg| ReducerError::Invariant(format!("prefix: {msg}")))\<close>.\<close>

fun rate_invariant :: "string \<Rightarrow> rate_error \<Rightarrow> reducer_error" where
  "rate_invariant pre (RateText msg) = Invariant (Text (pre @ '': '' @ msg))"
| "rate_invariant pre (RateParse s) = Invariant (BadDecimalIn pre s)"

section \<open>Venues\<close>

definition aave_v2_borrow_rate :: "reserve_state \<Rightarrow> decimal reducer_result" where
  "aave_v2_borrow_rate reserve =
     map_err (rate_invariant ''aave_v2 rate'') (two_slope_borrow_apr (rs_utilization_bp reserve) 0 400 7500 8000)"

definition aave_v3_borrow_rate :: "reserve_state \<Rightarrow> decimal reducer_result" where
  "aave_v3_borrow_rate reserve =
     map_err (rate_invariant ''aave_v3 rate'') (two_slope_borrow_apr (rs_utilization_bp reserve) 0 400 6000 8000)"

definition spark_borrow_rate :: "reserve_state \<Rightarrow> decimal reducer_result" where
  "spark_borrow_rate reserve =
     map_err (rate_invariant ''spark rate'') (two_slope_borrow_apr (rs_utilization_bp reserve) 0 400 6000 8000)"

definition compound_v2_borrow_rate :: "reserve_state \<Rightarrow> decimal reducer_result" where
  "compound_v2_borrow_rate reserve =
     map_err (rate_invariant ''compound_v2 rate'') (two_slope_borrow_apr (rs_utilization_bp reserve) 0 500 10900 8000)"

definition compound_v2_supply_rate :: "'n rust_decimal \<Rightarrow> reserve_state \<Rightarrow> decimal reducer_result" where
  "compound_v2_supply_rate rd reserve =
     bind_result (compound_v2_borrow_rate reserve) (\<lambda>borrow.
       map_err (rate_invariant ''compound_v2 supply rate'')
         (supply_apr_from_borrow rd borrow (rs_utilization_bp reserve) (rs_reserve_factor_bp reserve)))"

definition compound_v3_borrow_rate :: "reserve_state \<Rightarrow> decimal reducer_result" where
  "compound_v3_borrow_rate reserve =
     map_err (rate_invariant ''compound_v3 rate'') (two_slope_borrow_apr (rs_utilization_bp reserve) 150 350 17000 9300)"

definition compound_v3_supply_rate :: "'n rust_decimal \<Rightarrow> reserve_state \<Rightarrow> decimal reducer_result" where
  "compound_v3_supply_rate rd reserve =
     bind_result (compound_v3_borrow_rate reserve) (\<lambda>borrow.
       map_err (rate_invariant ''compound_v3 supply rate'')
         (supply_apr_from_borrow rd borrow (rs_utilization_bp reserve) (rs_reserve_factor_bp reserve)))"

definition fluid_borrow_rate :: "reserve_state \<Rightarrow> decimal reducer_result" where
  "fluid_borrow_rate vault_state =
     map_err (rate_invariant ''fluid rate'') (two_slope_borrow_apr (rs_utilization_bp vault_state) 0 400 6000 8000)"

definition asset_to_fluid_shares :: "reserve_state \<Rightarrow> u256 \<Rightarrow> u256 reducer_result" where
  "asset_to_fluid_shares vault_state asset_amount =
     (let total_assets = rs_total_supply vault_state; total_shares = rs_total_supply vault_state in
      bind_result (checked_add_or ''fluid: virtual shares overflow'' total_shares 1) (\<lambda>numer_factor.
      bind_result (checked_add_or ''fluid: virtual assets overflow'' total_assets 1) (\<lambda>denom.
      bind_result (checked_mul_or ''fluid: asset_to_shares overflow'' asset_amount numer_factor) (\<lambda>numer.
        if denom = 0 then Err (Invariant (Text ''fluid: zero denominator (impossible with virtual offset)''))
        else Ok (numer div denom)))))"

definition fluid_shares_to_asset :: "reserve_state \<Rightarrow> u256 \<Rightarrow> u256 reducer_result" where
  "fluid_shares_to_asset vault_state share_amount =
     (let total_assets = rs_total_supply vault_state; total_shares = rs_total_supply vault_state in
      bind_result (checked_add_or ''fluid: virtual assets overflow'' total_assets 1) (\<lambda>numer_factor.
      bind_result (checked_add_or ''fluid: virtual shares overflow'' total_shares 1) (\<lambda>denom.
      bind_result (checked_mul_or ''fluid: shares_to_asset overflow'' share_amount numer_factor) (\<lambda>numer.
        if denom = 0 then Err (Invariant (Text ''fluid: zero denominator (impossible with virtual offset)''))
        else Ok (numer div denom)))))"

definition VIRTUAL_SHARES :: u256 where
  "VIRTUAL_SHARES = 1000000"

definition VIRTUAL_ASSETS :: u256 where
  "VIRTUAL_ASSETS = 1"

text \<open>The messages of the two impossible zero denominators are shortened to their ASCII part.\<close>

definition shares_to_assets :: "u256 \<Rightarrow> u256 \<Rightarrow> u256 \<Rightarrow> u256 reducer_result" where
  "shares_to_assets market_total_assets market_total_shares shares =
     bind_result (checked_add_or ''morpho_blue: virtual assets overflow'' market_total_assets VIRTUAL_ASSETS) (\<lambda>numer_factor.
     bind_result (checked_add_or ''morpho_blue: virtual shares overflow'' market_total_shares VIRTUAL_SHARES) (\<lambda>denom.
       if denom = 0 then Err (Invariant (Text ''morpho_blue: zero denominator''))
       else
         bind_result (checked_mul_or ''morpho_blue: shares_to_assets multiplication overflow'' shares numer_factor) (\<lambda>numer.
           Ok (numer div denom))))"

definition assets_to_shares :: "u256 \<Rightarrow> u256 \<Rightarrow> u256 \<Rightarrow> u256 reducer_result" where
  "assets_to_shares market_total_assets market_total_shares assets =
     bind_result (checked_add_or ''morpho_blue: virtual shares overflow'' market_total_shares VIRTUAL_SHARES) (\<lambda>numer_factor.
     bind_result (checked_add_or ''morpho_blue: virtual assets overflow'' market_total_assets VIRTUAL_ASSETS) (\<lambda>denom.
       if denom = 0 then Err (Invariant (Text ''morpho_blue: zero denominator''))
       else
         bind_result (checked_mul_or ''morpho_blue: assets_to_shares multiplication overflow'' assets numer_factor) (\<lambda>numer.
           Ok (numer div denom))))"

definition morpho_blue_borrow_rate :: "reserve_state \<Rightarrow> decimal reducer_result" where
  "morpho_blue_borrow_rate irm_state = Err (UnsupportedProtocol ''current_borrow_rate'' ''morpho_blue'')"

text \<open>Morpho Optimizer blends the pool rates.\<close>

definition midpoint_decimal :: "'n rust_decimal \<Rightarrow> decimal \<Rightarrow> decimal \<Rightarrow> decimal reducer_result" where
  "midpoint_decimal rd a b =
     bind_result (ok_or (Invariant (LibError ''midpoint a parse'')) (rd_from_str rd (decimal_str a))) (\<lambda>a.
     bind_result (ok_or (Invariant (LibError ''midpoint b parse'')) (rd_from_str rd (decimal_str b))) (\<lambda>b.
       Ok (decimal_to_state rd (rd_div rd (rd_add rd a b) (rd_from_u32 rd 2)))))"

definition blend_decimal :: "'n rust_decimal \<Rightarrow> decimal \<Rightarrow> decimal \<Rightarrow> u32 \<Rightarrow> decimal reducer_result" where
  "blend_decimal rd a b weight_bp =
     (if weight_bp > 10000 then Err (Invariant (Text (''blend weight '' @ dec_word weight_bp @ '' bp > 10000'')))
      else
        bind_result (ok_or (Invariant (LibError ''blend a parse'')) (rd_from_str rd (decimal_str a))) (\<lambda>a_dec.
        bind_result (ok_or (Invariant (LibError ''blend b parse'')) (rd_from_str rd (decimal_str b))) (\<lambda>b_dec.
          let w = rd_new rd (uint weight_bp) 4; inv_w = rd_new rd (uint (10000 - weight_bp)) 4
          in Ok (decimal_to_state rd (rd_add rd (rd_mul rd a_dec w) (rd_mul rd b_dec inv_w))))))"

definition optimizer_pool_rates :: "'n rust_decimal \<Rightarrow> reserve_state \<Rightarrow> (decimal \<times> decimal \<times> decimal) reducer_result" where
  "optimizer_pool_rates rd reserve =
     bind_result (map_err (rate_invariant ''morpho_optimizer pool rate'')
       (two_slope_borrow_apr (rs_utilization_bp reserve) 0 400 6000 8000)) (\<lambda>pool_borrow.
     bind_result (map_err (rate_invariant ''morpho_optimizer pool supply'')
       (supply_apr_from_borrow rd pool_borrow (rs_utilization_bp reserve) (rs_reserve_factor_bp reserve))) (\<lambda>pool_supply.
     bind_result (midpoint_decimal rd pool_supply pool_borrow) (\<lambda>p2p_mid.
       Ok (pool_borrow, pool_supply, p2p_mid))))"

definition p2p_supply_rate :: "'n rust_decimal \<Rightarrow> reserve_state \<Rightarrow> decimal reducer_result" where
  "p2p_supply_rate rd reserve =
     bind_result (optimizer_pool_rates rd reserve) (\<lambda>(pool_borrow, pool_supply, p2p_mid).
       let supply_match_bp = 10000 - min (rs_utilization_bp reserve) 10000
       in blend_decimal rd p2p_mid pool_supply supply_match_bp)"

definition p2p_borrow_rate :: "'n rust_decimal \<Rightarrow> reserve_state \<Rightarrow> decimal reducer_result" where
  "p2p_borrow_rate rd reserve =
     bind_result (optimizer_pool_rates rd reserve) (\<lambda>(pool_borrow, pool_supply, p2p_mid).
       let borrow_match_bp = 10000 - min (rs_utilization_bp reserve) 10000
       in blend_decimal rd p2p_mid pool_borrow borrow_match_bp)"

section \<open>Health factor and loan-to-value\<close>

definition lookup_price :: "'n rust_decimal \<Rightarrow> token_ref \<Rightarrow> (token_ref \<times> decimal) list \<Rightarrow> 'n reducer_result" where
  "lookup_price rd token table =
     bind_result (ok_or (Invariant (KeyText ''missing price for token'' (ref_key token)))
       (List.find (\<lambda>(t, _). t = token) table)) (\<lambda>(_, p). derived_parse_decimal rd p)"

definition lookup_lt_bp :: "token_ref \<Rightarrow> (token_ref \<times> u32) list \<Rightarrow> u32 reducer_result" where
  "lookup_lt_bp token table =
     ok_or (Invariant (KeyText ''missing liquidation threshold for token'' (ref_key token)))
       (map_option snd (List.find (\<lambda>(t, _). t = token) table))"

definition HF_INFINITY :: string where
  "HF_INFINITY = ''999999999''"

definition weighted_collateral ::
  "'n rust_decimal \<Rightarrow> (token_ref \<times> decimal) list \<Rightarrow> (token_ref \<times> u32) list \<Rightarrow> (token_ref \<times> u256) list \<Rightarrow> 'n reducer_result" where
  "weighted_collateral rd prices lts cs =
     try_fold (\<lambda>acc (token, amount).
       bind_result (lookup_price rd token prices) (\<lambda>price.
       bind_result (lookup_lt_bp token lts) (\<lambda>lt_bp.
       bind_result (u256_to_decimal rd amount) (\<lambda>amt.
         let lt_factor = rd_div rd (rd_from_u32 rd lt_bp) (rd_from_u32 rd 10000)
         in Ok (rd_add rd acc (rd_mul rd (rd_mul rd amt price) lt_factor))))))
       (rd_from_u32 rd 0) cs"

definition total_value ::
  "'n rust_decimal \<Rightarrow> (token_ref \<times> decimal) list \<Rightarrow> (token_ref \<times> u256) list \<Rightarrow> 'n reducer_result" where
  "total_value rd prices xs =
     try_fold (\<lambda>acc (token, amount).
       bind_result (lookup_price rd token prices) (\<lambda>price.
       bind_result (u256_to_decimal rd amount) (\<lambda>amt. Ok (rd_add rd acc (rd_mul rd amt price)))))
       (rd_from_u32 rd 0) xs"

definition recompute_health_factor ::
  "'n rust_decimal \<Rightarrow> lending_account \<Rightarrow> (token_ref \<times> decimal) list \<Rightarrow> (token_ref \<times> decimal) list \<Rightarrow>
   (token_ref \<times> u32) list \<Rightarrow> decimal reducer_result" where
  "recompute_health_factor rd account collateral_prices debt_prices liquidation_thresholds =
     bind_result (weighted_collateral rd collateral_prices liquidation_thresholds (la_collaterals account)) (\<lambda>weighted_collat.
     bind_result (total_value rd debt_prices (map (\<lambda>(t, a, _). (t, a)) (la_debts account))) (\<lambda>total_debt.
       if rd_is_zero rd total_debt then Ok (Decimal HF_INFINITY)
       else Ok (decimal_to_state rd (rd_div rd weighted_collat total_debt))))"

definition recompute_ltv ::
  "'n rust_decimal \<Rightarrow> lending_account \<Rightarrow> (token_ref \<times> decimal) list \<Rightarrow> (token_ref \<times> decimal) list \<Rightarrow> decimal reducer_result" where
  "recompute_ltv rd account collateral_prices debt_prices =
     bind_result (total_value rd collateral_prices (la_collaterals account)) (\<lambda>total_collat.
     bind_result (total_value rd debt_prices (map (\<lambda>(t, a, _). (t, a)) (la_debts account))) (\<lambda>total_debt.
       if rd_is_zero rd total_debt then Ok decimal_zero
       else if rd_is_zero rd total_collat then Err (Invariant (Text ''LTV undefined: debt > 0 with zero collateral''))
       else Ok (decimal_to_state rd (rd_div rd total_debt total_collat))))"

section \<open>Decimal texts\<close>

text \<open>The number a decimal text without sign or exponent stands for.\<close>

definition read_decimal :: "string \<Rightarrow> rat option" where
  "read_decimal s =
     (let ipart = takeWhile (\<lambda>c. c \<noteq> CHR ''.'') s; rest = dropWhile (\<lambda>c. c \<noteq> CHR ''.'') s in
      if rest = [] then map_option of_nat (read_nat ipart)
      else case (read_nat ipart, read_nat (tl rest)) of
        (Some a, Some b) \<Rightarrow> Some (of_nat a + of_nat b / 10 ^ length (tl rest))
      | _ \<Rightarrow> None)"

lemma dot_no_digit: "\<not> is_ascii_digit (CHR ''.'')"
  by (simp add: is_ascii_digit_def)

lemma dot_notin_dec_string: "CHR ''.'' \<notin> set (dec_string n)"
  using dec_string_digits dot_no_digit by blast

lemma read_decimal_int: "read_decimal (dec_string n) = Some (of_nat n)"
proof -
  have "\<forall>c\<in>set (dec_string n). c \<noteq> CHR ''.''"
    using dot_notin_dec_string by metis
  then have "takeWhile (\<lambda>c. c \<noteq> CHR ''.'') (dec_string n) = dec_string n"
    by (simp add: takeWhile_eq_all_conv)
  then show ?thesis
    using dot_notin_dec_string [of n] by (auto simp: read_decimal_def Let_def simp del: takeWhile_eq_all_conv)
qed

lemma read_decimal_point:
  assumes "f \<noteq> []" and "\<forall>c\<in>set f. is_ascii_digit c"
  shows "read_decimal (dec_string n @ ''.'' @ f) = Some (of_nat n + of_nat (undigits 10 f) / 10 ^ length f)"
proof -
  have "\<forall>c\<in>set (dec_string n). c \<noteq> CHR ''.''"
    using dot_notin_dec_string by metis
  then show ?thesis
    using assms by (simp add: read_decimal_def Let_def takeWhile_append2 dropWhile_append2 read_nat_def [of f] list_all_iff)
qed

lemma undigits_zeros: "undigits b (replicate k (CHR ''0'') @ s) = undigits b s"
  by (induction k) (simp_all add: undigits_def char_digit_def)

lemma length_dec_string: "n < 10 ^ k \<Longrightarrow> 0 < k \<Longrightarrow> length (dec_string n) \<le> k"
proof (induction k arbitrary: n)
  case (Suc k)
  show ?case
  proof (cases "n < 10")
    case False
    with Suc.prems have "n div 10 < 10 ^ k"
      by (simp add: less_mult_imp_div_less mult.commute)
    moreover from this False have "0 < k"
      by (cases k) auto
    ultimately show ?thesis
      using Suc.IH [of "n div 10"] False by (simp add: dec_string.simps [of n])
  qed (simp add: dec_string.simps [of n])
qed simp

lemma dec_fixed_facts:
  assumes "n < 10 ^ k" and "0 < k"
  shows "length (dec_fixed k n) = k" "undigits 10 (dec_fixed k n) = n" "\<forall>c\<in>set (dec_fixed k n). is_ascii_digit c"
  using length_dec_string [OF assms] dec_string_digits
  by (auto simp: dec_fixed_def undigits_zeros undigits_dec_string is_ascii_digit_def [of "CHR ''0''"])

text \<open>Trailing zeros do not change a fraction.\<close>

lemma strip_zeros_value:
  "(of_nat (undigits 10 (strip_zeros s)) :: rat) / 10 ^ length (strip_zeros s) = of_nat (undigits 10 s) / 10 ^ length s \<and>
   set (strip_zeros s) \<subseteq> set s"
proof (induction s rule: strip_zeros.induct)
  case (1 s)
  show ?case
  proof (cases "s \<noteq> [] \<and> last s = CHR ''0''")
    case True
    then have s: "s = butlast s @ [CHR ''0'']"
      by (metis append_butlast_last_id)
    then have "undigits 10 s = 10 * undigits 10 (butlast s)"
      using undigits_snoc [of 10 "butlast s" "CHR ''0''"] by (simp add: char_digit_def)
    moreover have "length s = Suc (length (butlast s))"
      using arg_cong [OF s, of length] by simp
    ultimately show ?thesis
      using 1 [OF True] True by (auto simp del: length_butlast simp: strip_zeros.simps [of s] dest: in_set_butlastD)
  next
    case False
    then have "strip_zeros s = s"
      by (subst strip_zeros.simps) auto
    then show ?thesis
      by simp
  qed
qed

lemma bp_to_decimal_reads: "read_decimal (decimal_str (bp_to_decimal bp)) = Some (of_nat (unat bp) / 10000)"
proof -
  let ?i = "unat (bp div 10000)" and ?f = "unat (bp mod 10000)"
  have split: "unat bp = ?i * 10000 + ?f" and lt: "?f < 10 ^ 4"
    by (simp_all add: unat_div_distrib unat_mod_distrib)
  have amount: "of_nat (unat bp) / 10000 = (of_nat ?i :: rat) + of_nat ?f / 10000"
    unfolding split by (simp add: field_simps)
  show ?thesis
  proof (cases "bp mod 10000 = 0")
    case True
    then show ?thesis
      using amount by (simp add: bp_to_decimal_def Let_def dec_word_def read_decimal_int)
  next
    case False
    then have "?f \<noteq> 0"
      by (simp add: unat_eq_0)
    let ?s = "strip_zeros (dec_fixed 4 ?f)"
    have val: "(of_nat (undigits 10 ?s) :: rat) / 10 ^ length ?s = of_nat ?f / 10000" and "set ?s \<subseteq> set (dec_fixed 4 ?f)"
      using strip_zeros_value [of "dec_fixed 4 ?f"] dec_fixed_facts [OF lt] by simp_all
    then have "\<forall>c\<in>set ?s. is_ascii_digit c"
      using dec_fixed_facts(3) [OF lt] by auto
    moreover have "(of_nat ?f :: rat) \<noteq> 0"
      using \<open>?f \<noteq> 0\<close> by (simp only: of_nat_eq_0_iff not_False_eq_True)
    with val have "?s \<noteq> []"
      by (auto simp: undigits_def simp del: of_nat_unat)
    ultimately show ?thesis
      using False amount val read_decimal_point [of ?s ?i] by (simp add: bp_to_decimal_def Let_def dec_word_def)
  qed
qed

section \<open>The two-slope rate\<close>

definition two_slope_nat :: "nat \<Rightarrow> nat \<Rightarrow> nat \<Rightarrow> nat \<Rightarrow> nat \<Rightarrow> nat" where
  "two_slope_nat u b s1 s2 opt =
     (if u \<le> opt then b + s1 * u div opt else b + s1 + s2 * (u - opt) div (10000 - opt))"

lemma unat_widen: "unat (ucast (x :: u32) :: u64) = unat x"
  by (simp add: unat_ucast_up)

lemma unat_rate_product:
  fixes s x :: u32
  assumes "unat x \<le> 10000"
  shows "unat (ucast s * ucast x :: u64) = unat s * unat x" "unat s * unat x < 2 ^ 46"
proof -
  have "unat s < 2 ^ 32"
    using unat_fits [of s] by simp
  then have "unat s * unat x \<le> 2 ^ 32 * 10000"
    using assms by (intro mult_le_mono) simp_all
  then show "unat s * unat x < 2 ^ 46" "unat (ucast s * ucast x :: u64) = unat s * unat x"
    by (simp_all add: unat_word_ariths unat_widen)
qed

lemma two_slope_rate_bp_nat:
  assumes "u \<le> 10000" and "0 < opt" and "opt < 10000"
  shows "unat (two_slope_rate_bp u b s1 s2 opt) = two_slope_nat (unat u) (unat b) (unat s1) (unat s2) (unat opt)"
proof -
  have bounds: "unat u \<le> 10000" "unat opt < 10000" "0 < unat opt" "unat b < 2 ^ 32" "unat s1 < 2 ^ 32"
    using assms unat_fits [of b] unat_fits [of s1] by (simp_all add: word_le_nat_alt word_less_nat_alt)
  show ?thesis
  proof (cases "u \<le> opt")
    case True
    have "unat s1 * unat u div unat opt < 2 ^ 46"
      using unat_rate_product(2) [OF bounds(1), of s1] by (meson div_le_dividend le_less_trans)
    then show ?thesis
      using True bounds unat_rate_product(1) [OF bounds(1), of s1]
      by (simp add: two_slope_rate_bp_def two_slope_nat_def unat_word_ariths(1) unat_div_distrib unat_widen word_le_nat_alt)
  next
    case False
    then have ex: "unat (u - opt) = unat u - unat opt" "unat (10000 - opt) = 10000 - unat opt"
      using assms by (simp_all add: unat_sub word_le_nat_alt word_less_nat_alt)
    then have le: "unat (u - opt) \<le> 10000"
      using bounds(1) by simp
    have "unat s2 * unat (u - opt) div unat (10000 - opt) < 2 ^ 46"
      using unat_rate_product(2) [OF le, of s2] by (meson div_le_dividend le_less_trans)
    then show ?thesis
      using False bounds unat_rate_product(1) [OF le, of s2]
      by (simp add: two_slope_rate_bp_def two_slope_nat_def Let_def unat_word_ariths(1) unat_div_distrib unat_widen ex word_le_nat_alt)
  qed
qed

lemma two_slope_nat_mono:
  assumes "u \<le> u'" and "0 < opt"
  shows "two_slope_nat u b s1 s2 opt \<le> two_slope_nat u' b s1 s2 opt"
proof -
  have "s1 * u div opt \<le> s1 * u' div opt" "s2 * (u - opt) div (10000 - opt) \<le> s2 * (u' - opt) div (10000 - opt)"
    using assms(1) by (auto intro!: div_le_mono mult_le_mono diff_le_mono)
  moreover have "s1 * u div opt \<le> s1" if "u \<le> opt"
    using that assms(2) div_le_mono [of "s1 * u" "s1 * opt" opt] by simp
  ultimately show ?thesis
    using assms by (auto simp: two_slope_nat_def trans_le_add1)
qed

lemma two_slope_nat_bounds:
  assumes "u \<le> 10000" and "0 < opt" and "opt < 10000"
  shows "b \<le> two_slope_nat u b s1 s2 opt" "two_slope_nat u b s1 s2 opt \<le> b + s1 + s2"
proof -
  have "two_slope_nat u b s1 s2 opt \<le> two_slope_nat 10000 b s1 s2 opt"
    using assms by (intro two_slope_nat_mono) simp_all
  then show "two_slope_nat u b s1 s2 opt \<le> b + s1 + s2"
    using assms by (simp add: two_slope_nat_def split: if_splits)
  show "b \<le> two_slope_nat u b s1 s2 opt"
    by (simp add: two_slope_nat_def)
qed

lemma two_slope_borrow_apr_reads:
  assumes "two_slope_borrow_apr u b s1 s2 opt = Ok r"
  shows "u \<le> 10000" "0 < opt" "opt < 10000"
    "read_decimal (decimal_str r) = Some (of_nat (two_slope_nat (unat u) (unat b) (unat s1) (unat s2) (unat opt)) / 10000)"
proof -
  show c: "u \<le> 10000" "0 < opt" "opt < 10000"
    using assms by (auto simp: two_slope_borrow_apr_def not_less not_le word_gt_0 split: if_splits)
  then have "r = bp_to_decimal (two_slope_rate_bp u b s1 s2 opt)"
    using assms by (auto simp: two_slope_borrow_apr_def split: if_splits)
  then show "read_decimal (decimal_str r) = Some (of_nat (two_slope_nat (unat u) (unat b) (unat s1) (unat s2) (unat opt)) / 10000)"
    using two_slope_rate_bp_nat [OF c] by (simp add: bp_to_decimal_reads)
qed

text \<open>The documented rate, in basis points and without rounding.\<close>

definition two_slope_linear :: "nat \<Rightarrow> nat \<Rightarrow> nat \<Rightarrow> nat \<Rightarrow> nat \<Rightarrow> rat" where
  "two_slope_linear u b s1 s2 opt =
     (if u < opt then of_nat b + of_nat s1 * (of_nat u / of_nat opt)
      else of_nat b + of_nat s1 + of_nat s2 * of_nat (u - opt) / of_nat (10000 - opt))"

lemma floor_rate: "\<lfloor>of_nat c + of_nat m / of_nat n :: rat\<rfloor> = int (c + m div n)"
proof -
  have "\<lfloor>of_nat c + of_nat m / of_nat n :: rat\<rfloor> = \<lfloor>of_nat m / of_nat n + of_int (int c) :: rat\<rfloor>"
    by (simp add: add.commute)
  then show ?thesis
    unfolding floor_add_int [symmetric] floor_divide_of_nat_eq by simp
qed

lemma two_slope_floor:
  assumes "0 < opt"
  shows "int (two_slope_nat u b s1 s2 opt) = \<lfloor>two_slope_linear u b s1 s2 opt\<rfloor>"
proof (cases "u < opt")
  case True
  then show ?thesis
    using floor_rate [of b "s1 * u" opt] by (simp add: two_slope_linear_def two_slope_nat_def)
next
  case False
  then have "two_slope_nat u b s1 s2 opt = b + s1 + s2 * (u - opt) div (10000 - opt)"
    using assms by (auto simp: two_slope_nat_def)
  then show ?thesis
    using False floor_rate [of "b + s1" "s2 * (u - opt)" "10000 - opt"] by (simp add: two_slope_linear_def)
qed

section \<open>Properties\<close>

text \<open>
  C22. The two-slope borrow rate is the documented piecewise linear rate rounded down to a whole basis point: the text
  it returns reads back to that number over ten thousand, with no further rounding in the text and no
  wrap-around in its 64-bit arithmetic; a higher utilization never gives a lower rate, and the rate stays
  between the base rate and the base rate plus both slopes.
\<close>

theorem two_slope_rate_sound:
  assumes "two_slope_borrow_apr u b s1 s2 opt = Ok r" and "two_slope_borrow_apr u' b s1 s2 opt = Ok r'" and "u \<le> u'"
  shows "\<exists>x x'. read_decimal (decimal_str r) = Some x \<and> read_decimal (decimal_str r') = Some x' \<and>
    x = of_int \<lfloor>two_slope_linear (unat u) (unat b) (unat s1) (unat s2) (unat opt)\<rfloor> / 10000 \<and>
    x \<le> x' \<and> of_nat (unat b) / 10000 \<le> x \<and> x' \<le> of_nat (unat b + unat s1 + unat s2) / 10000"
proof -
  let ?n = "\<lambda>u. two_slope_nat (unat u) (unat b) (unat s1) (unat s2) (unat opt)"
  have c: "unat u \<le> 10000" "unat u' \<le> 10000" "0 < unat opt" "unat opt < 10000" "unat u \<le> unat u'"
    using two_slope_borrow_apr_reads(1-3) [OF assms(1)] two_slope_borrow_apr_reads(1) [OF assms(2)] assms(3)
    by (simp_all add: word_le_nat_alt word_less_nat_alt)
  have "unat b \<le> ?n u" "?n u \<le> ?n u'" "?n u' \<le> unat b + unat s1 + unat s2"
    using two_slope_nat_bounds [OF c(1,3,4)] two_slope_nat_bounds [OF c(2,3,4)] two_slope_nat_mono [OF c(5,3)] by blast+
  then have "(of_nat (unat b) :: rat) \<le> of_nat (?n u)" "(of_nat (?n u) :: rat) \<le> of_nat (?n u')"
    "(of_nat (?n u') :: rat) \<le> of_nat (unat b + unat s1 + unat s2)"
    by (simp_all only: of_nat_le_iff)
  moreover have "of_int \<lfloor>two_slope_linear (unat u) (unat b) (unat s1) (unat s2) (unat opt)\<rfloor> = (of_nat (?n u) :: rat)"
    unfolding two_slope_floor [OF c(3), symmetric] by simp
  ultimately show ?thesis
    using two_slope_borrow_apr_reads(4) [OF assms(1)] two_slope_borrow_apr_reads(4) [OF assms(2)]
    by (intro exI conjI) (assumption | rule refl | simp add: divide_right_mono)+
qed

theorem two_slope_rate_sound_witness:
  "\<exists>r r' x x'. two_slope_borrow_apr 4000 0 400 6000 8000 = Ok r \<and> two_slope_borrow_apr 9000 0 400 6000 8000 = Ok r' \<and>
     read_decimal (decimal_str r) = Some x \<and> read_decimal (decimal_str r') = Some x' \<and> x = 1 / 50 \<and> x \<le> x'"
proof -
  have r: "two_slope_borrow_apr 4000 0 400 6000 8000 = Ok (bp_to_decimal (two_slope_rate_bp 4000 0 400 6000 8000))"
    "two_slope_borrow_apr 9000 0 400 6000 8000 = Ok (bp_to_decimal (two_slope_rate_bp 9000 0 400 6000 8000))"
    by (simp_all add: two_slope_borrow_apr_def)
  have "(4000 :: u32) \<le> 9000" "\<lfloor>two_slope_linear 4000 0 400 6000 8000\<rfloor> = 200"
    by (simp_all add: two_slope_linear_def)
  then show ?thesis
    using two_slope_rate_sound [OF r] r by auto
qed

text \<open>
  C23. Converting an amount to Morpho Blue shares and back at the same market never gains: the virtual offsets keep
  the denominators positive, both divisions round down, and the loss is less than the price of one share
  plus one unit.
\<close>

theorem morpho_roundtrip:
  assumes "assets_to_shares A S a = Ok s" and "shares_to_assets A S s = Ok a'"
  shows "a' \<le> a \<and> unat a < unat a' + (unat A + 1) div (unat S + 1000000) + 2"
proof -
  let ?A = "unat A + 1" and ?S = "unat S + 1000000"
  have s: "unat s = unat a * ?S div ?A" and a': "unat a' = unat s * ?A div ?S"
    using assms
    by (auto simp: assets_to_shares_def shares_to_assets_def VIRTUAL_SHARES_def VIRTUAL_ASSETS_def bind_result_eq_Ok
        checked_simps unat_div_distrib split: if_splits)
  have "unat s * ?A \<le> unat a * ?S"
    unfolding s by (rule div_times_less_eq_dividend)
  then have "unat a' \<le> unat a * ?S div ?S"
    unfolding a' by (rule div_le_mono)
  moreover have "unat a * ?S < ?A + unat s * ?A"
    unfolding s by (rule dividend_less_div_times) simp
  moreover have "unat s * ?A < ?S + unat a' * ?S"
    unfolding a' by (rule dividend_less_div_times) simp
  moreover have "?A < ?S + ?A div ?S * ?S"
    by (rule dividend_less_div_times) simp
  ultimately have le: "unat a' \<le> unat a" and "unat a * ?S < ?S + ?A div ?S * ?S + (?S + unat a' * ?S)"
    by simp_all
  then have "unat a * ?S < (unat a' + ?A div ?S + 2) * ?S"
    by (simp add: algebra_simps)
  then have "unat a < unat a' + ?A div ?S + 2"
    by (simp only: mult_less_cancel2)
  with le show ?thesis
    by (simp add: word_le_nat_alt)
qed

theorem morpho_roundtrip_witness:
  "\<exists>s a'. assets_to_shares 7 3000000 10 = Ok s \<and> shares_to_assets 7 3000000 s = Ok a' \<and> a' \<le> 10"
proof -
  have q: "assets_to_shares 7 3000000 10 = Ok 5000000" "shares_to_assets 7 3000000 5000000 = Ok 10"
    by code_simp+
  show ?thesis
    using morpho_roundtrip [OF q] q by blast
qed

end
