(* ===== verification/Position_Flow.thy ===== *)
theory Position_Flow
  imports Position_Helpers Balance_Flow
begin

text \<open>
  Position changes of the reducers that keep one position per venue: lending accounts, perpetual
  positions and launchpad allocations. A delta's positions are those of its position changes alone,
  and a queued snapshot replaces the first position of its id.
\<close>

section \<open>Positions of a delta\<close>

lemma position_fold_cong:
  assumes "try_fold (apply_position_change cd) w pcs = Ok w'" and "ws_positions v = ws_positions w"
  shows "\<exists>v'. try_fold (apply_position_change cd) v pcs = Ok v' \<and> ws_positions v' = ws_positions w'"
  using assms
proof (induction pcs arbitrary: w v)
  case (Cons pc pcs)
  then obtain u where u: "apply_position_change cd w pc = Ok u" "try_fold (apply_position_change cd) u pcs = Ok w'"
    by (auto simp: bind_result_eq_Ok)
  with Cons.prems(2) have "apply_position_change cd v pc = Ok (v\<lparr>ws_positions := ws_positions u\<rparr>)"
    by (cases pc) (auto simp: Let_def bind_result_eq_Ok split: option.splits if_splits)
  with Cons.IH [OF u(2), of "v\<lparr>ws_positions := ws_positions u\<rparr>"] show ?case
    by simp
qed simp

lemma builds_positions:
  assumes "builds cd w d w'"
  shows "\<exists>v. try_fold (apply_position_change cd) w (position_changes d) = Ok v \<and> ws_positions w' = ws_positions v"
proof -
  from assms obtain w1 w2 w3 where steps:
    "try_fold apply_token_change w (token_changes d) = Ok w1"
    "try_fold (apply_position_change cd) w1 (position_changes d) = Ok w2"
    "try_fold apply_pending_change w2 (pending_changes d) = Ok w3" "apply_gas w3 (gas_paid d) = Ok w'"
    unfolding builds_def by (auto elim: apply_delta_parts)
  then have "ws_positions w' = ws_positions w2"
    using pending_fold_frame [OF steps(3)] assms by (auto simp: builds_def apply_gas_def)
  moreover have "ws_positions w = ws_positions w1"
    using token_fold_frame [OF steps(1)] by simp
  ultimately show ?thesis
    using position_fold_cong [OF steps(2), of w] by auto
qed

lemma builds_push_position:
  assumes "builds cd w d w1" and "apply_position_change cd w1 pc = Ok w2"
  shows "builds cd w (push_position pc d) w2"
  using assms apply_push_position [of d cd w pc w2] by (auto simp: builds_def push_position_def)

lemma position_change_tokens:
  "apply_position_change cd w pc = Ok w' \<Longrightarrow> ws_tokens w' = ws_tokens w \<and> ws_wallet_id w' = ws_wallet_id w"
  by (cases pc) (auto simp: Let_def bind_result_eq_Ok split: option.splits if_splits)

lemma same_tokens_balance: "ws_tokens w' = ws_tokens w \<Longrightarrow> balance_of w' = balance_of w"
  by (auto simp: balance_of_def)

section \<open>Snapshots\<close>

text \<open>The wallet with the first position of the id of \<open>p\<close> replaced by \<open>p\<close>.\<close>

definition put_position :: "position \<Rightarrow> wallet_state \<Rightarrow> position list" where
  "put_position p w =
     (case update_first (\<lambda>q. pos_id q = pos_id p) (\<lambda>_. Ok p :: unit + position) (ws_positions w) of
        Some (Ok ps) \<Rightarrow> ps
      | _ \<Rightarrow> ws_positions w)"

lemma put_position_split:
  assumes "ws_positions w = us @ q # vs" and "pos_id q = pos_id p" and "\<forall>u\<in>set us. pos_id u \<noteq> pos_id p"
  shows "put_position p w = us @ p # vs"
  using assms by (simp add: put_position_def update_first_split)

lemma find_put_position:
  assumes "find_id (pos_id p) w = Some q"
  shows "List.find (\<lambda>q. pos_id q = j) (put_position p w) = (if j = pos_id p then Some p else find_id j w)"
    "map pos_id (put_position p w) = ids w"
proof -
  obtain us vs where "ws_positions w = us @ q # vs" "pos_id q = pos_id p" "\<forall>u\<in>set us. pos_id u \<noteq> pos_id p"
    using assms by (rule find_id_split)
  moreover from this(3) have "List.find (\<lambda>q. pos_id q = pos_id p) us = None"
    by (auto simp: find_None_iff)
  ultimately show "List.find (\<lambda>q. pos_id q = j) (put_position p w) = (if j = pos_id p then Some p else find_id j w)"
    "map pos_id (put_position p w) = ids w"
    by (auto simp: put_position_split find_id_def find_append split: option.splits)
qed

lemma snapshot_applies:
  assumes "find_id (pos_id p) w = Some q" and "codec_roundtrips cd p"
  shows "apply_position_change cd w (PosUpdate (pos_id p) (snapshot_patch cd p)) = Ok (w\<lparr>ws_positions := put_position p w\<rparr>)"
proof -
  obtain us vs where "ws_positions w = us @ q # vs" "pos_id q = pos_id p" "\<forall>u\<in>set us. pos_id u \<noteq> pos_id p"
    using assms(1) by (rule find_id_split)
  then show ?thesis
    using assms(2) by (simp add: put_position_split update_first_split apply_snapshot_patch)
qed

text \<open>A snapshot on top of token changes.\<close>

lemma builds_snapshot:
  assumes "builds cd w d w1" and "position_changes d = []" and "find_id (pos_id p) w = Some q" and "codec_roundtrips cd p"
  shows "\<exists>w2. builds cd w (push_position (PosUpdate (pos_id p) (snapshot_patch cd p)) d) w2 \<and>
    ws_tokens w2 = ws_tokens w1 \<and> ws_positions w2 = put_position p w"
proof -
  have pos: "ws_positions w1 = ws_positions w"
    using builds_positions [OF assms(1)] assms(2) by simp
  then have "find_id (pos_id p) w1 = Some q" "put_position p w1 = put_position p w"
    using assms(3) by (simp_all add: find_id_def put_position_def cong: option.case_cong sum.case_cong)
  with builds_push_position [OF assms(1) snapshot_applies [OF _ assms(4), of w1 q]] show ?thesis
    by force
qed

text \<open>Token changes on top of a position change leave the positions.\<close>

lemma builds_same_positions:
  assumes "builds cd w d w1" and "builds cd w d' w2" and "position_changes d' = position_changes d"
  shows "ws_positions w2 = ws_positions w1"
  using builds_positions [OF assms(1)] builds_positions [OF assms(2)] assms(3) by auto

lemma builds_wallet_id: "builds cd w d w' \<Longrightarrow> ws_wallet_id w' = ws_wallet_id w"
  by (auto simp: builds_def elim: apply_delta_no_gas_parts)

lemma credit_positions: "credit w d k amt = Ok d' \<Longrightarrow> position_changes d' = position_changes d"
  by (auto simp: credit_def push_token_def split: if_splits)

lemma debit_positions: "debit w d k amt = Ok d' \<Longrightarrow> position_changes d' = position_changes d"
  by (auto simp: push_token_def dest!: debit_Ok_push)

lemma credit_accepts: "balance_of w k = Some b \<Longrightarrow> \<exists>d'. credit w d k amt = Ok d'"
  by (cases "fmlookup (ws_tokens w) k") (auto simp: balance_of_def credit_def ok_or_def)

section \<open>Upserts\<close>

lemma find_id_pos_id: "find_id pid w = Some p \<Longrightarrow> pos_id p = pid \<and> p \<in> set (ws_positions w)"
  by (auto elim: find_id_split)

lemma effective_position_new: "position_changes d = [] \<Longrightarrow> effective_position w d i = find_id i w"
  by (simp add: effective_position_def find_id_def)

lemma effective_exists_new: "position_changes d = [] \<Longrightarrow> effective_exists w d i \<longleftrightarrow> find_id i w \<noteq> None"
  by (auto simp: effective_exists_def find_id_def list_ex_iff find_None_iff)

lemma builds_open:
  assumes "builds cd w d w1" and "position_changes d = []" and "open_position w d p = Ok d'"
  obtains w2 where "builds cd w d' w2" "ws_tokens w2 = ws_tokens w1" "find_id (pos_id p) w = None"
    "\<forall>j. find_id j w2 = (if j = pos_id p then Some p else find_id j w)"
proof -
  from assms(3) have new: "\<not> effective_exists w d (pos_id p)" and d': "d' = push_position (PosOpen p) d"
    by (auto simp: open_position_def split: if_splits)
  then have none: "find_id (pos_id p) w = None"
    by (simp add: effective_exists_new [OF assms(2)])
  have pos: "ws_positions w1 = ws_positions w"
    using builds_positions [OF assms(1)] assms(2) by simp
  have "builds cd w d' (w1\<lparr>ws_positions := ws_positions w @ [p]\<rparr>)"
    unfolding d' by (rule builds_push_position [OF assms(1)]) (simp add: pos)
  moreover have "find_id j (w1\<lparr>ws_positions := ws_positions w @ [p]\<rparr>) = (if j = pos_id p then Some p else find_id j w)" for j
    using none by (auto simp: find_id_def find_append split: option.splits)
  ultimately show ?thesis
    using that none by simp
qed

lemma open_position_gas: "open_position w d p = Ok d' \<Longrightarrow> gas_paid d' = gas_paid d"
  by (auto simp: open_position_def split: if_splits)

text \<open>A codec that reads back one position.\<close>

definition fixed_codec :: "position \<Rightarrow> position_codec" where
  "fixed_codec p = \<lparr>pc_to_value = (\<lambda>_. Some JNull), pc_from_value = (\<lambda>_. Some p)\<rparr>"

lemma fixed_codec_roundtrips [simp]: "codec_roundtrips (fixed_codec p) q \<longleftrightarrow> q = p"
  by (auto simp: codec_roundtrips_def fixed_codec_def)

lemma fixed_codec_applies:
  assumes "find_id i w = Some q"
  shows "\<exists>w'. apply_position_change (fixed_codec p) w (PosUpdate i (snapshot_patch (fixed_codec p) r)) = Ok w'"
proof -
  have "apply_position_patch (fixed_codec p) q (snapshot_patch (fixed_codec p) r) = Ok p"
    by (simp add: apply_position_patch_def snapshot_patch_def json_get_def fixed_codec_def ok_or_def)
  moreover obtain us vs where "ws_positions w = us @ q # vs" "pos_id q = i" "\<forall>u\<in>set us. pos_id u \<noteq> i"
    using assms by (rule find_id_split)
  ultimately show ?thesis
    by (simp add: update_first_split)
qed

end
