(* ===== verification/Entry_List.thy ===== *)
theory Entry_List
  imports Reducer_Base
begin

text \<open>
  Lists of amounts by key, as positions keep them: the collaterals and debts of a lending account and the
  margin of a perpetual position. An amount is merged into the first entry of its key or pushed, and taken
  from it with the entry evicted at zero. The locale \<open>entries\<close> is the contract of an entry's layout; over it
  such a list behaves as a map from keys to amounts.
\<close>

fun position_of :: "('e \<Rightarrow> bool) \<Rightarrow> 'e list \<Rightarrow> nat option" where
  "position_of P [] = None"
| "position_of P (x # xs) = (if P x then Some 0 else map_option Suc (position_of P xs))"

definition remove_at :: "nat \<Rightarrow> 'e list \<Rightarrow> 'e list" where
  "remove_at i xs = take i xs @ drop (Suc i) xs"

definition merge_entry ::
  "('e \<Rightarrow> 'k) \<Rightarrow> ('e \<Rightarrow> u256) \<Rightarrow> (u256 \<Rightarrow> 'e \<Rightarrow> 'e) \<Rightarrow> 'k \<Rightarrow> 'e \<Rightarrow> u256 \<Rightarrow> 'e list \<Rightarrow> 'e list" where
  "merge_entry key amt put k fresh amount xs =
     (case position_of (\<lambda>x. key x = k) xs of
        Some i \<Rightarrow> xs[i := put (saturating_add_u (amt (xs ! i)) amount) (xs ! i)]
      | None \<Rightarrow> xs @ [fresh])"

text \<open>\<open>Inl c\<close> when the entry holds only \<open>c\<close>, else the amount left and the list.\<close>

definition reduce_entry ::
  "('e \<Rightarrow> 'k) \<Rightarrow> ('e \<Rightarrow> u256) \<Rightarrow> (u256 \<Rightarrow> 'e \<Rightarrow> 'e) \<Rightarrow> 'k \<Rightarrow> u256 \<Rightarrow> 'e list \<Rightarrow> (u256 + u256 \<times> 'e list) option" where
  "reduce_entry key amt put k amount xs =
     map_option (\<lambda>i.
       let current = amt (xs ! i) in
       if current < amount then Inl current
       else let new_amount = current - amount in
         Inr (new_amount, if new_amount = 0 then remove_at i xs else xs[i := put new_amount (xs ! i)]))
       (position_of (\<lambda>x. key x = k) xs)"

lemma position_of_None: "position_of P xs = None \<longleftrightarrow> (\<forall>x\<in>set xs. \<not> P x)"
  by (induction xs) auto

lemma position_of_split:
  "position_of P xs = Some i \<Longrightarrow> \<exists>us x vs. xs = us @ x # vs \<and> length us = i \<and> P x \<and> (\<forall>u\<in>set us. \<not> P u)"
proof (induction xs arbitrary: i)
  case (Cons x xs)
  show ?case
  proof (cases "P x")
    case True
    with Cons.prems show ?thesis
      by (intro exI [of _ "[]"] exI [of _ x] exI [of _ xs]) simp
  next
    case False
    with Cons.prems obtain j where j: "position_of P xs = Some j" "i = Suc j"
      by auto
    from Cons.IH [OF j(1)] obtain us y vs where
      "xs = us @ y # vs" "length us = j" "P y" "\<forall>u\<in>set us. \<not> P u"
      by blast
    with False j(2) show ?thesis
      by (intro exI [of _ "x # us"] exI [of _ y] exI [of _ vs]) simp
  qed
qed simp

lemma position_of_append:
  "\<forall>u\<in>set us. \<not> P u \<Longrightarrow> P x \<Longrightarrow> position_of P (us @ x # vs) = Some (length us)"
  by (induction us) auto

lemma remove_at_middle [simp]: "remove_at (length us) (us @ x # vs) = us @ vs"
  by (simp add: remove_at_def)

lemma saturating_add_zero [simp]: "saturating_add_u 0 a = a"
  by (simp add: saturating_add_u_def)

locale entries =
  fixes key :: "'e \<Rightarrow> 'k" and amt :: "'e \<Rightarrow> u256" and put :: "u256 \<Rightarrow> 'e \<Rightarrow> 'e"
  assumes key_put: "key (put a e) = key e" and amt_put: "amt (put a e) = a"
begin

definition held :: "'k \<Rightarrow> 'e list \<Rightarrow> u256" where
  "held k xs = (case List.find (\<lambda>x. key x = k) xs of Some x \<Rightarrow> amt x | None \<Rightarrow> 0)"

lemma held_middle:
  "\<forall>u\<in>set us. key u \<noteq> key x \<Longrightarrow> held k (us @ x # vs) = (if k = key x then amt x else held k (us @ vs))"
  unfolding held_def by (induction us) auto

lemma held_absent: "\<forall>x\<in>set xs. key x \<noteq> k \<Longrightarrow> held k xs = 0"
  unfolding held_def by (induction xs) auto

lemma merge_cases:
  obtains (new) "\<forall>x\<in>set xs. key x \<noteq> k" "merge_entry key amt put k fresh a xs = xs @ [fresh]"
  | (old) us x vs where "xs = us @ x # vs" "key x = k" "\<forall>u\<in>set us. key u \<noteq> k"
    "merge_entry key amt put k fresh a xs = us @ put (saturating_add_u (amt x) a) x # vs"
proof (cases "position_of (\<lambda>x. key x = k) xs")
  case None
  then have "merge_entry key amt put k fresh a xs = xs @ [fresh]" "\<forall>x\<in>set xs. key x \<noteq> k"
    by (simp_all add: merge_entry_def flip: position_of_None)
  then show ?thesis
    using new by blast
next
  case (Some i)
  from position_of_split [OF this] obtain us x vs where
    "xs = us @ x # vs" "length us = i" "key x = k" "\<forall>u\<in>set us. key u \<noteq> k"
    by blast
  with Some show ?thesis
    by (intro old [of us x vs]) (auto simp: merge_entry_def)
qed

lemma reduce_cases:
  assumes "reduce_entry key amt put k a xs = Some (Inr (n, ys))"
  obtains us x vs where "xs = us @ x # vs" "key x = k" "\<forall>u\<in>set us. key u \<noteq> k" "a \<le> amt x" "n = amt x - a"
    "ys = us @ (if n = 0 then vs else put n x # vs)"
proof -
  from assms obtain i where i: "position_of (\<lambda>x. key x = k) xs = Some i"
    by (auto simp: reduce_entry_def)
  from position_of_split [OF this] obtain us x vs where
    split: "xs = us @ x # vs" "length us = i" "key x = k" "\<forall>u\<in>set us. key u \<noteq> k"
    by blast
  with assms i have "a \<le> amt x" "n = amt x - a" "ys = us @ (if n = 0 then vs else put n x # vs)"
    by (auto simp: reduce_entry_def Let_def not_less split: if_splits)
  with split that show ?thesis
    by blast
qed

lemma held_merge:
  assumes "key fresh = k" and "amt fresh = a"
  shows "held k' (merge_entry key amt put k fresh a xs) =
    (if k' = k then saturating_add_u (held k xs) a else held k' xs)"
proof (cases rule: merge_cases [of xs k fresh a])
  case new
  then show ?thesis
    using assms held_middle [of xs fresh k' "[]"] held_absent [of xs k] by auto
next
  case (old us x vs)
  then show ?thesis
    using held_middle [of us x k' vs] held_middle [of us "put (saturating_add_u (amt x) a) x" k' vs] held_middle [of us x k vs]
    by (auto simp: key_put amt_put)
qed

lemma distinct_merge:
  assumes "distinct (map key xs)" and "key fresh = k"
  shows "distinct (map key (merge_entry key amt put k fresh a xs))"
  by (cases rule: merge_cases [of xs k fresh a]) (use assms in \<open>auto simp: key_put\<close>)

lemma held_reduce:
  assumes "reduce_entry key amt put k a xs = Some (Inr (n, ys))" and "distinct (map key xs)"
  shows "a \<le> held k xs" "n = held k xs - a" "held k' ys = (if k' = k then held k xs - a else held k' xs)"
proof -
  obtain us x vs where split: "xs = us @ x # vs" "key x = k" "\<forall>u\<in>set us. key u \<noteq> k" "a \<le> amt x" "n = amt x - a"
    and ys: "ys = us @ (if n = 0 then vs else put n x # vs)"
    using assms(1) by (rule reduce_cases)
  have x: "held k xs = amt x" "held k' xs = (if k' = k then amt x else held k' (us @ vs))"
    using split held_middle [of us x k vs] held_middle [of us x k' vs] by auto
  have "held k (us @ vs) = 0"
    using split assms(2) by (intro held_absent) (auto simp: image_iff)
  then show "a \<le> held k xs" "n = held k xs - a" "held k' ys = (if k' = k then held k xs - a else held k' xs)"
    using split ys x held_middle [of us "put n x" k' vs] by (auto simp: key_put amt_put)
qed

lemma distinct_reduce:
  assumes "reduce_entry key amt put k a xs = Some (Inr (n, ys))" and "distinct (map key xs)"
  shows "distinct (map key ys)"
  using assms(1) by (rule reduce_cases) (use assms(2) in \<open>auto simp: key_put\<close>)

text \<open>Taking out what is held is always accepted.\<close>

lemma reduce_accepts:
  assumes "a \<le> held k xs" and "\<exists>x\<in>set xs. key x = k"
  shows "\<exists>n ys. reduce_entry key amt put k a xs = Some (Inr (n, ys))"
proof -
  obtain i where i: "position_of (\<lambda>x. key x = k) xs = Some i"
    using assms(2) by (cases "position_of (\<lambda>x. key x = k) xs") (auto simp: position_of_None)
  from position_of_split [OF this] obtain us x vs where
    "xs = us @ x # vs" "length us = i" "key x = k" "\<forall>u\<in>set us. key u \<noteq> k"
    by blast
  with i assms(1) held_middle [of us x k vs] show ?thesis
    by (auto simp: reduce_entry_def Let_def)
qed

end

end
