(* ===== verification/Lending_Effect.thy ===== *)
theory Lending_Effect
  imports Lending_Math Position_Flow Entry_List
begin

text \<open>
  The lending reducers (\<open>asset-model/transition/src/effect/lending\<close>): supply, withdraw, borrow, repay, rate
  mode, e-mode, collateral flags, credit delegation and liquidation, over one \<open>LendingAccount\<close> position
  per venue. \<open>{:?}\<close> of an \<open>Address\<close> prints its lower-case hexadecimal text, as \<open>{:#x}\<close> does.
\<close>

section \<open>Shared helpers\<close>

definition lending_position_id :: "lending_venue \<Rightarrow> string" where
  "lending_position_id venue =
     (case venue of
        AaveV3 chain pool market_id \<Rightarrow> ''aave_v3:'' @ chain_str chain @ '':'' @ hex_address pool @ '':'' @
          dec_word (case market_id of Some m \<Rightarrow> m | None \<Rightarrow> 0)
      | AaveV2 chain pool \<Rightarrow> ''aave_v2:'' @ chain_str chain @ '':'' @ hex_address pool
      | Spark chain pool \<Rightarrow> ''spark:'' @ chain_str chain @ '':'' @ hex_address pool
      | CompoundV3 chain comet _ \<Rightarrow> ''compound_v3:'' @ chain_str chain @ '':'' @ hex_address comet
      | CompoundV2 chain comptroller \<Rightarrow> ''compound_v2:'' @ chain_str chain @ '':'' @ hex_address comptroller
      | MorphoBlue chain market_id \<Rightarrow> ''morpho_blue:'' @ chain_str chain @ '':'' @ market_id
      | MorphoOptimizer chain vault \<Rightarrow> ''morpho_optimizer:'' @ chain_str chain @ '':'' @ hex_address vault
      | Fluid chain vault \<Rightarrow> ''fluid:'' @ chain_str chain @ '':'' @ hex_address vault
      | MetaMorpho chain vault \<Rightarrow> ''metamorpho:'' @ chain_str chain @ '':'' @ hex_address vault
      | CrvUsd chain controller _ \<Rightarrow> ''crv_usd:'' @ chain_str chain @ '':'' @ hex_address controller
      | LlamaLend chain controller _ \<Rightarrow> ''llama_lend:'' @ chain_str chain @ '':'' @ hex_address controller
      | AaveV3Periphery chain adapter \<Rightarrow> ''aave_v3_periphery:'' @ chain_str chain @ '':'' @ hex_address adapter)"

definition lending_venue_tag :: "lending_venue \<Rightarrow> string" where
  "lending_venue_tag venue =
     (case venue of
        AaveV3 _ _ _ \<Rightarrow> ''aave_v3'' | AaveV2 _ _ \<Rightarrow> ''aave_v2'' | Spark _ _ \<Rightarrow> ''spark''
      | CompoundV3 _ _ _ \<Rightarrow> ''compound_v3'' | CompoundV2 _ _ \<Rightarrow> ''compound_v2'' | MorphoBlue _ _ \<Rightarrow> ''morpho_blue''
      | MorphoOptimizer _ _ \<Rightarrow> ''morpho_optimizer'' | Fluid _ _ \<Rightarrow> ''fluid'' | MetaMorpho _ _ \<Rightarrow> ''metamorpho''
      | CrvUsd _ _ _ \<Rightarrow> ''crv_usd'' | LlamaLend _ _ _ \<Rightarrow> ''llama_lend'' | AaveV3Periphery _ _ \<Rightarrow> ''aave_v3_periphery'')"

definition lending_venue_chain :: "lending_venue \<Rightarrow> chain_id" where
  "lending_venue_chain venue =
     (case venue of
        AaveV3 chain _ _ \<Rightarrow> chain | AaveV2 chain _ \<Rightarrow> chain | Spark chain _ \<Rightarrow> chain | CompoundV3 chain _ _ \<Rightarrow> chain
      | CompoundV2 chain _ \<Rightarrow> chain | MorphoBlue chain _ \<Rightarrow> chain | MorphoOptimizer chain _ \<Rightarrow> chain | Fluid chain _ \<Rightarrow> chain
      | MetaMorpho chain _ \<Rightarrow> chain | CrvUsd chain _ _ \<Rightarrow> chain | LlamaLend chain _ _ \<Rightarrow> chain | AaveV3Periphery chain _ \<Rightarrow> chain)"

definition lending_position_exists :: "wallet_state \<Rightarrow> state_delta \<Rightarrow> string \<Rightarrow> bool" where
  "lending_position_exists w d pid =
     foldl (\<lambda>ex change. case change of
         PosOpen p \<Rightarrow> if pos_id p = pid then True else ex
       | PosClose i \<Rightarrow> if i = pid then False else ex
       | PosUpdate _ _ \<Rightarrow> ex)
       (list_ex (\<lambda>p. pos_id p = pid) (ws_positions w)) (position_changes d)"

abbreviation put_collateral :: "u256 \<Rightarrow> token_ref \<times> u256 \<Rightarrow> token_ref \<times> u256" where
  "put_collateral a e \<equiv> (fst e, a)"

definition merge_collateral :: "token_ref \<Rightarrow> u256 \<Rightarrow> lending_account \<Rightarrow> lending_account" where
  "merge_collateral asset amount account =
     account\<lparr>la_collaterals := merge_entry fst snd put_collateral asset (asset, amount) amount (la_collaterals account)\<rparr>"

definition reduce_collateral :: "token_ref \<Rightarrow> u256 \<Rightarrow> lending_account \<Rightarrow> (u256 \<times> lending_account) reducer_result" where
  "reduce_collateral asset amount account =
     (case reduce_entry fst snd put_collateral asset amount (la_collaterals account) of
        None \<Rightarrow> Err (Invariant (KeyText ''withdraw: asset not present in collaterals'' (ref_key asset)))
      | Some (Inl current) \<Rightarrow>
          Err (Invariant (Text (''withdraw: amount '' @ dec_word amount @ '' > collateral '' @ dec_word current)))
      | Some (Inr (new_amount, cs)) \<Rightarrow> Ok (new_amount, account\<lparr>la_collaterals := cs\<rparr>))"

abbreviation debt_key :: "token_ref \<times> u256 \<times> rate_mode \<Rightarrow> token_ref \<times> rate_mode" where
  "debt_key e \<equiv> (fst e, snd (snd e))"

abbreviation debt_amt :: "token_ref \<times> u256 \<times> rate_mode \<Rightarrow> u256" where
  "debt_amt e \<equiv> fst (snd e)"

abbreviation put_debt :: "u256 \<Rightarrow> token_ref \<times> u256 \<times> rate_mode \<Rightarrow> token_ref \<times> u256 \<times> rate_mode" where
  "put_debt a e \<equiv> (fst e, a, snd (snd e))"

definition merge_debt :: "token_ref \<Rightarrow> u256 \<Rightarrow> rate_mode \<Rightarrow> lending_account \<Rightarrow> lending_account" where
  "merge_debt asset amount rate_mode account =
     account\<lparr>la_debts := merge_entry debt_key debt_amt put_debt (asset, rate_mode) (asset, amount, rate_mode) amount
       (la_debts account)\<rparr>"

definition reduce_debt :: "token_ref \<Rightarrow> u256 \<Rightarrow> rate_mode \<Rightarrow> lending_account \<Rightarrow> (u256 \<times> lending_account) reducer_result" where
  "reduce_debt asset amount rate_mode account =
     (case reduce_entry debt_key debt_amt put_debt (asset, rate_mode) amount (la_debts account) of
        None \<Rightarrow> Err (Invariant (DebtMissing (ref_key asset) rate_mode))
      | Some (Inl current) \<Rightarrow>
          Err (Invariant (Text (''repay: amount '' @ dec_word amount @ '' > debt '' @ dec_word current)))
      | Some (Inr (new_amount, ds)) \<Rightarrow> Ok (new_amount, account\<lparr>la_debts := ds\<rparr>))"

definition threshold_to_bp :: "'n rust_decimal \<Rightarrow> decimal \<Rightarrow> u32" where
  "threshold_to_bp rd d =
     (case Option.bind (rd_from_str rd (decimal_str d)) (\<lambda>x. rd_to_u32 rd (rd_round rd (rd_mul rd x (rd_from_u32 rd 10000)))) of
        Some bp \<Rightarrow> bp
      | None \<Rightarrow> 0)"

type_synonym price_tables = "(token_ref \<times> decimal) list \<times> (token_ref \<times> decimal) list \<times> (token_ref \<times> u32) list"

definition build_price_tables :: "'n rust_decimal \<Rightarrow> lending_account \<Rightarrow> price \<Rightarrow> token_ref \<Rightarrow> price_tables" where
  "build_price_tables rd account asset_price referenced_asset =
     (let lt = threshold_to_bp rd (lf_value (la_liquidation_threshold account));
          collat_prices = map (\<lambda>(token, _). (token, asset_price)) (la_collaterals account);
          lts = map (\<lambda>(token, _). (token, lt)) (la_collaterals account);
          debt_prices = map (\<lambda>(token, _, _). (token, asset_price)) (la_debts account);
          add_collat = \<not> list_ex (\<lambda>(t, _). t = referenced_asset) collat_prices;
          add_debt = \<not> list_ex (\<lambda>(t, _). t = referenced_asset) debt_prices
      in (if add_collat then collat_prices @ [(referenced_asset, asset_price)] else collat_prices,
          if add_debt then debt_prices @ [(referenced_asset, asset_price)] else debt_prices,
          if add_collat then lts @ [(referenced_asset, lt)] else lts))"

text \<open>\<open>if let PositionKind::LendingAccount(la) = &mut p.kind\<close>.\<close>

definition on_lending :: "(lending_account \<Rightarrow> lending_account) \<Rightarrow> position \<Rightarrow> position" where
  "on_lending f p = (case pos_kind p of LendingAccount la \<Rightarrow> p\<lparr>pos_kind := LendingAccount (f la)\<rparr> | _ \<Rightarrow> p)"

section \<open>Supply\<close>

definition supply_receipt :: "lending_venue \<Rightarrow> reserve_state \<Rightarrow> u256 \<Rightarrow> u256 reducer_result" where
  "supply_receipt venue reserve amount =
     (case venue of
        AaveV3 _ _ _ \<Rightarrow> asset_to_scaled_balance reserve amount ''aave_v3''
      | AaveV2 _ _ \<Rightarrow> asset_to_scaled_balance reserve amount ''aave_v2''
      | Spark _ _ \<Rightarrow> asset_to_scaled_balance reserve amount ''spark''
      | CompoundV2 _ _ \<Rightarrow> asset_to_scaled_balance reserve amount ''compound_v2''
      | CompoundV3 _ _ _ \<Rightarrow> asset_to_scaled_balance reserve amount ''compound_v3''
      | MorphoOptimizer _ _ \<Rightarrow> asset_to_scaled_balance reserve amount ''morpho_optimizer''
      | Fluid _ _ \<Rightarrow> asset_to_fluid_shares reserve amount
      | MetaMorpho _ _ \<Rightarrow> asset_to_fluid_shares reserve amount
      | CrvUsd _ _ _ \<Rightarrow> Ok amount
      | LlamaLend _ _ _ \<Rightarrow> Ok amount
      | MorphoBlue _ _ \<Rightarrow> Err (UnsupportedProtocol ''supply'' ''morpho_blue'')
      | AaveV3Periphery _ _ \<Rightarrow> Err (UnsupportedProtocol ''supply'' ''aave_v3_periphery''))"

definition derived_live_field :: "decimal \<Rightarrow> eval_context \<Rightarrow> decimal live_field" where
  "derived_live_field v ctx = live_field_new v (DerivedFrom [] ''lending_supply_init'') (ec_now ctx)"

definition new_lending_account :: "supply_action \<Rightarrow> eval_context \<Rightarrow> position" where
  "new_lending_account action ctx =
     (let tag = lending_venue_tag (su_venue action);
          threshold = rs_liquidation_threshold_bp (lf_value (suli_reserve_state (su_live_inputs action)));
          acct = \<lparr>la_market = \<lparr>mr_symbol = tag, mr_venue = \<lparr>vr_name = tag, vr_chain = None\<rparr>\<rparr>,
            la_collaterals = [(su_asset action, su_amount action)], la_debts = [], la_emode = None, la_is_isolated = False,
            la_health_factor = derived_live_field (Decimal ''999999999'') ctx,
            la_ltv = derived_live_field decimal_zero ctx,
            la_liquidation_threshold = derived_live_field (Decimal (''0.'' @ dec_fixed 4 (unat threshold))) ctx\<rparr>
      in \<lparr>pos_id = lending_position_id (su_venue action), pos_protocol = protocol_ref_new tag,
          pos_chain = Some (lending_venue_chain (su_venue action)), pos_kind = LendingAccount acct,
          pos_primitives_synced_at = ec_now ctx, pos_primitives_source = UserSupplied\<rparr>)"

definition supply_checks :: "supply_action \<Rightarrow> unit reducer_result" where
  "supply_checks a =
     (let reserve = lf_value (suli_reserve_state (su_live_inputs a)) in
      if rs_is_paused reserve then
        Err (Invariant (Text (''supply rejected: reserve paused for venue '' @ lending_venue_tag (su_venue a))))
      else if rs_is_frozen reserve then
        Err (Invariant (Text (''supply rejected: reserve frozen for venue '' @ lending_venue_tag (su_venue a))))
      else bind_result
        (case rs_supply_cap reserve of
           Some supply_cap \<Rightarrow>
             if saturating_add_u (rs_total_supply reserve) (su_amount a) > supply_cap then
               Err (Invariant (Text (''supply rejected: total_supply '' @ dec_word (rs_total_supply reserve) @ '' + amount '' @
                 dec_word (su_amount a) @ '' > supply_cap '' @ dec_word supply_cap)))
             else Ok ()
         | None \<Rightarrow> Ok ()) (\<lambda>_.
        bind_result (supply_receipt (su_venue a) reserve (su_amount a)) (\<lambda>_. Ok ())))"

definition apply_supply :: "position_codec \<Rightarrow> supply_action reducer" where
  "apply_supply cd a w ctx =
     bind_result (supply_checks a) (\<lambda>_.
     bind_result (debit w delta_new (ref_key (su_asset a)) (su_amount a)) (\<lambda>d.
       let pid = lending_position_id (su_venue a) in
       if lending_position_exists w d pid then
         upsert_lending_account cd w d pid (on_lending (merge_collateral (su_asset a) (su_amount a)))
       else if lf_value (suli_eligible_as_collat (su_live_inputs a)) then
         open_position w d (new_lending_account a ctx)
       else
         open_position w d (on_lending (\<lambda>la. la\<lparr>la_collaterals := []\<rparr>) (new_lending_account a ctx))))"

section \<open>Withdraw, borrow, repay\<close>

definition paused_error :: "string \<Rightarrow> lending_venue \<Rightarrow> reducer_error" where
  "paused_error action venue =
     Invariant (Text (action @ '' rejected: reserve paused for venue '' @ lending_venue_tag venue))"

text \<open>
  The closure of \<open>upsert_lending_account\<close> drops the error of the reduction and leaves the account as it
  is; a second reduction of a copy reports it.
\<close>

definition or_same :: "(lending_account \<Rightarrow> (u256 \<times> lending_account) reducer_result) \<Rightarrow> lending_account \<Rightarrow> lending_account" where
  "or_same f la = (case f la of Ok (_, la') \<Rightarrow> la' | Err _ \<Rightarrow> la)"

definition check_reduction ::
  "wallet_state \<Rightarrow> string \<Rightarrow> (lending_account \<Rightarrow> (u256 \<times> lending_account) reducer_result) \<Rightarrow> unit reducer_result" where
  "check_reduction w pid f =
     bind_result (ok_or (PositionNotFound pid) (List.find (\<lambda>p. pos_id p = pid) (ws_positions w))) (\<lambda>pos.
       case pos_kind pos of
         LendingAccount la \<Rightarrow> bind_result (f la) (\<lambda>_. Ok ())
       | _ \<Rightarrow> Ok ())"

definition withdraw_amount :: "withdraw_action \<Rightarrow> u256" where
  "withdraw_amount a =
     (if wi_amount a = u256_max then lf_value (wili_available_to_withdraw (wi_live_inputs a)) else wi_amount a)"

definition apply_withdraw :: "position_codec \<Rightarrow> withdraw_action reducer" where
  "apply_withdraw cd a w ctx =
     (let reserve = lf_value (wili_reserve_state (wi_live_inputs a)) in
      if rs_is_paused reserve then Err (paused_error ''withdraw'' (wi_venue a))
      else
        let pid = lending_position_id (wi_venue a) in
        if \<not> lending_position_exists w delta_new pid then Err (PositionNotFound pid)
        else
          let intended_amount = withdraw_amount a;
              reduce = reduce_collateral (wi_asset a) intended_amount
          in
          bind_result (upsert_lending_account cd w delta_new pid (on_lending (or_same reduce))) (\<lambda>d.
          bind_result (check_reduction w pid reduce) (\<lambda>_.
            if wi_recipient a = wid_address (ws_wallet_id w)
            then credit w d (ref_key (wi_asset a)) intended_amount
            else Ok d)))"

definition hf_is_safe :: "'n rust_decimal \<Rightarrow> decimal \<Rightarrow> bool reducer_result" where
  "hf_is_safe rd hf =
     bind_result (ok_or (Invariant (LibError ''borrow: HF Decimal parse failed'')) (rd_from_str rd (decimal_str hf)))
       (\<lambda>parsed. Ok (\<not> rd_less rd parsed (rd_from_u32 rd 1)))"

definition borrow_checks :: "borrow_action \<Rightarrow> unit reducer_result" where
  "borrow_checks a =
     (let reserve = lf_value (boli_reserve_state (bo_live_inputs a));
          liquidity = lf_value (boli_available_liquidity (bo_live_inputs a)) in
      if rs_is_paused reserve then Err (paused_error ''borrow'' (bo_venue a))
      else if rs_is_frozen reserve then
        Err (Invariant (Text (''borrow rejected: reserve frozen for venue '' @ lending_venue_tag (bo_venue a))))
      else if liquidity < bo_amount a then
        Err (Invariant (Text (''borrow rejected: available_liquidity '' @ dec_word liquidity @ '' < amount '' @ dec_word (bo_amount a))))
      else
        (case rs_borrow_cap reserve of
           Some borrow_cap \<Rightarrow>
             if saturating_add_u (rs_total_borrow reserve) (bo_amount a) > borrow_cap then
               Err (Invariant (Text (''borrow rejected: total_borrow '' @ dec_word (rs_total_borrow reserve) @ '' + amount '' @
                 dec_word (bo_amount a) @ '' > borrow_cap '' @ dec_word borrow_cap)))
             else Ok ()
         | None \<Rightarrow> Ok ()))"

definition borrow_health :: "'n rust_decimal \<Rightarrow> borrow_action \<Rightarrow> lending_account \<Rightarrow> decimal reducer_result" where
  "borrow_health rd a la =
     (let preview = merge_debt (bo_asset a) (bo_amount a) (bo_rate_mode a) la;
          (collat_prices, debt_prices, lts) =
            build_price_tables rd preview (lf_value (boli_asset_price_usd (bo_live_inputs a))) (bo_asset a)
      in recompute_health_factor rd preview collat_prices debt_prices lts)"

definition apply_borrow :: "'n rust_decimal \<Rightarrow> position_codec \<Rightarrow> borrow_action reducer" where
  "apply_borrow rd cd a w ctx =
     bind_result (borrow_checks a) (\<lambda>_.
       let pid = lending_position_id (bo_venue a) in
       if \<not> lending_position_exists w delta_new pid then Err (PositionNotFound pid)
       else
         bind_result (upsert_lending_account cd w delta_new pid
           (on_lending (merge_debt (bo_asset a) (bo_amount a) (bo_rate_mode a)))) (\<lambda>d.
         bind_result (ok_or (PositionNotFound pid) (List.find (\<lambda>p. pos_id p = pid) (ws_positions w))) (\<lambda>existing_pos.
           case pos_kind existing_pos of
             LendingAccount la \<Rightarrow>
               bind_result (borrow_health rd a la) (\<lambda>hf.
               bind_result (hf_is_safe rd hf) (\<lambda>safe.
                 if \<not> safe then Err (Invariant (UnsafeHealth hf))
                 else credit w d (ref_key (bo_asset a)) (bo_amount a)))
           | _ \<Rightarrow> Err (Invariant (Text (''borrow: position '' @ pid @ '' is not a LendingAccount''))))))"

definition repay_amount :: "repay_action \<Rightarrow> u256" where
  "repay_amount a =
     (if re_amount a = u256_max then lf_value (reli_current_debt (re_live_inputs a)) else re_amount a)"

definition apply_repay :: "position_codec \<Rightarrow> repay_action reducer" where
  "apply_repay cd a w ctx =
     (let reserve = lf_value (reli_reserve_state (re_live_inputs a)) in
      if rs_is_paused reserve then Err (paused_error ''repay'' (re_venue a))
      else
        let pid = lending_position_id (re_venue a) in
        if \<not> lending_position_exists w delta_new pid then Err (PositionNotFound pid)
        else
          let intended_amount = repay_amount a;
              reduce = reduce_debt (re_asset a) intended_amount (re_rate_mode a)
          in
          bind_result (upsert_lending_account cd w delta_new pid (on_lending (or_same reduce))) (\<lambda>d.
          bind_result (check_reduction w pid reduce) (\<lambda>_.
            debit w d (ref_key (re_asset a)) intended_amount)))"

section \<open>Account settings\<close>

definition other_mode :: "rate_mode \<Rightarrow> rate_mode" where
  "other_mode m = (case m of VariableRate \<Rightarrow> StableRate | FixedRate \<Rightarrow> StableRate | StableRate \<Rightarrow> VariableRate)"

text \<open>The account of an existing position, or the error of an action that needs one.\<close>

definition lending_account_at :: "wallet_state \<Rightarrow> string \<Rightarrow> string \<Rightarrow> lending_account reducer_result" where
  "lending_account_at w pid action =
     bind_result (ok_or (PositionNotFound pid) (List.find (\<lambda>p. pos_id p = pid) (ws_positions w))) (\<lambda>pos.
       case pos_kind pos of
         LendingAccount la \<Rightarrow> Ok la
       | _ \<Rightarrow> Err (Invariant (Text (action @ '': position '' @ pid @ '' is not a LendingAccount''))))"

definition apply_swap_rate_mode :: "position_codec \<Rightarrow> swap_rate_mode_action reducer" where
  "apply_swap_rate_mode cd a w ctx =
     (if \<not> (case sr_venue a of AaveV2 _ _ \<Rightarrow> True | AaveV3 _ _ _ \<Rightarrow> True | _ \<Rightarrow> False)
      then Err (UnsupportedProtocol ''swap_rate_mode'' (lending_venue_tag (sr_venue a)))
      else
        let pid = lending_position_id (sr_venue a) in
        if \<not> lending_position_exists w delta_new pid then Err (PositionNotFound pid)
        else
          bind_result (lending_account_at w pid ''swap_rate_mode'') (\<lambda>la.
            let source_mode = other_mode (sr_new_mode a) in
            bind_result (ok_or (Invariant (SwapDebtMissing (ref_key (sr_asset a)) source_mode))
              (List.find (\<lambda>(t, _, r). t = sr_asset a \<and> r = source_mode) (la_debts la))) (\<lambda>(source_asset, source_amount, _).
              upsert_lending_account cd w delta_new pid (on_lending (\<lambda>la.
                merge_debt source_asset source_amount (sr_new_mode a)
                  (or_same (reduce_debt source_asset source_amount source_mode) la))))))"

definition apply_set_emode :: "position_codec \<Rightarrow> set_emode_action reducer" where
  "apply_set_emode cd a w ctx =
     (if \<not> (case se_em_venue a of AaveV3 _ _ _ \<Rightarrow> True | Spark _ _ \<Rightarrow> True | _ \<Rightarrow> False)
      then Err (UnsupportedProtocol ''set_emode'' (lending_venue_tag (se_em_venue a)))
      else
        let pid = lending_position_id (se_em_venue a) in
        if \<not> lending_position_exists w delta_new pid then Err (PositionNotFound pid)
        else
          bind_result (lending_account_at w pid ''set_emode'') (\<lambda>la.
          bind_result
            (if se_em_category_id a \<noteq> 0 then
               let allowed = em_assets_in_category (lf_value (se_em_category_config a)) in
               (case List.find (\<lambda>(token, _). token \<notin> set allowed) (la_collaterals la) of
                  Some (token, _) \<Rightarrow> Err (Invariant (KeyText ''set_emode rejected: collateral not in target category'' (ref_key token)))
                | None \<Rightarrow>
                    (case List.find (\<lambda>(token, _, _). token \<notin> set allowed) (la_debts la) of
                       Some (token, _) \<Rightarrow> Err (Invariant (KeyText ''set_emode rejected: debt not in target category'' (ref_key token)))
                     | None \<Rightarrow> Ok ()))
             else Ok ()) (\<lambda>_.
            let new_id = se_em_category_id a in
            upsert_lending_account cd w delta_new pid
              (on_lending (\<lambda>la. la\<lparr>la_emode := if new_id = 0 then None else Some new_id\<rparr>)))))"

definition apply_set_collateral :: "position_codec \<Rightarrow> bool \<Rightarrow> set_collateral_action reducer" where
  "apply_set_collateral cd enable a w ctx =
     (if rs_is_paused (lf_value (sc_reserve_state a)) then Err (paused_error ''set_collateral'' (sc_venue a))
      else
        let pid = lending_position_id (sc_venue a) in
        if \<not> lending_position_exists w delta_new pid then Err (PositionNotFound pid)
        else
          upsert_lending_account cd w delta_new pid (on_lending (\<lambda>la.
            if enable then
              (if \<not> list_ex (\<lambda>(t, _). t = sc_asset a) (la_collaterals la)
               then la\<lparr>la_collaterals := la_collaterals la @ [(sc_asset a, 0)]\<rparr> else la)
            else la\<lparr>la_collaterals := filter (\<lambda>(t, _). t \<noteq> sc_asset a) (la_collaterals la)\<rparr>)))"

definition apply_delegate_borrow :: "delegate_borrow_action reducer" where
  "apply_delegate_borrow a w ctx =
     (if \<not> (case de_venue a of AaveV2 _ _ \<Rightarrow> True | AaveV3 _ _ _ \<Rightarrow> True | _ \<Rightarrow> False)
      then Err (UnsupportedProtocol ''delegate_borrow'' (lending_venue_tag (de_venue a)))
      else Ok (push_token (ApprovalSet (ref_key (de_asset a)) (de_delegatee a) (allowance_new (de_amount a) (ec_now ctx))) delta_new))"

section \<open>Liquidation and dispatch\<close>

definition parse_price_to_u256 :: "'n rust_decimal \<Rightarrow> int_parsers \<Rightarrow> decimal \<Rightarrow> u256 reducer_result" where
  "parse_price_to_u256 rd ip p =
     bind_result (ok_or (Invariant (LibError ''liquidate: price parse'')) (rd_from_str rd (decimal_str p))) (\<lambda>parsed.
       let scaled = rd_round rd (rd_mul rd parsed (rd_from_u32 rd 1000000)) in
       if rd_less rd scaled (rd_from_u32 rd 0) then Err (Invariant (Text ''liquidate: negative price encountered''))
       else
         let s = takeWhile (\<lambda>c. c \<noteq> CHR ''.'') (rd_normalized rd scaled)
         in ok_or (Invariant (LibError ''liquidate: price U256'')) (ip_u256_from_str ip s))"

definition seized_collateral :: "'n rust_decimal \<Rightarrow> int_parsers \<Rightarrow> liquidate_action \<Rightarrow> u256 reducer_result" where
  "seized_collateral rd ip a =
     (let bonus_bp = lf_value (lili_liquidation_bonus (li_live_inputs a)) in
      if bonus_bp > 10000 then Err (Invariant (Text (''liquidate: bonus_bp '' @ dec_word bonus_bp @ '' > 10000'')))
      else
        let bonus_numer = ucast (10000 + bonus_bp) :: u256; bonus_denom = 10000 :: u256 in
        bind_result (parse_price_to_u256 rd ip (lf_value (lili_debt_asset_price (li_live_inputs a)))) (\<lambda>debt_price.
        bind_result (checked_mul_or ''liquidate: debt value overflow'' (li_debt_to_cover a) debt_price) (\<lambda>debt_value_usd.
        bind_result (checked_mul_or ''liquidate: bonus apply overflow'' debt_value_usd bonus_numer) (\<lambda>numer.
          let collat_value_usd = numer div bonus_denom in
          bind_result (parse_price_to_u256 rd ip (lf_value (lili_collat_asset_price (li_live_inputs a)))) (\<lambda>collat_price_u256.
            if collat_price_u256 = 0 then Err (Invariant (Text ''liquidate: collateral price is zero''))
            else Ok (collat_value_usd div collat_price_u256))))))"

definition apply_liquidate :: "'n rust_decimal \<Rightarrow> int_parsers \<Rightarrow> liquidate_action reducer" where
  "apply_liquidate rd ip a w ctx =
     (let victim_state = lf_value (lili_victim_state (li_live_inputs a)) in
      bind_result (ok_or (Invariant (LibError ''liquidate: HF parse'')) (rd_from_str rd (decimal_str (ul_health_factor victim_state)))) (\<lambda>hf.
        if \<not> rd_less rd hf (rd_from_u32 rd 1) then
          Err (Invariant (Text (''liquidate rejected: victim HF '' @ rd_to_string rd hf @ '' >= 1.0 (position is healthy)'')))
        else
          bind_result (seized_collateral rd ip a) (\<lambda>collat_amount.
          bind_result (debit w delta_new (ref_key (li_debt_asset a)) (li_debt_to_cover a)) (\<lambda>d.
            credit w d (ref_key (li_collat_asset a)) collat_amount))))"

definition apply_buy_collateral :: "buy_collateral_action reducer" where
  "apply_buy_collateral a w ctx = Ok delta_new"

definition apply_set_authorization :: "set_authorization_action reducer" where
  "apply_set_authorization a w ctx = Ok delta_new"

definition apply_periphery_operation :: "periphery_operation_action reducer" where
  "apply_periphery_operation a w ctx = Ok delta_new"

fun apply_lending_action :: "'n rust_decimal \<Rightarrow> int_parsers \<Rightarrow> position_codec \<Rightarrow> lending_action reducer" where
  "apply_lending_action rd ip cd (Supply a) w ctx = apply_supply cd a w ctx"
| "apply_lending_action rd ip cd (Withdraw a) w ctx = apply_withdraw cd a w ctx"
| "apply_lending_action rd ip cd (Borrow a) w ctx = apply_borrow rd cd a w ctx"
| "apply_lending_action rd ip cd (BuyCollateral a) w ctx = apply_buy_collateral a w ctx"
| "apply_lending_action rd ip cd (Repay a) w ctx = apply_repay cd a w ctx"
| "apply_lending_action rd ip cd (SwapRateMode a) w ctx = apply_swap_rate_mode cd a w ctx"
| "apply_lending_action rd ip cd (SetEMode a) w ctx = apply_set_emode cd a w ctx"
| "apply_lending_action rd ip cd (EnableCollateral a) w ctx = apply_set_collateral cd True a w ctx"
| "apply_lending_action rd ip cd (DisableCollateral a) w ctx = apply_set_collateral cd False a w ctx"
| "apply_lending_action rd ip cd (DelegateBorrow a) w ctx = apply_delegate_borrow a w ctx"
| "apply_lending_action rd ip cd (Liquidate a) w ctx = apply_liquidate rd ip a w ctx"
| "apply_lending_action rd ip cd (SetAuthorization a) w ctx = apply_set_authorization a w ctx"
| "apply_lending_action rd ip cd (PeripheryOperation a) w ctx = apply_periphery_operation a w ctx"

end
