(* ===== verification/Lending_Accounts.thy ===== *)
theory Lending_Accounts
  imports Lending_Effect
begin

text \<open>
  Correctness of the lending reducers: the lists of a lending account are maps from keys to amounts, every
  action keeps them so, and the effect of supplying, withdrawing, borrowing and swapping the rate mode on the
  account and on the balances, once the delta is applied.
\<close>

section \<open>Accounts as maps\<close>

interpretation collaterals: entries fst snd put_collateral
  by unfold_locales simp_all

interpretation debts: entries debt_key debt_amt put_debt
  by unfold_locales simp_all

definition account_of :: "wallet_state \<Rightarrow> string \<Rightarrow> lending_account option" where
  "account_of w pid =
     (case find_id pid w of
        Some p \<Rightarrow> (case pos_kind p of LendingAccount la \<Rightarrow> Some la | _ \<Rightarrow> None)
      | None \<Rightarrow> None)"

definition collateral_of :: "wallet_state \<Rightarrow> string \<Rightarrow> token_ref \<Rightarrow> u256" where
  "collateral_of w pid t = (case account_of w pid of Some la \<Rightarrow> collaterals.held t (la_collaterals la) | None \<Rightarrow> 0)"

definition account_wf :: "lending_account \<Rightarrow> bool" where
  "account_wf la \<longleftrightarrow> distinct (map fst (la_collaterals la)) \<and> distinct (map debt_key (la_debts la))"

definition lending_position_wf :: "position \<Rightarrow> bool" where
  "lending_position_wf p \<longleftrightarrow> (case pos_kind p of LendingAccount la \<Rightarrow> account_wf la | _ \<Rightarrow> True)"

lemma account_of_Some:
  "account_of w pid = Some la \<longleftrightarrow> (\<exists>p. find_id pid w = Some p \<and> pos_kind p = LendingAccount la)"
  by (auto simp: account_of_def split: option.splits position_kind.splits)

lemma merge_collateral_held:
  "collaterals.held t (la_collaterals (merge_collateral asset amount la)) =
     (if t = asset then saturating_add_u (collaterals.held asset (la_collaterals la)) amount
      else collaterals.held t (la_collaterals la))"
  by (simp add: merge_collateral_def collaterals.held_merge)

lemma merge_debt_held:
  "debts.held k (la_debts (merge_debt asset amount m la)) =
     (if k = (asset, m) then saturating_add_u (debts.held (asset, m) (la_debts la)) amount
      else debts.held k (la_debts la))"
  by (simp add: merge_debt_def debts.held_merge)

lemma reduce_collateral_Ok:
  assumes "reduce_collateral asset amount la = Ok (n, la')"
  obtains cs where "reduce_entry fst snd put_collateral asset amount (la_collaterals la) = Some (Inr (n, cs))"
    "la' = la\<lparr>la_collaterals := cs\<rparr>"
  using assms by (auto simp: reduce_collateral_def split: option.splits sum.splits)

lemma reduce_debt_Ok:
  assumes "reduce_debt asset amount m la = Ok (n, la')"
  obtains ds where "reduce_entry debt_key debt_amt put_debt (asset, m) amount (la_debts la) = Some (Inr (n, ds))"
    "la' = la\<lparr>la_debts := ds\<rparr>"
  using assms by (auto simp: reduce_debt_def split: option.splits sum.splits)

section \<open>Well-formed accounts\<close>

lemma merge_wf [intro]:
  "account_wf la \<Longrightarrow> account_wf (merge_collateral asset amount la)"
  "account_wf la \<Longrightarrow> account_wf (merge_debt asset amount m la)"
  by (simp_all add: account_wf_def merge_collateral_def merge_debt_def collaterals.distinct_merge debts.distinct_merge)

lemma reduce_wf:
  "account_wf la \<Longrightarrow> reduce_collateral asset amount la = Ok (n, la') \<Longrightarrow> account_wf la'"
  "account_wf la \<Longrightarrow> reduce_debt asset amount m la = Ok (n, la') \<Longrightarrow> account_wf la'"
  by (auto simp: account_wf_def elim!: reduce_collateral_Ok reduce_debt_Ok
      dest: collaterals.distinct_reduce debts.distinct_reduce)

lemma or_same_wf [intro]:
  "account_wf la \<Longrightarrow> account_wf (or_same (reduce_collateral asset amount) la)"
  "account_wf la \<Longrightarrow> account_wf (or_same (reduce_debt asset amount m) la)"
  by (auto simp: or_same_def dest: reduce_wf split: sum.splits)

lemma set_collateral_wf:
  "account_wf la \<Longrightarrow> \<not> list_ex (\<lambda>(t, _). t = asset) (la_collaterals la) \<Longrightarrow>
     account_wf (la\<lparr>la_collaterals := la_collaterals la @ [(asset, 0)]\<rparr>)"
  "account_wf la \<Longrightarrow> account_wf (la\<lparr>la_collaterals := filter (\<lambda>(t, _). t \<noteq> asset) (la_collaterals la)\<rparr>)"
  by (auto simp: account_wf_def list_ex_iff distinct_map_filter)

lemma new_account_wf: "lending_position_wf (new_lending_account a ctx)"
  by (simp add: lending_position_wf_def new_lending_account_def Let_def account_wf_def)

section \<open>Updates of an account\<close>

lemma lending_position_exists_new:
  "position_changes d = [] \<Longrightarrow> lending_position_exists w d pid \<longleftrightarrow> find_id pid w \<noteq> None"
  by (auto simp: lending_position_exists_def find_id_def list_ex_iff find_None_iff)

lemma upsert_lending_Ok:
  assumes "position_changes d = []"
  shows "upsert_lending_account cd w d pid (on_lending f) = Ok d' \<longleftrightarrow>
    (\<exists>p la. find_id pid w = Some p \<and> pos_kind p = LendingAccount la \<and>
      d' = push_position (PosUpdate pid (snapshot_patch cd (on_lending f p))) d)"
proof (cases "find_id pid w")
  case None
  then show ?thesis
    by (simp add: upsert_lending_account_def effective_position_new [OF assms] ok_or_def)
next
  case (Some p)
  then show ?thesis
    by (cases "pos_kind p") (auto simp: upsert_lending_account_def effective_position_new [OF assms] ok_or_def on_lending_def)
qed

lemma on_lending_id [simp]: "pos_id (on_lending f p) = pos_id p"
  by (simp add: on_lending_def split: position_kind.splits)

text \<open>The codec reads back the accounts \<open>f\<close> writes.\<close>

abbreviation codec_keeps :: "position_codec \<Rightarrow> wallet_state \<Rightarrow> (lending_account \<Rightarrow> lending_account) \<Rightarrow> bool" where
  "codec_keeps cd w f \<equiv> \<forall>p\<in>set (ws_positions w). codec_roundtrips cd (on_lending f p)"

lemma builds_upsert:
  assumes "builds cd w d w1" and "position_changes d = []" and "upsert_lending_account cd w d pid (on_lending f) = Ok d'"
    and "codec_keeps cd w f"
  obtains la w2 where "account_of w pid = Some la" "builds cd w d' w2" "ws_tokens w2 = ws_tokens w1"
    "account_of w2 pid = Some (f la)" "\<forall>j. j \<noteq> pid \<longrightarrow> find_id j w2 = find_id j w"
proof -
  from assms(3) obtain p la where p: "find_id pid w = Some p" "pos_kind p = LendingAccount la"
    and d': "d' = push_position (PosUpdate pid (snapshot_patch cd (on_lending f p))) d"
    unfolding upsert_lending_Ok [OF assms(2)] by blast
  have id: "pos_id (on_lending f p) = pid" "codec_roundtrips cd (on_lending f p)"
    using find_id_pos_id [OF p(1)] assms(4) by simp_all
  from p(1) id(1) have found: "find_id (pos_id (on_lending f p)) w = Some p"
    by simp
  from builds_snapshot [OF assms(1,2) found id(2)] d' id(1) obtain w2 where w2:
    "builds cd w d' w2" "ws_tokens w2 = ws_tokens w1" "ws_positions w2 = put_position (on_lending f p) w"
    by auto
  have find: "find_id j w2 = (if j = pid then Some (on_lending f p) else find_id j w)" for j
    using find_put_position(1) [OF found, of j] w2(3) id(1) by (simp add: find_id_def)
  then have "account_of w2 pid = Some (f la)"
    using p(2) by (simp add: account_of_Some on_lending_def)
  moreover have "account_of w pid = Some la"
    using p by (auto simp: account_of_Some)
  ultimately show ?thesis
    using that w2(1,2) find by simp
qed

section \<open>Supply and withdraw\<close>

abbreviation supply_id :: "supply_action \<Rightarrow> string" where
  "supply_id a \<equiv> lending_position_id (su_venue a)"

text \<open>The supplied amount becomes collateral.\<close>

definition collateralizes :: "supply_action \<Rightarrow> wallet_state \<Rightarrow> bool" where
  "collateralizes a w \<longleftrightarrow> find_id (supply_id a) w \<noteq> None \<or> lf_value (suli_eligible_as_collat (su_live_inputs a))"

lemma new_account_id: "pos_id (new_lending_account a ctx) = supply_id a"
  by (simp add: new_lending_account_def Let_def)

lemma supply_applies:
  assumes "apply_supply cd a w ctx = Ok d" and "codec_keeps cd w (merge_collateral (su_asset a) (su_amount a))"
    and "collateralizes a w"
  obtains w' where "builds cd w d w'"
    "\<forall>k. capped_balance w' k = map_option (\<lambda>x. x - total_of k [(su_asset a, su_amount a)]) (capped_balance w k)"
    "\<exists>la. account_of w' (supply_id a) = Some la \<and> su_asset a \<in> set (map fst (la_collaterals la)) \<and>
      (\<forall>la0. account_of w (supply_id a) = Some la0 \<longrightarrow> la = merge_collateral (su_asset a) (su_amount a) la0) \<and>
      (account_of w (supply_id a) = None \<longrightarrow> la_collaterals la = [(su_asset a, su_amount a)])"
    "balance_of w (ref_key (su_asset a)) \<noteq> None"
proof -
  from assms(1) obtain d1 where d1: "debit w delta_new (ref_key (su_asset a)) (su_amount a) = Ok d1" and
    rest: "(if lending_position_exists w d1 (supply_id a) then
         upsert_lending_account cd w d1 (supply_id a) (on_lending (merge_collateral (su_asset a) (su_amount a)))
       else if lf_value (suli_eligible_as_collat (su_live_inputs a)) then open_position w d1 (new_lending_account a ctx)
       else open_position w d1 (on_lending (\<lambda>la. la\<lparr>la_collaterals := []\<rparr>) (new_lending_account a ctx))) = Ok d"
    by (auto simp: apply_supply_def bind_result_eq_Ok Let_def)
  have none: "position_changes d1 = []"
    using debit_positions [OF d1] by (simp add: delta_new_def)
  from debits.op_step_balances [OF builds_new d1] obtain w1 where w1: "builds cd w d1 w1"
    "\<forall>k. capped_balance w1 k = map_option (\<lambda>x. x - total_of k [(su_asset a, su_amount a)]) (capped_balance w k)"
    unfolding debits_flow by blast
  have held: "balance_of w (ref_key (su_asset a)) \<noteq> None"
    using d1 by (rule debit_Ok_balance) simp
  have bal: "capped_balance w' k = capped_balance w1 k" if "ws_tokens w' = ws_tokens w1" for w' k
    using same_tokens_balance [OF that] by (simp add: capped_balance_def)
  show ?thesis
  proof (cases "lending_position_exists w d1 (supply_id a)")
    case True
    then have "upsert_lending_account cd w d1 (supply_id a) (on_lending (merge_collateral (su_asset a) (su_amount a))) = Ok d"
      using rest by simp
    from builds_upsert [OF w1(1) none this assms(2)] obtain la w' where w': "account_of w (supply_id a) = Some la"
      "builds cd w d w'" "ws_tokens w' = ws_tokens w1"
      "account_of w' (supply_id a) = Some (merge_collateral (su_asset a) (su_amount a) la)"
      "\<forall>j. j \<noteq> supply_id a \<longrightarrow> find_id j w' = find_id j w" .
    have "su_asset a \<in> set (map fst (la_collaterals (merge_collateral (su_asset a) (su_amount a) la)))"
      by (cases rule: collaterals.merge_cases [of "la_collaterals la" "su_asset a" "(su_asset a, su_amount a)" "su_amount a"])
        (auto simp: merge_collateral_def)
    then show ?thesis
      using that [OF w'(2)] w' w1(2) bal [OF w'(3)] held by simp
  next
    case False
    then have "open_position w d1 (new_lending_account a ctx) = Ok d"
      using rest assms(3) by (simp add: collateralizes_def lending_position_exists_new [OF none])
    from builds_open [OF w1(1) none this] obtain w' where w': "builds cd w d w'" "ws_tokens w' = ws_tokens w1"
      "find_id (supply_id a) w = None"
      "\<forall>j. find_id j w' = (if j = supply_id a then Some (new_lending_account a ctx) else find_id j w)"
      by (auto simp: new_account_id)
    then have "account_of w (supply_id a) = None"
      "\<exists>la. account_of w' (supply_id a) = Some la \<and> la_collaterals la = [(su_asset a, su_amount a)]"
      by (simp_all add: account_of_def new_lending_account_def Let_def)
    then show ?thesis
      using that [OF w'(1)] w' w1(2) bal [OF w'(2)] held by auto
  qed
qed

lemma supply_collateral:
  assumes "apply_supply cd a w ctx = Ok d" and "codec_keeps cd w (merge_collateral (su_asset a) (su_amount a))"
    and "collateralizes a w" and "builds cd w d w'"
  shows "collateral_of w' (supply_id a) t =
    (if t = su_asset a then saturating_add_u (collateral_of w (supply_id a) t) (su_amount a)
     else collateral_of w (supply_id a) t)"
proof -
  from assms(4) obtain la where la: "account_of w' (supply_id a) = Some la"
    "\<forall>la0. account_of w (supply_id a) = Some la0 \<longrightarrow> la = merge_collateral (su_asset a) (su_amount a) la0"
    "account_of w (supply_id a) = None \<longrightarrow> la_collaterals la = [(su_asset a, su_amount a)]"
    using supply_applies [OF assms(1-3)] by (metis builds_def sum.inject(2))
  show ?thesis
  proof (cases "account_of w (supply_id a)")
    case None
    with la show ?thesis
      by (simp add: collateral_of_def collaterals.held_def)
  next
    case (Some la0)
    with la show ?thesis
      by (simp add: collateral_of_def merge_collateral_held)
  qed
qed

text \<open>A withdrawal by the owner of at most what is held is accepted.\<close>

lemma withdraw_applies:
  assumes "account_of w pid = Some la" and "distinct (map fst (la_collaterals la))" and "wi_asset b \<in> set (map fst (la_collaterals la))"
    and "wi_amount b \<le> collaterals.held (wi_asset b) (la_collaterals la)"
    and "lending_position_id (wi_venue b) = pid" and "wi_amount b \<noteq> u256_max" and "wi_recipient b = wid_address (ws_wallet_id w)"
    and "\<not> rs_is_paused (lf_value (wili_reserve_state (wi_live_inputs b)))"
    and "codec_keeps cd w (or_same (reduce_collateral (wi_asset b) (wi_amount b)))"
    and "balance_of w (ref_key (wi_asset b)) \<noteq> None"
  shows "\<exists>e w'. apply_withdraw cd b w ctx = Ok e \<and> builds cd w e w' \<and>
    (\<forall>k. capped_balance w' k = map_option (\<lambda>x. min (x + total_of k [(wi_asset b, wi_amount b)]) i256_max) (capped_balance w k)) \<and>
    (\<forall>t. collateral_of w' pid t = collateral_of w pid t - (if t = wi_asset b then wi_amount b else 0))"
proof -
  let ?red = "reduce_collateral (wi_asset b) (wi_amount b)"
  obtain n cs where red: "reduce_entry fst snd put_collateral (wi_asset b) (wi_amount b) (la_collaterals la) = Some (Inr (n, cs))"
    using collaterals.reduce_accepts [OF assms(4)] assms(3) unfolding set_map image_iff by metis
  then have la': "?red la = Ok (n, la\<lparr>la_collaterals := cs\<rparr>)"
    by (simp add: reduce_collateral_def)
  have held: "collaterals.held t cs = collaterals.held t (la_collaterals la) - (if t = wi_asset b then wi_amount b else 0)" for t
    using collaterals.held_reduce(3) [OF red assms(2)] by simp
  from assms(1) obtain p where p: "find_id pid w = Some p" "pos_kind p = LendingAccount la"
    by (auto simp: account_of_Some)
  define d where "d = push_position (PosUpdate pid (snapshot_patch cd (on_lending (or_same ?red) p))) delta_new"
  have new: "position_changes delta_new = []"
    by (simp add: delta_new_def)
  have d: "upsert_lending_account cd w delta_new pid (on_lending (or_same ?red)) = Ok d"
    unfolding upsert_lending_Ok [OF new] using p by (auto simp: d_def)
  obtain e where e: "credit w d (ref_key (wi_asset b)) (wi_amount b) = Ok e"
    using assms(10) credit_accepts by blast
  have "check_reduction w pid ?red = Ok ()"
    using p la' by (simp add: check_reduction_def find_id_def ok_or_def)
  then have ok: "apply_withdraw cd b w ctx = Ok e"
    using assms(5-8) d e p(1) lending_position_exists_new [OF new] by (simp add: apply_withdraw_def Let_def withdraw_amount_def)
  from builds_upsert [OF builds_new new d assms(9)] assms(1) obtain w1 where w1: "builds cd w d w1" "ws_tokens w1 = ws_tokens w"
    "account_of w1 pid = Some (or_same ?red la)"
    by auto
  from credits.op_step_balances [OF w1(1) e] obtain w' where w': "builds cd w e w'"
    "\<forall>k. capped_balance w' k = map_option (\<lambda>x. credits.flow k x [(wi_asset b, wi_amount b)]) (capped_balance w1 k)"
    by blast
  have same: "capped_balance w1 = capped_balance w"
    using same_tokens_balance [OF w1(2)] by (simp add: capped_balance_def fun_eq_iff)
  have "capped_balance w' k = map_option (\<lambda>x. min (x + total_of k [(wi_asset b, wi_amount b)]) i256_max) (capped_balance w k)" for k
    using w'(2) same capped_range [of w k] by (cases "capped_balance w k") (simp_all add: credits_flow)
  moreover have "ws_positions w' = ws_positions w1"
    using builds_same_positions [OF w1(1) w'(1)] credit_positions [OF e] by simp
  then have "account_of w' pid = Some (la\<lparr>la_collaterals := cs\<rparr>)"
    using w1(3) la' by (simp add: account_of_def find_id_def or_same_def)
  then have "collateral_of w' pid t = collateral_of w pid t - (if t = wi_asset b then wi_amount b else 0)" for t
    using assms(1) held by (simp add: collateral_of_def)
  ultimately show ?thesis
    using ok w'(1) by blast
qed

section \<open>Borrow and rate mode\<close>

lemma borrow_parts:
  assumes "apply_borrow rd cd a w ctx = Ok d"
  obtains la hf e n where "borrow_checks a = Ok ()" "account_of w (lending_position_id (bo_venue a)) = Some la"
    "upsert_lending_account cd w delta_new (lending_position_id (bo_venue a))
       (on_lending (merge_debt (bo_asset a) (bo_amount a) (bo_rate_mode a))) = Ok e"
    "borrow_health rd a la = Ok hf" "rd_from_str rd (decimal_str hf) = Some n" "\<not> rd_less rd n (rd_from_u32 rd 1)"
    "credit w e (ref_key (bo_asset a)) (bo_amount a) = Ok d"
proof -
  let ?pid = "lending_position_id (bo_venue a)"
  from assms obtain e p where c: "borrow_checks a = Ok ()" and e: "upsert_lending_account cd w delta_new ?pid
       (on_lending (merge_debt (bo_asset a) (bo_amount a) (bo_rate_mode a))) = Ok e"
    and p: "find_id ?pid w = Some p" and rest: "(case pos_kind p of
             LendingAccount la \<Rightarrow>
               bind_result (borrow_health rd a la) (\<lambda>hf.
               bind_result (hf_is_safe rd hf) (\<lambda>safe.
                 if \<not> safe then Err (Invariant (UnsafeHealth hf))
                 else credit w e (ref_key (bo_asset a)) (bo_amount a)))
           | _ \<Rightarrow> Err (Invariant (Text (''borrow: position '' @ ?pid @ '' is not a LendingAccount'')))) = Ok d"
    by (auto simp: apply_borrow_def bind_result_eq_Ok Let_def ok_or_def find_id_def split: if_splits option.splits)
  obtain la where la: "pos_kind p = LendingAccount la"
    using rest by (cases "pos_kind p") auto
  then have "account_of w ?pid = Some la"
    using p by (auto simp: account_of_Some)
  with that c e rest la show ?thesis
    by (auto simp: bind_result_eq_Ok hf_is_safe_def ok_or_def split: if_splits option.splits)
qed

abbreviation moved_debt :: "swap_rate_mode_action \<Rightarrow> u256 \<Rightarrow> lending_account \<Rightarrow> lending_account" where
  "moved_debt a amount \<equiv> \<lambda>la.
     merge_debt (sr_asset a) amount (sr_new_mode a) (or_same (reduce_debt (sr_asset a) amount (other_mode (sr_new_mode a))) la)"

lemma other_mode_differs: "other_mode m \<noteq> m"
  by (cases m) (simp_all add: other_mode_def)

lemma find_debt:
  assumes "List.find (\<lambda>(t, _, r). t = asset \<and> r = m) ds = Some (t, amount, r)"
  shows "t = asset" "r = m" "debts.held (asset, m) ds = amount" "\<exists>x\<in>set ds. debt_key x = (asset, m)"
proof -
  have f: "(\<lambda>(t, _, r). t = asset \<and> r = m) = (\<lambda>x. debt_key x = (asset, m))"
    by (auto simp: fun_eq_iff)
  have held: "debts.held (asset, m) ds = amount"
    using assms unfolding f by (simp add: debts.held_def)
  obtain us vs where "ds = us @ (t, amount, r) # vs" "t = asset" "r = m"
    using find_Some_split [OF assms] by auto
  with held show "t = asset" "r = m" "debts.held (asset, m) ds = amount" "\<exists>x\<in>set ds. debt_key x = (asset, m)"
    by auto
qed

lemma moved_debt_held:
  assumes "account_wf la" and "\<exists>x\<in>set (la_debts la). debt_key x = (sr_asset a, other_mode (sr_new_mode a))"
    and "amount = debts.held (sr_asset a, other_mode (sr_new_mode a)) (la_debts la)"
  shows "debts.held k (la_debts (moved_debt a amount la)) =
      (if k = (sr_asset a, sr_new_mode a) then saturating_add_u (debts.held k (la_debts la)) amount
       else if k = (sr_asset a, other_mode (sr_new_mode a)) then 0
       else debts.held k (la_debts la))"
    "la_collaterals (moved_debt a amount la) = la_collaterals la"
proof -
  let ?k = "(sr_asset a, other_mode (sr_new_mode a))"
  obtain n ds where red: "reduce_entry debt_key debt_amt put_debt ?k amount (la_debts la) = Some (Inr (n, ds))"
    using debts.reduce_accepts [OF _ assms(2), of amount] assms(3) by blast
  then have la': "or_same (reduce_debt (sr_asset a) amount (other_mode (sr_new_mode a))) la = la\<lparr>la_debts := ds\<rparr>"
    by (simp add: or_same_def reduce_debt_def)
  have "debts.held k' ds = (if k' = ?k then 0 else debts.held k' (la_debts la))" for k'
    using debts.held_reduce(3) [OF red] assms(1,3) by (simp add: account_wf_def)
  then show "debts.held k (la_debts (moved_debt a amount la)) =
      (if k = (sr_asset a, sr_new_mode a) then saturating_add_u (debts.held k (la_debts la)) amount
       else if k = ?k then 0 else debts.held k (la_debts la))"
    "la_collaterals (moved_debt a amount la) = la_collaterals la"
    using other_mode_differs [of "sr_new_mode a"] by (simp_all add: la' merge_debt_held) (simp_all add: merge_debt_def)
qed

lemma swap_rate_mode_parts:
  assumes "apply_swap_rate_mode cd a w ctx = Ok d"
  obtains la amount where "account_of w (lending_position_id (sr_venue a)) = Some la"
    "amount = debts.held (sr_asset a, other_mode (sr_new_mode a)) (la_debts la)"
    "\<exists>x\<in>set (la_debts la). debt_key x = (sr_asset a, other_mode (sr_new_mode a))"
    "upsert_lending_account cd w delta_new (lending_position_id (sr_venue a)) (on_lending (moved_debt a amount)) = Ok d"
proof -
  let ?pid = "lending_position_id (sr_venue a)" and ?m = "other_mode (sr_new_mode a)"
  from assms obtain la t amount r where la: "lending_account_at w ?pid ''swap_rate_mode'' = Ok la"
    and f: "List.find (\<lambda>(t, _, r). t = sr_asset a \<and> r = ?m) (la_debts la) = Some (t, amount, r)"
    and d: "upsert_lending_account cd w delta_new ?pid (on_lending (\<lambda>la.
                merge_debt t amount (sr_new_mode a) (or_same (reduce_debt t amount ?m) la))) = Ok d"
    by (auto simp: apply_swap_rate_mode_def bind_result_eq_Ok Let_def ok_or_def split: if_splits option.splits)
  have "account_of w ?pid = Some la"
    using la by (auto simp: lending_account_at_def bind_result_eq_Ok ok_or_def account_of_Some find_id_def
        split: option.splits position_kind.splits)
  with that [of la amount] find_debt [OF f] d show ?thesis
    by simp
qed

section \<open>All actions\<close>

text \<open>A position change that stores only a well-formed account.\<close>

definition stores_wf :: "position_codec \<Rightarrow> position_change \<Rightarrow> bool" where
  "stores_wf cd pc =
     (case pc of
        PosOpen p \<Rightarrow> lending_position_wf p
      | PosUpdate i patch \<Rightarrow> (\<exists>p. patch = snapshot_patch cd p \<and> pos_id p = i \<and> lending_position_wf p)
      | PosClose _ \<Rightarrow> True)"

lemma upsert_stores_wf:
  assumes "upsert_lending_account cd w d pid (on_lending f) = Ok d'" and "position_changes d = []"
    and "list_all lending_position_wf (ws_positions w)" and "\<And>la. account_wf la \<Longrightarrow> account_wf (f la)"
  shows "list_all (stores_wf cd) (position_changes d')"
proof -
  from assms(1) obtain p la where p: "find_id pid w = Some p" "pos_kind p = LendingAccount la"
    and d': "d' = push_position (PosUpdate pid (snapshot_patch cd (on_lending f p))) d"
    unfolding upsert_lending_Ok [OF assms(2)] by blast
  have "lending_position_wf (on_lending f p)" "pos_id (on_lending f p) = pid"
    using find_id_pos_id [OF p(1)] p(2) assms(3,4) by (auto simp: on_lending_def lending_position_wf_def list_all_iff)
  then have "\<exists>q. snapshot_patch cd (on_lending f p) = snapshot_patch cd q \<and> pos_id q = pid \<and> lending_position_wf q"
    by blast
  then show ?thesis
    by (simp add: d' assms(2) stores_wf_def)
qed

lemma open_stores_wf:
  "open_position w d p = Ok d' \<Longrightarrow> position_changes d = [] \<Longrightarrow> lending_position_wf p \<Longrightarrow>
     list_all (stores_wf cd) (position_changes d')"
  by (auto simp: open_position_def stores_wf_def split: if_splits)

lemma supply_stores_wf:
  assumes "apply_supply cd a w ctx = Ok d" and "list_all lending_position_wf (ws_positions w)"
  shows "list_all (stores_wf cd) (position_changes d)"
proof -
  have "lending_position_wf (on_lending (\<lambda>la. la\<lparr>la_collaterals := []\<rparr>) (new_lending_account a ctx))"
    by (simp add: new_lending_account_def Let_def on_lending_def lending_position_wf_def account_wf_def)
  with assms show ?thesis
    by (auto simp: apply_supply_def bind_result_eq_Ok Let_def new_account_wf delta_new_def
        dest!: debit_positions intro: upsert_stores_wf open_stores_wf split: if_splits)
qed

lemma withdraw_stores_wf:
  assumes "apply_withdraw cd a w ctx = Ok d" and "list_all lending_position_wf (ws_positions w)"
  shows "list_all (stores_wf cd) (position_changes d)"
proof -
  from assms(1) obtain e where e: "upsert_lending_account cd w delta_new (lending_position_id (wi_venue a))
      (on_lending (or_same (reduce_collateral (wi_asset a) (withdraw_amount a)))) = Ok e"
    "d = e \<or> credit w e (ref_key (wi_asset a)) (withdraw_amount a) = Ok d"
    by (auto simp: apply_withdraw_def bind_result_eq_Ok Let_def split: if_splits)
  have "list_all (stores_wf cd) (position_changes e)"
    by (rule upsert_stores_wf [OF e(1) _ assms(2)]) (simp, blast)
  then show ?thesis
    using e(2) credit_positions by auto
qed

lemma repay_stores_wf:
  assumes "apply_repay cd a w ctx = Ok d" and "list_all lending_position_wf (ws_positions w)"
  shows "list_all (stores_wf cd) (position_changes d)"
proof -
  from assms(1) obtain e where e: "upsert_lending_account cd w delta_new (lending_position_id (re_venue a))
      (on_lending (or_same (reduce_debt (re_asset a) (repay_amount a) (re_rate_mode a)))) = Ok e"
    "debit w e (ref_key (re_asset a)) (repay_amount a) = Ok d"
    by (auto simp: apply_repay_def bind_result_eq_Ok Let_def split: if_splits)
  have "list_all (stores_wf cd) (position_changes e)"
    by (rule upsert_stores_wf [OF e(1) _ assms(2)]) (simp, blast)
  then show ?thesis
    using debit_positions [OF e(2)] by simp
qed

lemma borrow_stores_wf:
  assumes "apply_borrow rd cd a w ctx = Ok d" and "list_all lending_position_wf (ws_positions w)"
  shows "list_all (stores_wf cd) (position_changes d)"
  using assms(1)
proof (rule borrow_parts)
  fix e
  assume e: "upsert_lending_account cd w delta_new (lending_position_id (bo_venue a))
      (on_lending (merge_debt (bo_asset a) (bo_amount a) (bo_rate_mode a))) = Ok e"
    "credit w e (ref_key (bo_asset a)) (bo_amount a) = Ok d"
  have "list_all (stores_wf cd) (position_changes e)"
    by (rule upsert_stores_wf [OF e(1) _ assms(2)]) (simp, blast)
  then show ?thesis
    using credit_positions [OF e(2)] by simp
qed

lemma settings_store_wf:
  assumes "list_all lending_position_wf (ws_positions w)"
  shows "apply_swap_rate_mode cd a w ctx = Ok d \<Longrightarrow> list_all (stores_wf cd) (position_changes d)"
    "apply_set_emode cd b w ctx = Ok d \<Longrightarrow> list_all (stores_wf cd) (position_changes d)"
    "apply_set_collateral cd enable c w ctx = Ok d \<Longrightarrow> list_all (stores_wf cd) (position_changes d)"
proof -
  show "list_all (stores_wf cd) (position_changes d)" if "apply_swap_rate_mode cd a w ctx = Ok d"
    using that by (rule swap_rate_mode_parts) (auto intro!: upsert_stores_wf [OF _ _ assms])
  show "list_all (stores_wf cd) (position_changes d)" if "apply_set_emode cd b w ctx = Ok d"
    using that by (auto simp: apply_set_emode_def bind_result_eq_Ok Let_def account_wf_def
        intro!: upsert_stores_wf [OF _ _ assms] split: if_splits)
  show "list_all (stores_wf cd) (position_changes d)" if "apply_set_collateral cd enable c w ctx = Ok d"
    using that by (auto simp: apply_set_collateral_def Let_def set_collateral_wf
        intro!: upsert_stores_wf [OF _ _ assms] split: if_splits)
qed

lemma upsert_lending_gas: "upsert_lending_account cd w d pid mutate = Ok d' \<Longrightarrow> gas_paid d' = gas_paid d"
  by (auto simp: upsert_lending_account_def bind_result_eq_Ok Let_def split: if_splits)

lemma apply_lending_action_gasless: "apply_lending_action rd ip cd a w ctx = Ok d \<Longrightarrow> gas_paid d = None"
proof (cases a)
  case (Borrow x)
  assume "apply_lending_action rd ip cd a w ctx = Ok d"
  then have "apply_borrow rd cd x w ctx = Ok d"
    by (simp add: Borrow)
  then show ?thesis
    by (rule borrow_parts) (auto simp: delta_new_def dest!: upsert_lending_gas credit_gas)
next
  case (SwapRateMode x)
  assume "apply_lending_action rd ip cd a w ctx = Ok d"
  then have "apply_swap_rate_mode cd x w ctx = Ok d"
    by (simp add: SwapRateMode)
  then show ?thesis
    by (rule swap_rate_mode_parts) (auto simp: delta_new_def dest!: upsert_lending_gas)
qed (auto simp: apply_supply_def apply_withdraw_def apply_repay_def apply_set_emode_def apply_set_collateral_def
    apply_delegate_borrow_def apply_liquidate_def apply_buy_collateral_def apply_set_authorization_def
    apply_periphery_operation_def delta_new_def bind_result_eq_Ok Let_def
    dest!: upsert_lending_gas open_position_gas credit_gas debit_gas split: if_splits)

section \<open>Properties\<close>

text \<open>
  C5. A supply can be taken back: after a supply that became collateral is applied, the owner's withdrawal
  of the same amount from the unpaused reserve is accepted, its delta applies, and every balance and the
  collateral of every token are again what they were before the supply.
\<close>

theorem supply_withdraw_restores:
  assumes "apply_supply cd a w ctx = Ok d" and "apply_delta cd w d = Ok w1" and "collateralizes a w"
    and "\<forall>p\<in>set (ws_positions w). lending_position_wf p"
    and "unat (collateral_of w (lending_position_id (su_venue a)) (su_asset a)) + unat (su_amount a) < 2 ^ 256"
    and "codec_keeps cd w (merge_collateral (su_asset a) (su_amount a))"
    and "codec_keeps cd w1 (or_same (reduce_collateral (su_asset a) (su_amount a)))"
    and "wi_venue b = su_venue a" and "wi_asset b = su_asset a" and "wi_amount b = su_amount a" and "su_amount a \<noteq> u256_max"
    and "wi_recipient b = wid_address (ws_wallet_id w)" and "\<not> rs_is_paused (lf_value (wili_reserve_state (wi_live_inputs b)))"
  shows "\<exists>e w2. apply_withdraw cd b w1 ctx' = Ok e \<and> apply_delta cd w1 e = Ok w2 \<and>
    (\<forall>k. capped_balance w2 k = capped_balance w k) \<and>
    (\<forall>t. collateral_of w2 (lending_position_id (su_venue a)) t = collateral_of w (lending_position_id (su_venue a)) t)"
proof -
  let ?pid = "lending_position_id (su_venue a)" and ?t = "su_asset a" and ?x = "su_amount a"
  from supply_applies [OF assms(1,6,3)] obtain v la where v: "builds cd w d v"
    and bal: "\<forall>k. capped_balance v k = map_option (\<lambda>x. x - total_of k [(?t, ?x)]) (capped_balance w k)"
    and la: "account_of v ?pid = Some la" "?t \<in> set (map fst (la_collaterals la))"
      "\<forall>la0. account_of w ?pid = Some la0 \<longrightarrow> la = merge_collateral ?t ?x la0"
      "account_of w ?pid = None \<longrightarrow> la_collaterals la = [(?t, ?x)]"
    and known: "balance_of w (ref_key ?t) \<noteq> None"
    by metis
  have w1: "w1 = v"
    using v assms(2) by (simp add: builds_def)
  have sum: "collateral_of w1 ?pid t = collateral_of w ?pid t + (if t = ?t then ?x else 0)" for t
    using supply_collateral [OF assms(1,6,3) v, of t] assms(5) w1 by (auto simp: saturating_add_u_def)
  have "?x \<le> collateral_of w1 ?pid ?t"
    using sum [of ?t] assms(5) by (simp add: word_le_nat_alt unat_word_ariths)
  then have held: "wi_amount b \<le> collaterals.held (wi_asset b) (la_collaterals la)"
    using la(1) w1 assms(9,10) by (simp add: collateral_of_def)
  have "account_wf la0" if "account_of w ?pid = Some la0" for la0
    using that assms(4) find_id_pos_id by (fastforce simp: account_of_Some lending_position_wf_def)
  then have distinct: "distinct (map fst (la_collaterals la))"
    using la(3,4) merge_wf(1) by (cases "account_of w ?pid") (auto simp: account_wf_def)
  have "balance_of w1 (ref_key (wi_asset b)) \<noteq> None"
    using bal known w1 assms(9) by (metis capped_balance_def option.map_disc_iff)
  then obtain e w2 where e: "apply_withdraw cd b w1 ctx' = Ok e" "builds cd w1 e w2"
    "\<forall>k. capped_balance w2 k = map_option (\<lambda>x. min (x + total_of k [(?t, ?x)]) i256_max) (capped_balance w1 k)"
    "\<forall>t. collateral_of w2 ?pid t = collateral_of w1 ?pid t - (if t = ?t then ?x else 0)"
    using withdraw_applies [OF _ distinct _ held, of w1 ?pid cd ctx'] la(1,2) w1 assms(7-13) builds_wallet_id [OF v] by auto
  have "capped_balance w2 k = capped_balance w k" for k
    using e(3) bal w1 capped_range [of w k] by (cases "capped_balance w k") auto
  with e sum show ?thesis
    by (auto simp: builds_def)
qed

text \<open>A supply of 100 USDC that opens an account on Aave, and its withdrawal, for the witness.\<close>

definition sample_reserve :: reserve_state where
  "sample_reserve =
     \<lparr>rs_total_supply = 1000000, rs_total_borrow = 500000, rs_utilization_bp = 5000, rs_supply_cap = Some 2000000,
      rs_borrow_cap = None, rs_ltv_bp = 7500, rs_liquidation_threshold_bp = 8000, rs_liquidation_bonus_bp = 500,
      rs_reserve_factor_bp = 1000, rs_is_frozen = False, rs_is_paused = False\<rparr>"

definition sample_user :: user_lending_state where
  "sample_user = \<lparr>ul_health_factor = Decimal ''2'', ul_total_collat_usd = 0, ul_total_debt_usd = 0, ul_available_borrow_usd = 0\<rparr>"

abbreviation now_field :: "'a \<Rightarrow> 'a live_field" where
  "now_field v \<equiv> live_field_new v UserSupplied (Time 1)"

definition sample_venue :: lending_venue where
  "sample_venue = AaveV3 ethereum_mainnet 0xB1 None"

definition sample_supply :: supply_action where
  "sample_supply =
     \<lparr>su_venue = sample_venue, su_asset = TokenRef usdc_key, su_amount = 100, su_on_behalf_of = None,
      su_live_inputs = \<lparr>suli_reserve_state = now_field sample_reserve, suli_supply_apy = now_field (Decimal ''0''),
        suli_a_token_price_usd = now_field (Decimal ''1''), suli_eligible_as_collat = now_field True,
        suli_user_state_before = now_field sample_user\<rparr>\<rparr>"

definition sample_withdraw :: withdraw_action where
  "sample_withdraw =
     \<lparr>wi_venue = sample_venue, wi_asset = TokenRef usdc_key, wi_amount = 100, wi_recipient = 0xC0,
      wi_live_inputs = \<lparr>wili_reserve_state = now_field sample_reserve, wili_available_to_withdraw = now_field 100,
        wili_user_state_before = now_field sample_user\<rparr>\<rparr>"

lemma sample_supply_sel:
  "su_venue sample_supply = sample_venue" "su_asset sample_supply = TokenRef usdc_key" "su_amount sample_supply = 100"
  "lf_value (suli_eligible_as_collat (su_live_inputs sample_supply))"
  "wi_venue sample_withdraw = sample_venue" "wi_asset sample_withdraw = TokenRef usdc_key" "wi_amount sample_withdraw = 100"
  "wi_recipient sample_withdraw = 0xC0" "\<not> rs_is_paused (lf_value (wili_reserve_state (wi_live_inputs sample_withdraw)))"
  by (simp_all add: sample_supply_def sample_withdraw_def sample_reserve_def live_field_new_def)

definition supply_codec :: position_codec where
  "supply_codec = fixed_codec (on_lending (or_same (reduce_collateral (TokenRef usdc_key) 100))
     (new_lending_account sample_supply sample_ctx))"

lemma sample_supply_applies:
  obtains d w1 where "apply_supply supply_codec sample_supply sample_wallet sample_ctx = Ok d"
    "apply_delta supply_codec sample_wallet d = Ok w1" "ws_positions w1 = [new_lending_account sample_supply sample_ctx]"
proof -
  have new: "find_id (lending_position_id sample_venue) sample_wallet = None"
    by (simp add: find_id_def sample_wallet_def wallet_new_def)
  have "is_ok (supply_checks sample_supply)" "is_ok (debit sample_wallet delta_new usdc_key 100)"
    by code_simp+
  then obtain d1 where d1: "supply_checks sample_supply = Ok ()" "debit sample_wallet delta_new usdc_key 100 = Ok d1"
    by (auto simp: is_ok_def split: sum.splits)
  then have none: "position_changes d1 = []"
    by (auto dest: debit_positions)
  define d where "d = push_position (PosOpen (new_lending_account sample_supply sample_ctx)) d1"
  have d: "apply_supply supply_codec sample_supply sample_wallet sample_ctx = Ok d"
    using d1 new by (simp add: apply_supply_def sample_supply_sel lending_position_exists_new [OF none] open_position_def
        effective_exists_new [OF none] new_account_id d_def)
  from debits.op_step [OF builds_new d1(2), of supply_codec] obtain v where v: "builds supply_codec sample_wallet d1 v"
    by blast
  let ?w1 = "v\<lparr>ws_positions := ws_positions v @ [new_lending_account sample_supply sample_ctx]\<rparr>"
  have "builds supply_codec sample_wallet d ?w1"
    unfolding d_def by (rule builds_push_position [OF v]) simp
  moreover have "ws_positions v = ws_positions sample_wallet"
    using builds_positions [OF v] none by simp
  moreover have "ws_positions sample_wallet = []"
    by code_simp
  ultimately show ?thesis
    using that [OF d] by (simp add: builds_def)
qed

theorem supply_withdraw_restores_witness:
  "\<exists>d w1 e w2. apply_supply supply_codec sample_supply sample_wallet sample_ctx = Ok d \<and>
     apply_delta supply_codec sample_wallet d = Ok w1 \<and> apply_withdraw supply_codec sample_withdraw w1 sample_ctx = Ok e \<and>
     apply_delta supply_codec w1 e = Ok w2 \<and> capped_balance w2 usdc_key = Some 1000"
proof -
  obtain d w1 where d: "apply_supply supply_codec sample_supply sample_wallet sample_ctx = Ok d"
    "apply_delta supply_codec sample_wallet d = Ok w1" "ws_positions w1 = [new_lending_account sample_supply sample_ctx]"
    by (rule sample_supply_applies)
  have ps: "ws_positions sample_wallet = []" "wid_address (ws_wallet_id sample_wallet) = 0xC0"
    by code_simp+
  then have none: "collateral_of sample_wallet pid t = 0" for pid t
    by (simp add: collateral_of_def account_of_def find_id_def)
  have "(100 :: u256) \<noteq> u256_max"
    by code_simp
  then obtain e w2 where "apply_withdraw supply_codec sample_withdraw w1 sample_ctx = Ok e" "apply_delta supply_codec w1 e = Ok w2"
    "capped_balance w2 usdc_key = capped_balance sample_wallet usdc_key"
    using supply_withdraw_restores [OF d(1,2), of sample_withdraw sample_ctx] d(3) ps none
    by (simp add: collateralizes_def supply_codec_def sample_supply_sel) blast
  moreover have "capped_balance sample_wallet usdc_key = Some 1000"
    by (simp add: capped_balance_def sample_balance cap_def i256_max_def)
  ultimately show ?thesis
    using d(1,2) by auto
qed

text \<open>
  C6. An accepted borrow is within the reserve's liquidity and its borrow cap, and the health factor recomputed for
  the account with the new debt is at least one, as decimals compare. Applying its delta adds exactly that debt to the account,
  leaves the collateral, and credits the borrowed amount, capped at the largest signed value, and no other balance.
\<close>

theorem borrow_exact:
  assumes "apply_borrow rd cd a w ctx = Ok d" and "ordered_decimal rd val"
    and "codec_keeps cd w (merge_debt (bo_asset a) (bo_amount a) (bo_rate_mode a))"
  shows "\<exists>la hf h w'. account_of w (lending_position_id (bo_venue a)) = Some la \<and>
    bo_amount a \<le> lf_value (boli_available_liquidity (bo_live_inputs a)) \<and>
    (case rs_borrow_cap (lf_value (boli_reserve_state (bo_live_inputs a))) of
       Some c \<Rightarrow> saturating_add_u (rs_total_borrow (lf_value (boli_reserve_state (bo_live_inputs a)))) (bo_amount a) \<le> c
     | None \<Rightarrow> True) \<and>
    borrow_health rd a la = Ok hf \<and> dec_val rd val hf = Some h \<and> 1 \<le> h \<and>
    apply_delta cd w d = Ok w' \<and>
    account_of w' (lending_position_id (bo_venue a)) = Some (merge_debt (bo_asset a) (bo_amount a) (bo_rate_mode a) la) \<and>
    (\<forall>k. capped_balance w' k = map_option (\<lambda>x. min (x + total_of k [(bo_asset a, bo_amount a)]) i256_max) (capped_balance w k))"
proof -
  let ?pid = "lending_position_id (bo_venue a)" and ?f = "merge_debt (bo_asset a) (bo_amount a) (bo_rate_mode a)"
  obtain la hf e n where parts: "borrow_checks a = Ok ()" "account_of w ?pid = Some la"
    "upsert_lending_account cd w delta_new ?pid (on_lending ?f) = Ok e" "borrow_health rd a la = Ok hf"
    "rd_from_str rd (decimal_str hf) = Some n" "\<not> rd_less rd n (rd_from_u32 rd 1)"
    "credit w e (ref_key (bo_asset a)) (bo_amount a) = Ok d"
    using assms(1) by (rule borrow_parts)
  from builds_upsert [OF builds_new _ parts(3) assms(3)] parts(2) obtain w1 where w1: "builds cd w e w1"
    "ws_tokens w1 = ws_tokens w" "account_of w1 ?pid = Some (?f la)"
    by auto
  from credits.op_step_balances [OF w1(1) parts(7)] obtain w' where w': "builds cd w d w'"
    "\<forall>k. capped_balance w' k = map_option (\<lambda>x. credits.flow k x [(bo_asset a, bo_amount a)]) (capped_balance w1 k)"
    by blast
  have "capped_balance w1 = capped_balance w"
    using same_tokens_balance [OF w1(2)] by (simp add: capped_balance_def fun_eq_iff)
  then have bal: "capped_balance w' k =
      map_option (\<lambda>x. min (x + total_of k [(bo_asset a, bo_amount a)]) i256_max) (capped_balance w k)" for k
    using w'(2) capped_range [of w k] by (cases "capped_balance w k") (simp_all add: credits_flow)
  have "ws_positions w' = ws_positions w1"
    using builds_same_positions [OF w1(1) w'(1)] credit_positions [OF parts(7)] by simp
  then have acc: "account_of w' ?pid = Some (?f la)"
    using w1(3) by (simp add: account_of_def find_id_def)
  have hf: "dec_val rd val hf = Some (val n)" "1 \<le> val n"
    using parts(5,6) ordered_decimal_laws [OF assms(2)] by (simp_all add: dec_val_def)
  have lim: "bo_amount a \<le> lf_value (boli_available_liquidity (bo_live_inputs a))"
    "case rs_borrow_cap (lf_value (boli_reserve_state (bo_live_inputs a))) of
       Some c \<Rightarrow> saturating_add_u (rs_total_borrow (lf_value (boli_reserve_state (bo_live_inputs a)))) (bo_amount a) \<le> c
     | None \<Rightarrow> True"
    using parts(1) by (auto simp: borrow_checks_def Let_def not_less split: if_splits option.splits)
  show ?thesis
    using parts(2,4) lim hf w'(1) acc bal unfolding builds_def by blast
qed

text \<open>An account with 100 USDC of collateral and stable and variable debt, for the witnesses.\<close>

definition sample_account :: lending_account where
  "sample_account =
     \<lparr>la_market = \<lparr>mr_symbol = ''aave_v3'', mr_venue = \<lparr>vr_name = ''aave_v3'', vr_chain = None\<rparr>\<rparr>,
      la_collaterals = [(TokenRef usdc_key, 100)],
      la_debts = [(TokenRef eth_key, 4, StableRate), (TokenRef usdc_key, 10, StableRate), (TokenRef usdc_key, 6, VariableRate)],
      la_emode = None, la_is_isolated = False,
      la_health_factor = now_field (Decimal ''5''), la_ltv = now_field (Decimal ''0''),
      la_liquidation_threshold = now_field (Decimal ''1'')\<rparr>"

definition account_position :: "lending_account \<Rightarrow> position" where
  "account_position la =
     \<lparr>pos_id = lending_position_id sample_venue, pos_protocol = protocol_ref_new ''aave_v3'', pos_chain = None,
      pos_kind = LendingAccount la, pos_primitives_synced_at = Time 0, pos_primitives_source = UserSupplied\<rparr>"

definition lending_wallet :: wallet_state where
  "lending_wallet = sample_wallet\<lparr>ws_positions := [account_position sample_account]\<rparr>"

definition sample_borrow :: borrow_action where
  "sample_borrow =
     \<lparr>bo_venue = sample_venue, bo_asset = TokenRef usdc_key, bo_amount = 30, bo_rate_mode = VariableRate,
      bo_on_behalf_of = None,
      bo_live_inputs = \<lparr>boli_reserve_state = now_field sample_reserve, boli_user_state_before = now_field sample_user,
        boli_asset_price_usd = now_field (Decimal ''1''), boli_current_borrow_rate = now_field (Decimal ''0''),
        boli_available_liquidity = now_field 500000\<rparr>\<rparr>"

definition sample_swap_mode :: swap_rate_mode_action where
  "sample_swap_mode =
     \<lparr>sr_venue = sample_venue, sr_asset = TokenRef usdc_key, sr_new_mode = VariableRate,
      sr_current_debts = now_field (10, 6), sr_rates = now_field (Decimal ''0'', Decimal ''0'')\<rparr>"

lemma sample_borrow_sel:
  "bo_venue sample_borrow = sample_venue" "bo_asset sample_borrow = TokenRef usdc_key" "bo_amount sample_borrow = 30"
  "bo_rate_mode sample_borrow = VariableRate" "sr_venue sample_swap_mode = sample_venue"
  "sr_asset sample_swap_mode = TokenRef usdc_key" "sr_new_mode sample_swap_mode = VariableRate"
  by (simp_all add: sample_borrow_def sample_swap_mode_def)

lemma lending_wallet_facts:
  "find_id (lending_position_id sample_venue) lending_wallet = Some (account_position sample_account)"
  "ws_positions lending_wallet = [account_position sample_account]" "balance_of lending_wallet = balance_of sample_wallet"
  "pos_kind (account_position la) = LendingAccount la" "account_of lending_wallet (lending_position_id sample_venue) = Some sample_account"
  "on_lending f (account_position la) = account_position (f la)" "account_wf sample_account"
  by (simp_all add: lending_wallet_def find_id_def account_position_def balance_of_def fun_eq_iff account_of_def on_lending_def
      account_wf_def sample_account_def usdc_key_def eth_key_def)

lemma sample_borrow_Ok: "\<exists>d. apply_borrow int_decimal cd sample_borrow lending_wallet ctx = Ok d"
proof -
  have "borrow_checks sample_borrow = Ok ()"
    by code_simp
  moreover have "borrow_health int_decimal sample_borrow sample_account = Ok (Decimal ''2'')"
    by code_simp
  moreover have "hf_is_safe int_decimal (Decimal ''2'') = Ok True"
    by code_simp
  moreover obtain e where "upsert_lending_account cd lending_wallet delta_new (lending_position_id sample_venue)
      (on_lending (merge_debt (TokenRef usdc_key) 30 VariableRate)) = Ok e"
    using upsert_lending_Ok [OF delta_new_sel(2)] lending_wallet_facts by metis
  moreover have "\<exists>d. credit lending_wallet e usdc_key 30 = Ok d" for e
    using credit_accepts [of lending_wallet usdc_key 1000 e 30] by (simp add: lending_wallet_facts sample_balance)
  ultimately show ?thesis
    using lending_wallet_facts(1,4) by (simp add: apply_borrow_def sample_borrow_sel Let_def lending_position_exists_new
        ok_or_def flip: find_id_def)
qed

theorem borrow_exact_witness:
  "\<exists>cd d w' hf h. apply_borrow int_decimal cd sample_borrow lending_wallet sample_ctx = Ok d \<and>
     borrow_health int_decimal sample_borrow sample_account = Ok hf \<and>
     dec_val int_decimal of_int hf = Some h \<and> 1 \<le> h \<and> apply_delta cd lending_wallet d = Ok w' \<and>
     capped_balance w' usdc_key = Some 1030"
proof -
  let ?f = "merge_debt (TokenRef usdc_key) 30 VariableRate"
  let ?cd = "fixed_codec (account_position (?f sample_account))"
  obtain d where d: "apply_borrow int_decimal ?cd sample_borrow lending_wallet sample_ctx = Ok d"
    using sample_borrow_Ok by blast
  have bal: "map_option (\<lambda>x. min (x + total_of usdc_key [(TokenRef usdc_key, 30)]) i256_max)
      (capped_balance lending_wallet usdc_key) = Some 1030"
    by (simp add: capped_balance_def lending_wallet_facts sample_balance cap_def i256_max_def total_of_def)
  have "codec_keeps ?cd lending_wallet (merge_debt (bo_asset sample_borrow) (bo_amount sample_borrow) (bo_rate_mode sample_borrow))"
    by (simp add: lending_wallet_facts sample_borrow_sel)
  from borrow_exact [OF d int_decimal_ordered this] obtain hf h w' where
    "borrow_health int_decimal sample_borrow sample_account = Ok hf" "dec_val int_decimal of_int hf = Some h" "1 \<le> h"
    "apply_delta ?cd lending_wallet d = Ok w'" "capped_balance w' usdc_key =
      map_option (\<lambda>x. min (x + total_of usdc_key [(TokenRef usdc_key, 30)]) i256_max) (capped_balance lending_wallet usdc_key)"
    unfolding sample_borrow_sel lending_wallet_facts(5) by blast
  with d bal show ?thesis
    by metis
qed

text \<open>
  C16. Changing the rate mode of a debt moves it and loses none of it: on a well-formed account whose two debts in
  the asset fit an integer, the delta applies, the debt in the old mode becomes zero, the debt in the new
  mode becomes their sum, and no other debt, no collateral and no token holding changes.
\<close>

theorem swap_rate_mode_conserves:
  assumes "apply_swap_rate_mode cd a w ctx = Ok d"
    and "account_of w (lending_position_id (sr_venue a)) = Some la" and "account_wf la"
    and "old = debts.held (sr_asset a, other_mode (sr_new_mode a)) (la_debts la)"
    and "unat (debts.held (sr_asset a, sr_new_mode a) (la_debts la)) + unat old < 2 ^ 256"
    and "codec_keeps cd w (moved_debt a old)"
  shows "\<exists>w' la'. apply_delta cd w d = Ok w' \<and> account_of w' (lending_position_id (sr_venue a)) = Some la' \<and>
    ws_tokens w' = ws_tokens w \<and> la_collaterals la' = la_collaterals la \<and>
    (\<forall>k. debts.held k (la_debts la') =
      (if k = (sr_asset a, sr_new_mode a) then debts.held k (la_debts la) + old
       else if k = (sr_asset a, other_mode (sr_new_mode a)) then 0
       else debts.held k (la_debts la)))"
proof -
  obtain la1 amount where parts: "account_of w (lending_position_id (sr_venue a)) = Some la1"
    "amount = debts.held (sr_asset a, other_mode (sr_new_mode a)) (la_debts la1)"
    "\<exists>x\<in>set (la_debts la1). debt_key x = (sr_asset a, other_mode (sr_new_mode a))"
    "upsert_lending_account cd w delta_new (lending_position_id (sr_venue a)) (on_lending (moved_debt a amount)) = Ok d"
    using assms(1) by (rule swap_rate_mode_parts)
  then have same: "la1 = la" "amount = old"
    using assms(2,4) by simp_all
  from parts(4) have "upsert_lending_account cd w delta_new (lending_position_id (sr_venue a)) (on_lending (moved_debt a old)) = Ok d"
    by (simp only: same)
  from builds_upsert [OF builds_new delta_new_sel(2) this assms(6)] assms(2) obtain w' where w': "builds cd w d w'"
    "ws_tokens w' = ws_tokens w" "account_of w' (lending_position_id (sr_venue a)) = Some (moved_debt a old la)"
    by (metis option.inject)
  have "saturating_add_u (debts.held (sr_asset a, sr_new_mode a) (la_debts la)) old =
      debts.held (sr_asset a, sr_new_mode a) (la_debts la) + old"
    using assms(5) by (simp add: saturating_add_u_def)
  then have "debts.held k (la_debts (moved_debt a old la)) =
      (if k = (sr_asset a, sr_new_mode a) then debts.held k (la_debts la) + old
       else if k = (sr_asset a, other_mode (sr_new_mode a)) then 0 else debts.held k (la_debts la))" for k
    using moved_debt_held(1) [OF assms(3) _ assms(4), of k] parts(3) same by simp
  moreover have "la_collaterals (moved_debt a old la) = la_collaterals la"
    using moved_debt_held(2) [OF assms(3) _ assms(4)] parts(3) same by simp
  ultimately show ?thesis
    using w' by (auto simp: builds_def)
qed

theorem swap_rate_mode_conserves_witness:
  "\<exists>cd d w' la'. apply_swap_rate_mode cd sample_swap_mode lending_wallet sample_ctx = Ok d \<and>
     apply_delta cd lending_wallet d = Ok w' \<and> account_of w' (lending_position_id sample_venue) = Some la' \<and>
     debts.held (TokenRef usdc_key, VariableRate) (la_debts la') = 16 \<and> debts.held (TokenRef usdc_key, StableRate) (la_debts la') = 0"
proof -
  let ?f = "moved_debt sample_swap_mode 10"
  let ?cd = "fixed_codec (account_position (?f sample_account))" and ?pid = "lending_position_id sample_venue"
  have old: "debts.held (TokenRef usdc_key, StableRate) (la_debts sample_account) = 10"
    "debts.held (TokenRef usdc_key, VariableRate) (la_debts sample_account) = 6"
    by (simp_all add: debts.held_def sample_account_def usdc_key_def eth_key_def)
  have m: "other_mode VariableRate = StableRate"
    by (simp add: other_mode_def)
  obtain d where up: "upsert_lending_account ?cd lending_wallet delta_new ?pid (on_lending ?f) = Ok d"
    using upsert_lending_Ok [OF delta_new_sel(2)] lending_wallet_facts by metis
  have "List.find (\<lambda>(t, _, r). t = TokenRef usdc_key \<and> r = StableRate) (la_debts sample_account) =
      Some (TokenRef usdc_key, 10, StableRate)"
    by (simp add: sample_account_def usdc_key_def eth_key_def)
  moreover have "lending_account_at lending_wallet ?pid ''swap_rate_mode'' = Ok sample_account"
    using lending_wallet_facts(1,4) by (simp add: lending_account_at_def ok_or_def flip: find_id_def)
  ultimately have d: "apply_swap_rate_mode ?cd sample_swap_mode lending_wallet sample_ctx = Ok d"
    using up lending_wallet_facts(1) by (simp add: apply_swap_rate_mode_def sample_borrow_sel Let_def m ok_or_def
        lending_position_exists_new sample_venue_def)
  have "codec_keeps ?cd lending_wallet (moved_debt sample_swap_mode 10)"
    by (simp add: lending_wallet_facts)
  with swap_rate_mode_conserves [OF d, of sample_account 10] lending_wallet_facts(5,7) old m obtain w' la' where
    "apply_delta ?cd lending_wallet d = Ok w'" "account_of w' ?pid = Some la'"
    "\<forall>k. debts.held k (la_debts la') = (if k = (TokenRef usdc_key, VariableRate) then debts.held k (la_debts sample_account) + 10
       else if k = (TokenRef usdc_key, StableRate) then 0 else debts.held k (la_debts sample_account))"
    unfolding sample_borrow_sel by auto
  with d show ?thesis
    by (intro exI [of _ ?cd] exI [of _ d] exI [of _ w'] exI [of _ la']) (simp add: old)
qed

text \<open>
  C17. Every accepted lending action stores only well-formed accounts: when the positions of the wallet have
  distinct collateral tokens and distinct debts per token and rate mode, so has every position the
  delta opens, and every update is the snapshot, under its own id, of a position that has.
\<close>

theorem lending_keeps_wf:
  assumes "apply_lending_action rd ip cd a w ctx = Ok d" and "list_all lending_position_wf (ws_positions w)"
  shows "list_all (stores_wf cd) (position_changes d)"
proof (cases a)
  case (DelegateBorrow x)
  with assms(1) show ?thesis
    by (auto simp: apply_delegate_borrow_def split: if_splits)
next
  case (Liquidate x)
  with assms(1) show ?thesis
    by (auto simp: apply_liquidate_def bind_result_eq_Ok Let_def dest!: debit_positions credit_positions split: if_splits)
qed (use assms in \<open>auto simp: apply_buy_collateral_def apply_set_authorization_def apply_periphery_operation_def
      intro: supply_stores_wf withdraw_stores_wf borrow_stores_wf repay_stores_wf settings_store_wf\<close>)

theorem lending_keeps_wf_witness:
  "\<exists>d. apply_lending_action int_decimal dec_parsers sample_codec (Borrow sample_borrow) lending_wallet sample_ctx = Ok d \<and>
     list_all (stores_wf sample_codec) (position_changes d)"
proof -
  obtain d where d: "apply_lending_action int_decimal dec_parsers sample_codec (Borrow sample_borrow) lending_wallet sample_ctx = Ok d"
    using sample_borrow_Ok by fastforce
  moreover have "list_all lending_position_wf (ws_positions lending_wallet)"
    by (simp add: lending_wallet_facts lending_position_wf_def)
  ultimately show ?thesis
    using lending_keeps_wf [OF d] by blast
qed

end
