(* ===== verification/Airdrop_Effect.thy ===== *)
theory Airdrop_Effect
  imports Position_Flow
begin

text \<open>
  Airdrop reducers (\<open>asset-model/action/src/airdrop\<close> and \<open>transition/src/effect/airdrop.rs\<close>): claiming from a
  distributor credits the live amount and opens an audit position; delegating voting power changes nothing.
\<close>

section \<open>Actions\<close>

datatype claim_target =
    MerkleDistributor chain_id address u64
  | SignatureDistributor chain_id address
  | StakingClaim chain_id address

record claim_donation =
  cdn_amount :: u256
  cdn_token :: token_ref
  cdn_claim_amount :: u256

record claim_airdrop_live_inputs =
  cali_is_still_claimable :: "bool live_field"
  cali_actual_amount :: "u256 live_field"
  cali_claim_token :: "token_ref live_field"
  cali_claim_window :: "(time \<times> time) option live_field"

record claim_airdrop_action =
  ca_source :: protocol_ref
  ca_claim_target :: claim_target
  ca_recipient :: address
  ca_proof :: "merkle_proof option"
  ca_sig :: "string option"
  ca_donation :: "claim_donation option"
  ca_live_inputs :: claim_airdrop_live_inputs

datatype governance_power_type = VotingAndProposition | Voting | Proposition

record delegate_live_inputs =
  dgli_current_delegate :: "address option live_field"
  dgli_voting_power :: "u256 live_field"

record delegate_governance_action =
  dg_token :: token_ref
  dg_delegatee :: address
  dg_power_type :: governance_power_type
  dg_live_inputs :: delegate_live_inputs

datatype airdrop_action = Claim claim_airdrop_action | Delegate delegate_governance_action

fun airdrop_action_tag :: "airdrop_action \<Rightarrow> string" where
  "airdrop_action_tag (Claim _) = ''claim''"
| "airdrop_action_tag (Delegate _) = ''delegate''"

definition airdrop_venue_name :: "airdrop_action \<Rightarrow> string option" where
  "airdrop_venue_name a = None"

section \<open>Reducers\<close>

definition validate_claim_target :: "claim_airdrop_action \<Rightarrow> unit reducer_result" where
  "validate_claim_target action =
     (case ca_claim_target action of
        MerkleDistributor _ _ _ \<Rightarrow>
          if ca_proof action = None then Err (MissingField ''ClaimAirdropAction.proof for MerkleDistributor'') else Ok ()
      | SignatureDistributor _ _ \<Rightarrow>
          if ca_sig action = None then Err (MissingField ''ClaimAirdropAction.sig for SignatureDistributor'') else Ok ()
      | StakingClaim _ _ \<Rightarrow> Ok ())"

definition airdrop_position_id :: "claim_airdrop_action \<Rightarrow> string" where
  "airdrop_position_id action = ''airdrop:'' @ pr_name (ca_source action) @ '':'' @ hex_address (ca_recipient action)"

text \<open>The window of a claim holds the time, both ends included.\<close>

definition check_claim_window :: "claim_airdrop_action \<Rightarrow> eval_context \<Rightarrow> unit reducer_result" where
  "check_claim_window a ctx =
     (case lf_value (cali_claim_window (ca_live_inputs a)) of
        Some (start, end_time) \<Rightarrow>
          if as_unix (ec_now ctx) < as_unix start \<or> as_unix (ec_now ctx) > as_unix end_time then
            Err (Invariant (Text (''airdrop claim from '' @ pr_name (ca_source a) @ '' is outside its valid window ('' @
              dec_word (as_unix start) @ ''..='' @ dec_word (as_unix end_time) @ '')'')))
          else Ok ()
      | None \<Rightarrow> Ok ())"

definition claimed_position :: "claim_airdrop_action \<Rightarrow> eval_context \<Rightarrow> position" where
  "claimed_position a ctx =
     (let claim_token = lf_value (cali_claim_token (ca_live_inputs a)) in
      \<lparr>pos_id = airdrop_position_id a, pos_protocol = ca_source a, pos_chain = Some (tk_chain (ref_key claim_token)),
       pos_kind = AirdropClaim
         \<lparr>ac_source = ca_source a, ac_claimable = claim_token,
          ac_amount = lf_value (cali_actual_amount (ca_live_inputs a)), ac_proof = ca_proof a,
          ac_claim_window = lf_value (cali_claim_window (ca_live_inputs a)), ac_status = Claimed\<rparr>,
       pos_primitives_synced_at = ec_now ctx, pos_primitives_source = UserSupplied\<rparr>)"

definition apply_claim_airdrop :: "claim_airdrop_action reducer" where
  "apply_claim_airdrop a w ctx =
     (if \<not> lf_value (cali_is_still_claimable (ca_live_inputs a)) then
        Err (Invariant (NameText ''airdrop claim from a source is no longer claimable'' (pr_name (ca_source a))))
      else
        bind_result (check_claim_window a ctx) (\<lambda>_.
        bind_result (validate_claim_target a) (\<lambda>_.
          let claim_amount = lf_value (cali_actual_amount (ca_live_inputs a));
              claim_token = lf_value (cali_claim_token (ca_live_inputs a)) in
          bind_result (credit w delta_new (ref_key claim_token) claim_amount) (\<lambda>d.
            Ok (push_position (PosOpen (claimed_position a ctx)) d)))))"

definition apply_delegate_governance :: "delegate_governance_action reducer" where
  "apply_delegate_governance a w ctx =
     (case ref_key (dg_token a) of
        TK_Erc20 _ _ \<Rightarrow> Ok delta_new
      | other \<Rightarrow> Err (Invariant (KeyText ''DelegateGovernanceAction.token must be Erc20'' other)))"

fun apply_airdrop_action :: "airdrop_action reducer" where
  "apply_airdrop_action (Claim a) w ctx = apply_claim_airdrop a w ctx"
| "apply_airdrop_action (Delegate a) w ctx = apply_delegate_governance a w ctx"

section \<open>Lemmas\<close>

abbreviation claimed_amount :: "claim_airdrop_action \<Rightarrow> u256" where
  "claimed_amount a \<equiv> lf_value (cali_actual_amount (ca_live_inputs a))"

abbreviation claimed_token :: "claim_airdrop_action \<Rightarrow> token_ref" where
  "claimed_token a \<equiv> lf_value (cali_claim_token (ca_live_inputs a))"

lemma claim_parts:
  assumes "apply_claim_airdrop a w ctx = Ok d"
  obtains e where "credit w delta_new (ref_key (claimed_token a)) (claimed_amount a) = Ok e"
    "d = push_position (PosOpen (claimed_position a ctx)) e"
    "lf_value (cali_is_still_claimable (ca_live_inputs a))" "check_claim_window a ctx = Ok ()" "validate_claim_target a = Ok ()"
  using assms by (auto simp: apply_claim_airdrop_def bind_result_eq_Ok Let_def split: if_splits)

lemma claim_again:
  assumes "apply_claim_airdrop a w ctx = Ok d" and "balance_of w' (ref_key (claimed_token a)) \<noteq> None"
  shows "\<exists>d'. apply_claim_airdrop a w' ctx = Ok d'"
  using assms(1)
proof (rule claim_parts)
  fix e
  obtain e' where "credit w' delta_new (ref_key (claimed_token a)) (claimed_amount a) = Ok e'"
    using assms(2) credit_accepts by blast
  moreover assume "lf_value (cali_is_still_claimable (ca_live_inputs a))" "check_claim_window a ctx = Ok ()"
    "validate_claim_target a = Ok ()"
  ultimately show ?thesis
    by (simp add: apply_claim_airdrop_def Let_def)
qed

lemma claim_applies:
  assumes "apply_claim_airdrop a w ctx = Ok d"
  shows "\<exists>w'. builds cd w d w' \<and> ws_positions w' = ws_positions w @ [claimed_position a ctx] \<and>
    (\<forall>k. capped_balance w' k =
      map_option (\<lambda>x. min (x + total_of k [(claimed_token a, claimed_amount a)]) i256_max) (capped_balance w k)) \<and>
    balance_of w' (ref_key (claimed_token a)) \<noteq> None"
  using assms
proof (rule claim_parts)
  fix e
  assume e: "credit w delta_new (ref_key (claimed_token a)) (claimed_amount a) = Ok e"
    and d: "d = push_position (PosOpen (claimed_position a ctx)) e"
  from credits.op_step [OF builds_new e, of cd] have some: "capped_balance w (ref_key (claimed_token a)) \<noteq> None"
    by auto
  from credits.op_step_balances [OF builds_new e, of cd] obtain v where v: "builds cd w e v"
    "\<forall>k. capped_balance v k = map_option (\<lambda>x. credits.flow k x [(claimed_token a, claimed_amount a)]) (capped_balance w k)"
    by blast
  have bal: "capped_balance v k =
      map_option (\<lambda>x. min (x + total_of k [(claimed_token a, claimed_amount a)]) i256_max) (capped_balance w k)" for k
    using v(2) capped_range [of w k] by (cases "capped_balance w k") (simp_all add: credits_flow)
  have pos: "ws_positions v = ws_positions w"
    using builds_positions [OF v(1)] credit_positions [OF e] by simp
  let ?w' = "v\<lparr>ws_positions := ws_positions w @ [claimed_position a ctx]\<rparr>"
  have "builds cd w d ?w'"
    unfolding d by (rule builds_push_position [OF v(1)]) (simp add: pos)
  moreover have "capped_balance ?w' = capped_balance v"
    using same_tokens_balance [of ?w' v] by (simp add: capped_balance_def fun_eq_iff)
  moreover have "balance_of ?w' (ref_key (claimed_token a)) \<noteq> None"
    using bal [of "ref_key (claimed_token a)"] some same_tokens_balance [of ?w' v] by (auto simp: capped_balance_def)
  ultimately show ?thesis
    using bal by (intro exI [of _ ?w']) simp
qed

lemma apply_airdrop_action_gasless: "apply_airdrop_action a w ctx = Ok d \<Longrightarrow> gas_paid d = None"
  by (cases a) (auto simp: apply_claim_airdrop_def apply_delegate_governance_def bind_result_eq_Ok Let_def
      dest!: credit_gas split: if_splits token_key.splits)

section \<open>Properties\<close>

text \<open>
  C25. An airdrop claim that is accepted credits exactly the live amount, capped at the largest signed value,
  of the claim token, opens the position that records it, and changes nothing else; but the claim is not
  one-shot: the same action on the resulting wallet is accepted and credits the amount again, and the two
  positions it leaves have the same id.
\<close>

theorem airdrop_claim_exact:
  assumes "apply_claim_airdrop a w ctx = Ok d"
  shows "\<exists>w' d' w''. apply_delta cd w d = Ok w' \<and> ws_positions w' = ws_positions w @ [claimed_position a ctx] \<and>
    (\<forall>k. capped_balance w' k =
      map_option (\<lambda>x. min (x + total_of k [(claimed_token a, claimed_amount a)]) i256_max) (capped_balance w k)) \<and>
    apply_claim_airdrop a w' ctx = Ok d' \<and> apply_delta cd w' d' = Ok w'' \<and>
    (\<forall>k. capped_balance w'' k =
      map_option (\<lambda>x. min (x + total_of k [(claimed_token a, claimed_amount a)]) i256_max) (capped_balance w' k)) \<and>
    \<not> distinct (map pos_id (ws_positions w''))"
proof -
  from claim_applies [OF assms, of cd] obtain w' where w': "builds cd w d w'"
    "ws_positions w' = ws_positions w @ [claimed_position a ctx]"
    "\<forall>k. capped_balance w' k =
      map_option (\<lambda>x. min (x + total_of k [(claimed_token a, claimed_amount a)]) i256_max) (capped_balance w k)"
    "balance_of w' (ref_key (claimed_token a)) \<noteq> None"
    by blast
  from claim_again [OF assms w'(4)] obtain d' where d': "apply_claim_airdrop a w' ctx = Ok d'" ..
  from claim_applies [OF this, of cd] obtain w'' where w'': "builds cd w' d' w''"
    "ws_positions w'' = ws_positions w' @ [claimed_position a ctx]"
    "\<forall>k. capped_balance w'' k =
      map_option (\<lambda>x. min (x + total_of k [(claimed_token a, claimed_amount a)]) i256_max) (capped_balance w' k)"
    by blast
  have "\<not> distinct (map pos_id (ws_positions w''))"
    by (simp add: w''(2) w'(2))
  then show ?thesis
    using w' d' w'' unfolding builds_def by blast
qed

definition sample_claim :: claim_airdrop_action where
  "sample_claim =
     \<lparr>ca_source = protocol_ref_new ''uni'', ca_claim_target = StakingClaim ethereum_mainnet 0xD0, ca_recipient = 0xC0,
      ca_proof = None, ca_sig = None, ca_donation = None,
      ca_live_inputs = \<lparr>cali_is_still_claimable = live_field_new True UserSupplied (Time 1),
        cali_actual_amount = live_field_new 40 UserSupplied (Time 1),
        cali_claim_token = live_field_new (TokenRef usdc_key) UserSupplied (Time 1),
        cali_claim_window = live_field_new (Some (Time 50, Time 150)) UserSupplied (Time 1)\<rparr>\<rparr>"

theorem airdrop_claim_exact_witness:
  "\<exists>d w'. apply_claim_airdrop sample_claim sample_wallet sample_ctx = Ok d \<and>
     apply_delta sample_codec sample_wallet d = Ok w' \<and> capped_balance w' usdc_key = Some 1040"
proof -
  have "is_ok (apply_claim_airdrop sample_claim sample_wallet sample_ctx)"
    by (simp add: apply_claim_airdrop_def sample_claim_def check_claim_window_def validate_claim_target_def live_field_new_def
        sample_ctx_def eval_context_new_def credit_def ok_or_def sample_wallet_def sample_holding_def is_ok_def Let_def)
  then obtain d where d: "apply_claim_airdrop sample_claim sample_wallet sample_ctx = Ok d"
    by (auto simp: is_ok_def split: sum.splits)
  have "map_option (\<lambda>x. min (x + total_of usdc_key [(claimed_token sample_claim, claimed_amount sample_claim)]) i256_max)
      (capped_balance sample_wallet usdc_key) = Some 1040"
    by (simp add: sample_claim_def live_field_new_def total_of_def capped_balance_def sample_balance cap_def i256_max_def)
  moreover obtain w' where "apply_delta sample_codec sample_wallet d = Ok w'" "capped_balance w' usdc_key =
      map_option (\<lambda>x. min (x + total_of usdc_key [(claimed_token sample_claim, claimed_amount sample_claim)]) i256_max)
        (capped_balance sample_wallet usdc_key)"
    using airdrop_claim_exact [OF d, of sample_codec] by blast
  ultimately show ?thesis
    using d by auto
qed

end
