(* ===== verification/Launchpad_Effect.thy ===== *)
theory Launchpad_Effect
  imports Position_Flow Entry_List
begin

text \<open>
  Launchpad reducers (\<open>asset-model/action/src/launchpad\<close> and \<open>transition/src/effect/launchpad.rs\<close>): a commit
  debits the pay token into an allocation position of the sale, which claims, refunds and withdrawals update or close.
\<close>

section \<open>Actions\<close>

record sale_state =
  ss_is_active :: bool
  ss_total_committed :: u256
  ss_hard_cap :: "u256 option"
  ss_soft_cap :: "u256 option"
  ss_sale_window :: "time \<times> time"
  ss_vest_schedule :: "vest_schedule option"

record commit_live_inputs =
  cmli_sale_state :: "sale_state live_field"
  cmli_user_cap :: "u256 live_field"
  cmli_user_committed :: "u256 live_field"
  cmli_expected_token_price :: "price option live_field"

record commit_action =
  cm_platform :: protocol_ref
  cm_sale_id :: string
  cm_pay_token :: token_ref
  cm_amount :: u256
  cm_recipient :: address
  cm_live_inputs :: commit_live_inputs

record claim_allocation_live_inputs =
  clli_allocated :: "(token_ref \<times> u256) live_field"
  clli_refund_due :: "u256 live_field"
  clli_is_claimable :: "bool live_field"

record claim_allocation_action =
  cl_platform :: protocol_ref
  cl_sale_id :: string
  cl_recipient :: address
  cl_live_inputs :: claim_allocation_live_inputs

record claim_vested_action =
  cv_position_id :: string
  cv_amount :: "u256 option"
  cv_claimable_now :: "u256 live_field"
  cv_next_unlock :: "(time \<times> u256) option live_field"

record refund_action =
  rf_platform :: protocol_ref
  rf_sale_id :: string
  rf_recipient :: address
  rf_refund_amount :: "u256 live_field"
  rf_refund_token :: "token_ref live_field"

record withdraw_commit_action =
  wc_platform :: protocol_ref
  wc_sale_id :: string
  wc_amount :: "u256 option"
  wc_withdrawable :: "u256 live_field"
  wc_sale_state :: "sale_state live_field"

datatype launchpad_action =
    CommitSale commit_action
  | ClaimAllocation claim_allocation_action
  | ClaimVested claim_vested_action
  | Refund refund_action
  | WithdrawCommit withdraw_commit_action

fun launchpad_action_tag :: "launchpad_action \<Rightarrow> string" where
  "launchpad_action_tag (CommitSale _) = ''commit''"
| "launchpad_action_tag (ClaimAllocation _) = ''claim_allocation''"
| "launchpad_action_tag (ClaimVested _) = ''claim_vested''"
| "launchpad_action_tag (Refund _) = ''refund''"
| "launchpad_action_tag (WithdrawCommit _) = ''withdraw_commit''"

definition launchpad_venue_name :: "launchpad_action \<Rightarrow> string option" where
  "launchpad_venue_name a = None"

section \<open>Helpers\<close>

definition launchpad_position_id :: "string \<Rightarrow> string \<Rightarrow> address \<Rightarrow> string" where
  "launchpad_position_id platform_name sale_id recipient =
     ''launchpad:'' @ platform_name @ '':'' @ sale_id @ '':'' @ hex_address recipient"

definition effective_launchpad_position :: "wallet_state \<Rightarrow> state_delta \<Rightarrow> string \<Rightarrow> position option" where
  "effective_launchpad_position w d i =
     (case scan_changes i (rev (position_changes d)) of
        Some r \<Rightarrow> r
      | None \<Rightarrow> List.find (\<lambda>p. pos_id p = i) (ws_positions w))"

definition push_position_update :: "position_codec \<Rightarrow> position \<Rightarrow> state_delta \<Rightarrow> state_delta" where
  "push_position_update cd new_position d =
     push_position (PosUpdate (pos_id new_position) (snapshot_patch cd new_position)) d"

definition not_allocation :: "string \<Rightarrow> reducer_error" where
  "not_allocation pid = Invariant (Text (''position '' @ pid @ '' exists but is not a LaunchpadAllocation''))"

section \<open>Commit\<close>

definition check_commit :: "commit_action \<Rightarrow> eval_context \<Rightarrow> unit reducer_result" where
  "check_commit a ctx =
     (let sale = lf_value (cmli_sale_state (cm_live_inputs a)) in
      if \<not> ss_is_active sale then
        Err (Invariant (Text (''launchpad commit rejected: sale '' @ cm_sale_id a @ '' is not active'')))
      else
        let (start, end_time) = ss_sale_window sale in
        if as_unix (ec_now ctx) < as_unix start \<or> as_unix (ec_now ctx) > as_unix end_time then
          Err (Invariant (Text (''launchpad commit on sale '' @ cm_sale_id a @ '' outside sale_window ('' @
            dec_word (as_unix start) @ ''..='' @ dec_word (as_unix end_time) @ '')'')))
        else
          let user_cap = lf_value (cmli_user_cap (cm_live_inputs a)) in
          bind_result (checked_add_or (''launchpad commit overflow on sale '' @ cm_sale_id a)
            (lf_value (cmli_user_committed (cm_live_inputs a))) (cm_amount a)) (\<lambda>new_user_total.
            if new_user_total > user_cap then
              Err (Invariant (Text (''launchpad commit on sale '' @ cm_sale_id a @ '' exceeds user cap ('' @
                dec_word new_user_total @ '' > '' @ dec_word user_cap @ '')'')))
            else
              (case ss_hard_cap sale of
                 Some hard \<Rightarrow>
                   bind_result (checked_add_or (''launchpad commit overflow on sale '' @ cm_sale_id a @ '' total_committed'')
                     (ss_total_committed sale) (cm_amount a)) (\<lambda>new_total.
                     if new_total > hard then
                       Err (Invariant (Text (''launchpad commit on sale '' @ cm_sale_id a @ '' exceeds hard cap ('' @
                         dec_word new_total @ '' > '' @ dec_word hard @ '')'')))
                     else Ok ())
               | None \<Rightarrow> Ok ())))"

definition add_paid :: "token_ref \<Rightarrow> u256 \<Rightarrow> (token_ref \<times> u256) list \<Rightarrow> (token_ref \<times> u256) list reducer_result" where
  "add_paid token amount paid =
     (case position_of (\<lambda>(t, _). t = token) paid of
        Some i \<Rightarrow>
          bind_result (checked_add_or ''paid sum overflow'' (snd (paid ! i)) amount) (\<lambda>s. Ok (paid[i := (fst (paid ! i), s)]))
      | None \<Rightarrow> Ok (paid @ [(token, amount)]))"

definition new_allocation :: "commit_action \<Rightarrow> eval_context \<Rightarrow> position" where
  "new_allocation a ctx =
     (let sale = lf_value (cmli_sale_state (cm_live_inputs a));
          default_vest = \<lparr>vs_start = ec_now ctx, vs_cliff = None, vs_end = Some (ec_now ctx), vs_curve = VestLinear, vs_total = 0\<rparr>;
          allocation = \<lparr>lp_platform = cm_platform a, lp_sale_id = cm_sale_id a, lp_paid = [(cm_pay_token a, cm_amount a)],
            lp_allocated = (cm_pay_token a, 0),
            lp_vest = (case ss_vest_schedule sale of Some v \<Rightarrow> v | None \<Rightarrow> default_vest),
            lp_claimed = 0, lp_claimable_now = 0\<rparr>
      in \<lparr>pos_id = launchpad_position_id (pr_name (cm_platform a)) (cm_sale_id a) (cm_recipient a),
          pos_protocol = cm_platform a, pos_chain = Some (tk_chain (ref_key (cm_pay_token a))),
          pos_kind = LaunchpadAllocation allocation, pos_primitives_synced_at = ec_now ctx,
          pos_primitives_source = UserSupplied\<rparr>)"

definition apply_commit :: "position_codec \<Rightarrow> commit_action reducer" where
  "apply_commit cd a w ctx =
     bind_result (check_commit a ctx) (\<lambda>_.
     bind_result (debit w delta_new (ref_key (cm_pay_token a)) (cm_amount a)) (\<lambda>d.
       let pid = launchpad_position_id (pr_name (cm_platform a)) (cm_sale_id a) (cm_recipient a) in
       case effective_launchpad_position w d pid of
         Some existing \<Rightarrow>
           (case pos_kind existing of
              LaunchpadAllocation alloc \<Rightarrow>
                bind_result (add_paid (cm_pay_token a) (cm_amount a) (lp_paid alloc)) (\<lambda>paid.
                  Ok (push_position_update cd (existing\<lparr>pos_kind := LaunchpadAllocation (alloc\<lparr>lp_paid := paid\<rparr>),
                    pos_primitives_synced_at := ec_now ctx\<rparr>) d))
            | _ \<Rightarrow> Err (not_allocation pid))
       | None \<Rightarrow> Ok (push_position (PosOpen (new_allocation a ctx)) d)))"

section \<open>Claims\<close>

definition has_vest_window :: "vest_schedule \<Rightarrow> bool" where
  "has_vest_window v \<longleftrightarrow> as_unix (vs_start v) < as_unix (case vs_end v of Some e \<Rightarrow> e | None \<Rightarrow> vs_start v)"

definition record_allocation :: "token_ref \<Rightarrow> u256 \<Rightarrow> launchpad_allocation \<Rightarrow> launchpad_allocation" where
  "record_allocation alloc_token alloc_amount alloc =
     (let alloc = alloc\<lparr>lp_allocated := (alloc_token, alloc_amount)\<rparr> in
      if has_vest_window (lp_vest alloc) then alloc\<lparr>lp_vest := (lp_vest alloc)\<lparr>vs_total := alloc_amount\<rparr>\<rparr>
      else alloc\<lparr>lp_claimed := alloc_amount, lp_claimable_now := 0\<rparr>)"

definition apply_claim_allocation :: "position_codec \<Rightarrow> claim_allocation_action reducer" where
  "apply_claim_allocation cd a w ctx =
     (if \<not> lf_value (clli_is_claimable (cl_live_inputs a)) then
        Err (Invariant (Text (''launchpad allocation on sale '' @ cl_sale_id a @ '' is not yet claimable'')))
      else
        let (alloc_token, alloc_amount) = lf_value (clli_allocated (cl_live_inputs a));
            refund_due = lf_value (clli_refund_due (cl_live_inputs a)) in
        bind_result (credit w delta_new (ref_key alloc_token) alloc_amount) (\<lambda>d.
          let pid = launchpad_position_id (pr_name (cl_platform a)) (cl_sale_id a) (cl_recipient a) in
          bind_result (ok_or (PositionNotFound pid) (effective_launchpad_position w d pid)) (\<lambda>existing.
            case pos_kind existing of
              LaunchpadAllocation alloc \<Rightarrow>
                bind_result
                  (if refund_due \<noteq> 0 then
                     (case lp_paid alloc of
                        (pay_token, _) # _ \<Rightarrow> credit w d (ref_key pay_token) refund_due
                      | [] \<Rightarrow> Err (Invariant (Text (''ClaimAllocation refund on '' @ pid @ '' but no paid entries''))))
                   else Ok d) (\<lambda>d.
                  Ok (push_position_update cd (existing\<lparr>pos_kind := LaunchpadAllocation (record_allocation alloc_token alloc_amount alloc),
                    pos_primitives_synced_at := ec_now ctx\<rparr>) d))
            | _ \<Rightarrow> Err (not_allocation pid))))"

definition apply_claim_vested :: "position_codec \<Rightarrow> claim_vested_action reducer" where
  "apply_claim_vested cd a w ctx =
     (let pid = cv_position_id a in
      bind_result (ok_or (PositionNotFound pid) (effective_launchpad_position w delta_new pid)) (\<lambda>existing.
        let claimable_now = lf_value (cv_claimable_now a);
            requested = (case cv_amount a of Some x \<Rightarrow> x | None \<Rightarrow> claimable_now) in
        if requested > claimable_now then
          Err (Invariant (Text (''ClaimVested on '' @ pid @ '' requests '' @ dec_word requested @ '' > claimable_now '' @
            dec_word claimable_now)))
        else if requested = 0 then Ok delta_new
        else
          (case pos_kind existing of
             LaunchpadAllocation alloc \<Rightarrow>
               bind_result (credit w delta_new (ref_key (fst (lp_allocated alloc))) requested) (\<lambda>d.
               bind_result (checked_add_or ''claimed overflow'' (lp_claimed alloc) requested) (\<lambda>claimed.
                 Ok (push_position_update cd (existing\<lparr>pos_kind := LaunchpadAllocation
                   (alloc\<lparr>lp_claimed := claimed, lp_claimable_now := saturating_sub_u claimable_now requested\<rparr>),
                   pos_primitives_synced_at := ec_now ctx\<rparr>) d)))
           | VestingSchedule schedule \<Rightarrow>
               bind_result (credit w delta_new (ref_key (vg_token schedule)) requested) (\<lambda>d.
               bind_result (checked_add_or ''claimed overflow'' (vg_claimed schedule) requested) (\<lambda>claimed.
                 Ok (push_position_update cd (existing\<lparr>pos_kind := VestingSchedule
                   (schedule\<lparr>vg_claimed := claimed, vg_claimable_now := saturating_sub_u (vg_claimable_now schedule) requested\<rparr>),
                   pos_primitives_synced_at := ec_now ctx\<rparr>) d)))
           | other \<Rightarrow> Err (Invariant (NotVesting pid other)))))"

section \<open>Refund and withdrawal\<close>

definition apply_refund :: "refund_action reducer" where
  "apply_refund a w ctx =
     (let refund_amount = lf_value (rf_refund_amount a); refund_token = lf_value (rf_refund_token a) in
      if refund_amount = 0 then
        Err (Invariant (Text (''RefundAction on sale '' @ rf_sale_id a @ '' has refund_amount = 0'')))
      else
        bind_result (credit w delta_new (ref_key refund_token) refund_amount) (\<lambda>d.
          let pid = launchpad_position_id (pr_name (rf_platform a)) (rf_sale_id a) (rf_recipient a) in
          if effective_launchpad_position w d pid \<noteq> None then Ok (push_position (PosClose pid) d) else Ok d))"

definition total_paid :: "(token_ref \<times> u256) list \<Rightarrow> u256" where
  "total_paid paid = foldl (\<lambda>acc x. case checked_add_u acc x of Some s \<Rightarrow> s | None \<Rightarrow> 0) 0 (map snd paid)"

definition apply_withdraw_commit :: "position_codec \<Rightarrow> withdraw_commit_action reducer" where
  "apply_withdraw_commit cd a w ctx =
     (if \<not> ss_is_active (lf_value (wc_sale_state a)) then
        Err (Invariant (Text (''WithdrawCommit on sale '' @ wc_sale_id a @ '' rejected: sale is no longer active'')))
      else
        let withdrawable = lf_value (wc_withdrawable a);
            requested = (case wc_amount a of Some x \<Rightarrow> x | None \<Rightarrow> withdrawable) in
        if requested = 0 then Err (Invariant (Text (''WithdrawCommit on sale '' @ wc_sale_id a @ '' requested zero'')))
        else if requested > withdrawable then
          Err (Invariant (Text (''WithdrawCommit on sale '' @ wc_sale_id a @ '': requested '' @ dec_word requested @
            '' > withdrawable '' @ dec_word withdrawable)))
        else
          let pid = launchpad_position_id (pr_name (wc_platform a)) (wc_sale_id a) (wid_address (ws_wallet_id w)) in
          bind_result (ok_or (PositionNotFound pid) (effective_launchpad_position w delta_new pid)) (\<lambda>existing.
            case pos_kind existing of
              LaunchpadAllocation alloc \<Rightarrow>
                (case lp_paid alloc of
                   [] \<Rightarrow> Err (Invariant (Text (''WithdrawCommit on '' @ pid @ '' but position has no paid entries'')))
                 | (pay_token, first_amount) # rest \<Rightarrow>
                     bind_result (credit w delta_new (ref_key pay_token) requested) (\<lambda>d.
                       if requested \<ge> total_paid (lp_paid alloc) then Ok (push_position (PosClose pid) d)
                       else
                         Ok (push_position_update cd (existing\<lparr>pos_kind := LaunchpadAllocation
                           (alloc\<lparr>lp_paid := (pay_token, saturating_sub_u first_amount requested) # rest\<rparr>),
                           pos_primitives_synced_at := ec_now ctx\<rparr>) d)))
            | _ \<Rightarrow> Err (not_allocation pid)))"

fun apply_launchpad_action :: "position_codec \<Rightarrow> launchpad_action reducer" where
  "apply_launchpad_action cd (CommitSale a) w ctx = apply_commit cd a w ctx"
| "apply_launchpad_action cd (ClaimAllocation a) w ctx = apply_claim_allocation cd a w ctx"
| "apply_launchpad_action cd (ClaimVested a) w ctx = apply_claim_vested cd a w ctx"
| "apply_launchpad_action cd (Refund a) w ctx = apply_refund a w ctx"
| "apply_launchpad_action cd (WithdrawCommit a) w ctx = apply_withdraw_commit cd a w ctx"

section \<open>Lemmas\<close>

lemma push_position_update_gas [simp]: "gas_paid (push_position_update cd p d) = gas_paid d"
  by (simp add: push_position_update_def)

lemma effective_launchpad_new: "position_changes d = [] \<Longrightarrow> effective_launchpad_position w d i = find_id i w"
  by (simp add: effective_launchpad_position_def find_id_def)

abbreviation commit_id :: "commit_action \<Rightarrow> string" where
  "commit_id a \<equiv> launchpad_position_id (pr_name (cm_platform a)) (cm_sale_id a) (cm_recipient a)"

definition repaid :: "eval_context \<Rightarrow> launchpad_allocation \<Rightarrow> position \<Rightarrow> position" where
  "repaid ctx alloc p = p\<lparr>pos_kind := LaunchpadAllocation alloc, pos_primitives_synced_at := ec_now ctx\<rparr>"

lemma repaid_sel [simp]: "pos_id (repaid ctx alloc p) = pos_id p" "pos_kind (repaid ctx alloc p) = LaunchpadAllocation alloc"
  by (simp_all add: repaid_def)

lemma commit_parts:
  assumes "apply_commit cd a w ctx = Ok d"
  obtains e where "check_commit a ctx = Ok ()" "debit w delta_new (ref_key (cm_pay_token a)) (cm_amount a) = Ok e"
    "position_changes e = []" "find_id (commit_id a) w = None" "d = push_position (PosOpen (new_allocation a ctx)) e"
  | e p alloc paid where "check_commit a ctx = Ok ()" "debit w delta_new (ref_key (cm_pay_token a)) (cm_amount a) = Ok e"
    "position_changes e = []" "find_id (commit_id a) w = Some p" "pos_kind p = LaunchpadAllocation alloc"
    "add_paid (cm_pay_token a) (cm_amount a) (lp_paid alloc) = Ok paid"
    "d = push_position_update cd (repaid ctx (alloc\<lparr>lp_paid := paid\<rparr>) p) e"
proof -
  from assms obtain e where e: "check_commit a ctx = Ok ()" "debit w delta_new (ref_key (cm_pay_token a)) (cm_amount a) = Ok e"
    by (auto simp: apply_commit_def bind_result_eq_Ok)
  have none: "position_changes e = []"
    using debit_positions [OF e(2)] by simp
  show thesis
  proof (cases "find_id (commit_id a) w")
    case None
    then show ?thesis
      using that(1) [OF e none None] assms e by (simp add: apply_commit_def effective_launchpad_new [OF none] Let_def)
  next
    case (Some p)
    then obtain alloc where "pos_kind p = LaunchpadAllocation alloc"
      using assms e by (cases "pos_kind p") (simp_all add: apply_commit_def effective_launchpad_new [OF none] Let_def)
    then show ?thesis
      using that(2) [OF e none Some] assms e Some
      by (auto simp: apply_commit_def effective_launchpad_new [OF none] Let_def bind_result_eq_Ok repaid_def)
  qed
qed

abbreviation claim_id :: "claim_allocation_action \<Rightarrow> string" where
  "claim_id a \<equiv> launchpad_position_id (pr_name (cl_platform a)) (cl_sale_id a) (cl_recipient a)"

lemma claim_allocation_parts:
  assumes "apply_claim_allocation cd a w ctx = Ok d" and "lf_value (clli_allocated (cl_live_inputs a)) = (t, amt)"
  obtains e e' p alloc where "credit w delta_new (ref_key t) amt = Ok e" "find_id (claim_id a) w = Some p"
    "pos_kind p = LaunchpadAllocation alloc"
    "if lf_value (clli_refund_due (cl_live_inputs a)) = 0 then e' = e
     else \<exists>pay. credit w e (ref_key pay) (lf_value (clli_refund_due (cl_live_inputs a))) = Ok e'"
    "d = push_position_update cd (repaid ctx (record_allocation t amt alloc) p) e'"
proof -
  from assms obtain e where e: "credit w delta_new (ref_key t) amt = Ok e"
    by (auto simp: apply_claim_allocation_def bind_result_eq_Ok Let_def split: if_splits)
  have none: "position_changes e = []"
    using credit_positions [OF e] by simp
  from assms e obtain p where p: "find_id (claim_id a) w = Some p"
    by (cases "find_id (claim_id a) w")
      (auto simp: apply_claim_allocation_def effective_launchpad_new [OF none] Let_def ok_or_def split: if_splits)
  obtain alloc where "pos_kind p = LaunchpadAllocation alloc"
    using assms e p by (cases "pos_kind p")
      (auto simp: apply_claim_allocation_def effective_launchpad_new [OF none] Let_def ok_or_def split: if_splits)
  then show thesis
    using that [OF e p] assms e p
    by (cases "lp_paid alloc")
      (auto simp: apply_claim_allocation_def effective_launchpad_new [OF none] Let_def ok_or_def bind_result_eq_Ok repaid_def
        split: if_splits)
qed

lemma apply_launchpad_action_gasless:
  assumes "apply_launchpad_action cd a w ctx = Ok d"
  shows "gas_paid d = None"
proof (cases a)
  case (CommitSale x)
  with assms have "apply_commit cd x w ctx = Ok d"
    by simp
  then show ?thesis
    by (rule commit_parts) (auto dest!: debit_gas)
next
  case (ClaimAllocation x)
  obtain t amt where alloc: "lf_value (clli_allocated (cl_live_inputs x)) = (t, amt)"
    by (cases "lf_value (clli_allocated (cl_live_inputs x))")
  have "apply_claim_allocation cd x w ctx = Ok d"
    using assms ClaimAllocation by simp
  then show ?thesis
    using alloc by (rule claim_allocation_parts) (auto dest!: credit_gas split: if_splits)
next
  case (ClaimVested x)
  then obtain p where "effective_launchpad_position w delta_new (cv_position_id x) = Some p"
    using assms by (auto simp: apply_claim_vested_def bind_result_eq_Ok Let_def ok_or_def split: option.splits)
  with ClaimVested assms show ?thesis
    by (cases "pos_kind p") (auto simp: apply_claim_vested_def bind_result_eq_Ok Let_def ok_or_def dest!: credit_gas split: if_splits)
next
  case (Refund x)
  with assms show ?thesis
    by (auto simp: apply_refund_def bind_result_eq_Ok Let_def dest!: credit_gas split: if_splits)
next
  case (WithdrawCommit x)
  let ?pid = "launchpad_position_id (pr_name (wc_platform x)) (wc_sale_id x) (wid_address (ws_wallet_id w))"
  obtain p where p: "effective_launchpad_position w delta_new ?pid = Some p"
    using assms WithdrawCommit
    by (auto simp: apply_withdraw_commit_def bind_result_eq_Ok Let_def ok_or_def split: option.splits if_splits)
  obtain alloc where "pos_kind p = LaunchpadAllocation alloc"
    using assms WithdrawCommit p
    by (cases "pos_kind p") (auto simp: apply_withdraw_commit_def Let_def ok_or_def split: if_splits)
  with WithdrawCommit assms p show ?thesis
    by (cases "lp_paid alloc")
      (auto simp: apply_withdraw_commit_def bind_result_eq_Ok Let_def ok_or_def dest!: credit_gas split: if_splits)
qed

section \<open>Payments\<close>

interpretation payments: entries fst snd "\<lambda>a e. (fst e, a)"
  by unfold_locales simp_all

definition paid_at :: "wallet_state \<Rightarrow> string \<Rightarrow> token_ref \<Rightarrow> u256" where
  "paid_at w pid t =
     (case find_id pid w of
        Some p \<Rightarrow> (case pos_kind p of LaunchpadAllocation alloc \<Rightarrow> payments.held t (lp_paid alloc) | _ \<Rightarrow> 0)
      | None \<Rightarrow> 0)"

text \<open>An accepted payment is merged as in the other entry lists, without saturating.\<close>

lemma add_paid_merge:
  assumes "add_paid t a paid = Ok paid'"
  shows "payments.held k paid' = payments.held k paid + (if k = t then a else 0)"
proof -
  have key: "(\<lambda>(u, _). u = t) = (\<lambda>x :: token_ref \<times> u256. fst x = t)"
    by auto
  have "paid' = merge_entry fst snd (\<lambda>a e. (fst e, a)) t (t, a) a paid \<and> saturating_add_u (payments.held t paid) a = payments.held t paid + a"
  proof (cases "position_of (\<lambda>x. fst x = t) paid")
    case None
    then have "payments.held t paid = 0"
      by (intro payments.held_absent) (simp add: position_of_None)
    with None assms show ?thesis
      by (simp add: add_paid_def key merge_entry_def)
  next
    case (Some i)
    from position_of_split [OF this] obtain us x vs where
      split: "paid = us @ x # vs" "length us = i" "fst x = t" "\<forall>u\<in>set us. fst u \<noteq> t"
      by blast
    then have "payments.held t paid = snd x"
      using payments.held_middle [of us x t vs] by simp
    moreover obtain s where s: "unat s = unat (snd x) + unat a" "paid' = paid[i := (fst x, s)]"
      using assms Some split by (auto simp: add_paid_def key bind_result_eq_Ok checked_simps)
    moreover have "unat (snd x) + unat a < 2 ^ 256"
      using unat_fits [of s] s(1) by simp
    then have "saturating_add_u (snd x) a = snd x + a"
      by (simp add: saturating_add_u_def)
    moreover have "s = snd x + a"
      using arg_cong [OF s(1), of "of_nat :: nat \<Rightarrow> u256"] by simp
    ultimately show ?thesis
      using Some split by (auto simp: merge_entry_def)
  qed
  then show ?thesis
    by (simp add: payments.held_merge)
qed

lemma check_commit_limits:
  assumes "check_commit a ctx = Ok ()"
  shows "as_unix (fst (ss_sale_window (lf_value (cmli_sale_state (cm_live_inputs a))))) \<le> as_unix (ec_now ctx)"
    "as_unix (ec_now ctx) \<le> as_unix (snd (ss_sale_window (lf_value (cmli_sale_state (cm_live_inputs a)))))"
    "unat (lf_value (cmli_user_committed (cm_live_inputs a))) + unat (cm_amount a) \<le> unat (lf_value (cmli_user_cap (cm_live_inputs a)))"
    "case ss_hard_cap (lf_value (cmli_sale_state (cm_live_inputs a))) of
       Some hard \<Rightarrow> unat (ss_total_committed (lf_value (cmli_sale_state (cm_live_inputs a)))) + unat (cm_amount a) \<le> unat hard
     | None \<Rightarrow> True"
  using assms by (auto simp: check_commit_def Let_def bind_result_eq_Ok checked_simps not_less word_le_nat_alt
      split: if_splits option.splits prod.splits)

lemma commit_debited:
  assumes "debit w delta_new (ref_key t) amt = Ok e"
  shows "\<exists>v. builds cd w e v \<and> (\<forall>k. capped_balance v k = map_option (\<lambda>x. x - total_of k [(t, amt)]) (capped_balance w k))"
  using debits.op_step_balances [OF builds_new assms] unfolding debits_flow by blast

lemma same_tokens_capped: "ws_tokens w' = ws_tokens v \<Longrightarrow> capped_balance w' = capped_balance v"
  using same_tokens_balance [of w' v] by (simp add: capped_balance_def fun_eq_iff)

section \<open>Properties\<close>

text \<open>
  C21. An accepted commit is inside the sale window, both ends included, keeps the committer within the user cap and
  the sale within its hard cap, takes exactly the committed amount from the pay token and from no other
  balance, and adds exactly that amount to what the position of the sale records as paid in that token.
\<close>

theorem commit_exact:
  assumes "apply_commit cd a w ctx = Ok d"
    and "\<forall>p\<in>set (ws_positions w). \<forall>alloc. codec_roundtrips cd (repaid ctx alloc p)"
  shows "\<exists>w'. as_unix (fst (ss_sale_window (lf_value (cmli_sale_state (cm_live_inputs a))))) \<le> as_unix (ec_now ctx) \<and>
    as_unix (ec_now ctx) \<le> as_unix (snd (ss_sale_window (lf_value (cmli_sale_state (cm_live_inputs a))))) \<and>
    unat (lf_value (cmli_user_committed (cm_live_inputs a))) + unat (cm_amount a) \<le> unat (lf_value (cmli_user_cap (cm_live_inputs a))) \<and>
    (case ss_hard_cap (lf_value (cmli_sale_state (cm_live_inputs a))) of
       Some hard \<Rightarrow> unat (ss_total_committed (lf_value (cmli_sale_state (cm_live_inputs a)))) + unat (cm_amount a) \<le> unat hard
     | None \<Rightarrow> True) \<and>
    apply_delta cd w d = Ok w' \<and>
    (\<forall>k. capped_balance w' k = map_option (\<lambda>x. x - total_of k [(cm_pay_token a, cm_amount a)]) (capped_balance w k)) \<and>
    (\<forall>t. paid_at w' (commit_id a) t = paid_at w (commit_id a) t + (if t = cm_pay_token a then cm_amount a else 0))"
proof -
  let ?pid = "commit_id a"
  from assms(1) show ?thesis
  proof (cases rule: commit_parts)
    case (1 e)
    from commit_debited [OF 1(2), of cd] obtain v where v: "builds cd w e v"
      "\<forall>k. capped_balance v k = map_option (\<lambda>x. x - total_of k [(cm_pay_token a, cm_amount a)]) (capped_balance w k)"
      by blast
    let ?w' = "v\<lparr>ws_positions := ws_positions w @ [new_allocation a ctx]\<rparr>"
    have "ws_positions v = ws_positions w"
      using builds_positions [OF v(1)] 1(3) by simp
    then have "builds cd w d ?w'"
      unfolding 1(5) by (intro builds_push_position [OF v(1)]) simp
    moreover have "paid_at ?w' ?pid t = paid_at w ?pid t + (if t = cm_pay_token a then cm_amount a else 0)" for t
      using 1(4) by (auto simp: paid_at_def find_id_def find_append new_allocation_def Let_def payments.held_def)
    ultimately show ?thesis
      using check_commit_limits [OF 1(1)] v(2) same_tokens_capped [of ?w' v] by (intro exI [of _ ?w']) (simp add: builds_def)
  next
    case (2 e p alloc paid)
    from commit_debited [OF 2(2), of cd] obtain v where v: "builds cd w e v"
      "\<forall>k. capped_balance v k = map_option (\<lambda>x. x - total_of k [(cm_pay_token a, cm_amount a)]) (capped_balance w k)"
      by blast
    let ?p = "repaid ctx (alloc\<lparr>lp_paid := paid\<rparr>) p"
    have "pos_id p = ?pid \<and> p \<in> set (ws_positions w)"
      using 2(4) by (auto elim: find_id_split)
    then have p: "pos_id ?p = ?pid" "codec_roundtrips cd ?p" "find_id (pos_id ?p) w = Some p"
      using 2(4) assms(2) by simp_all
    from builds_snapshot [OF v(1) 2(3) p(3,2)] obtain w' where w': "builds cd w d w'"
      "ws_tokens w' = ws_tokens v" "ws_positions w' = put_position ?p w"
      using 2(7) p(1) by (auto simp: push_position_update_def)
    have "find_id ?pid w' = Some ?p"
      using find_put_position(1) [OF p(3), of ?pid] w'(3) p(1) by (simp add: find_id_def)
    then have "paid_at w' ?pid t = paid_at w ?pid t + (if t = cm_pay_token a then cm_amount a else 0)" for t
      using 2(4,5) add_paid_merge [OF 2(6), of t] by (simp add: paid_at_def)
    then show ?thesis
      using check_commit_limits [OF 2(1)] v(2) same_tokens_capped [OF w'(2)] w'(1) by (intro exI [of _ w']) (simp add: builds_def)
  qed
qed

definition sample_sale :: sale_state where
  "sample_sale = \<lparr>ss_is_active = True, ss_total_committed = 5000, ss_hard_cap = Some 10000, ss_soft_cap = None,
     ss_sale_window = (Time 50, Time 150), ss_vest_schedule = None\<rparr>"

definition sample_commit :: commit_action where
  "sample_commit =
     \<lparr>cm_platform = protocol_ref_new ''echo'', cm_sale_id = ''s1'', cm_pay_token = TokenRef usdc_key, cm_amount = 300,
      cm_recipient = 0xC0,
      cm_live_inputs = \<lparr>cmli_sale_state = live_field_new sample_sale UserSupplied (Time 1),
        cmli_user_cap = live_field_new 500 UserSupplied (Time 1), cmli_user_committed = live_field_new 200 UserSupplied (Time 1),
        cmli_expected_token_price = live_field_new None UserSupplied (Time 1)\<rparr>\<rparr>"

theorem commit_exact_witness:
  "\<exists>d w'. apply_commit sample_codec sample_commit sample_wallet sample_ctx = Ok d \<and>
     apply_delta sample_codec sample_wallet d = Ok w' \<and> capped_balance w' usdc_key = Some 700 \<and>
     paid_at w' (commit_id sample_commit) (TokenRef usdc_key) = 300"
proof -
  have ps: "ws_positions sample_wallet = []"
    by (simp add: sample_wallet_def wallet_new_def)
  then have none: "find_id i sample_wallet = None" for i
    by (simp add: find_id_def)
  have sel: "cm_pay_token sample_commit = TokenRef usdc_key" "cm_amount sample_commit = 300"
    by (simp_all add: sample_commit_def)
  have "check_commit sample_commit sample_ctx = Ok ()"
    by code_simp
  moreover have "is_ok (debit sample_wallet delta_new usdc_key 300)"
    by code_simp
  then obtain e where e: "debit sample_wallet delta_new usdc_key 300 = Ok e"
    by (auto simp: is_ok_def split: sum.splits)
  moreover have "position_changes e = []"
    using debit_positions [OF e] by simp
  ultimately have "apply_commit sample_codec sample_commit sample_wallet sample_ctx =
      Ok (push_position (PosOpen (new_allocation sample_commit sample_ctx)) e)" (is "_ = Ok ?d")
    by (simp add: apply_commit_def sel effective_launchpad_new none)
  moreover from commit_exact [OF this] ps obtain w' where "apply_delta sample_codec sample_wallet ?d = Ok w'"
    "capped_balance w' usdc_key = map_option (\<lambda>x. x - total_of usdc_key [(TokenRef usdc_key, 300)]) (capped_balance sample_wallet usdc_key)"
    "paid_at w' (commit_id sample_commit) (TokenRef usdc_key) = paid_at sample_wallet (commit_id sample_commit) (TokenRef usdc_key) + 300"
    unfolding sel by auto
  moreover have "map_option (\<lambda>x. x - total_of usdc_key [(TokenRef usdc_key, 300)]) (capped_balance sample_wallet usdc_key) = Some 700"
    by (simp add: capped_balance_def sample_balance cap_def i256_max_def total_of_def)
  ultimately show ?thesis
    by (auto simp: paid_at_def none)
qed

text \<open>
  C24. Tokens under a vesting schedule are credited twice: when the allocation of a sale whose vesting window is not
  empty is claimed, the wallet is credited the whole allocation although the position records none of it
  as claimed, and a later claim of a vested part credits that part again, to the same token.
\<close>

theorem vested_credited_twice:
  assumes "apply_claim_allocation cd a w ctx = Ok d" and "lf_value (clli_allocated (cl_live_inputs a)) = (t, amt)"
    and "lf_value (clli_refund_due (cl_live_inputs a)) = 0"
    and "find_id (claim_id a) w = Some p" and "pos_kind p = LaunchpadAllocation alloc" and "has_vest_window (lp_vest alloc)"
    and "codec_roundtrips cd (repaid ctx (record_allocation t amt alloc) p)" and "apply_delta cd w d = Ok w1"
    and "apply_claim_vested cd b w1 ctx' = Ok e" and "cv_position_id b = claim_id a" and "cv_amount b = Some part" and "part \<noteq> 0"
    and "apply_delta cd w1 e = Ok w2"
  shows "\<exists>x alloc'. find_id (claim_id a) w1 = Some (repaid ctx alloc' p) \<and> lp_claimed alloc' = lp_claimed alloc \<and>
    capped_balance w (ref_key t) = Some x \<and>
    capped_balance w1 (ref_key t) = Some (min (x + cap amt) i256_max) \<and>
    capped_balance w2 (ref_key t) = Some (min (x + cap amt + cap part) i256_max)"
proof -
  let ?pid = "claim_id a" and ?alloc = "record_allocation t amt alloc"
  from assms(1,2) obtain c where c: "credit w delta_new (ref_key t) amt = Ok c"
    "d = push_position_update cd (repaid ctx ?alloc p) c"
    by (rule claim_allocation_parts) (use assms(3-5) in simp)
  have none: "position_changes c = []"
    using credit_positions [OF c(1)] by simp
  from credits.op_step [OF builds_new c(1), of cd] obtain v x where v: "builds cd w c v"
    "capped_balance w (ref_key t) = Some x" "capped_balance v (ref_key t) = Some (min (x + cap amt) i256_max)"
    by blast
  have "pos_id p = ?pid"
    using assms(4) by (auto elim: find_id_split)
  then have p: "pos_id (repaid ctx ?alloc p) = ?pid" "find_id (pos_id (repaid ctx ?alloc p)) w = Some p"
    using assms(4) by simp_all
  from builds_snapshot [OF v(1) none p(2) assms(7)] assms(8) have w1: "ws_tokens w1 = ws_tokens v"
    "ws_positions w1 = put_position (repaid ctx ?alloc p) w"
    using c(2) p(1) by (auto simp: builds_def push_position_update_def)
  have found: "find_id ?pid w1 = Some (repaid ctx ?alloc p)"
    using find_put_position(1) [OF p(2), of ?pid] w1(2) p(1) by (simp add: find_id_def)
  have bal1: "capped_balance w1 (ref_key t) = Some (min (x + cap amt) i256_max)"
    using v(3) same_tokens_balance [OF w1(1)] by (simp add: capped_balance_def)
  have sel: "fst (lp_allocated ?alloc) = t" "lp_claimed ?alloc = lp_claimed alloc"
    using assms(6) by (simp_all add: record_allocation_def Let_def)
  obtain q c' where c': "credit w1 delta_new (ref_key t) part = Ok c'" "e = push_position_update cd q c'"
    using assms(9-12) found sel(1)
    by (auto simp: apply_claim_vested_def effective_launchpad_new ok_or_def Let_def bind_result_eq_Ok split: if_splits)
  from credits.op_step [OF builds_new c'(1), of cd] bal1 obtain u where u: "builds cd w1 c' u"
    "capped_balance u (ref_key t) = Some (min (min (x + cap amt) i256_max + cap part) i256_max)"
    by auto
  from assms(13) c'(2) u(1) have "ws_tokens w2 = ws_tokens u"
    using apply_push_position [of c' cd w1 "PosUpdate (pos_id q) (snapshot_patch cd q)" w2]
    by (auto simp: builds_def push_position_update_def simp del: apply_position_change.simps dest: position_change_tokens)
  then have "capped_balance w2 (ref_key t) = Some (min (x + cap amt + cap part) i256_max)"
    using u(2) cap_bounds(1) [of part] same_tokens_balance [of w2 u] by (auto simp: capped_balance_def min_def)
  then show ?thesis
    using found sel(2) v(2) bal1 by blast
qed

definition vested_allocation :: launchpad_allocation where
  "vested_allocation =
     \<lparr>lp_platform = protocol_ref_new ''echo'', lp_sale_id = ''s1'', lp_paid = [(TokenRef usdc_key, 300)],
      lp_allocated = (TokenRef usdc_key, 0),
      lp_vest = \<lparr>vs_start = Time 10, vs_cliff = None, vs_end = Some (Time 1000), vs_curve = VestLinear, vs_total = 0\<rparr>,
      lp_claimed = 0, lp_claimable_now = 0\<rparr>"

definition sample_claim_allocation :: claim_allocation_action where
  "sample_claim_allocation =
     \<lparr>cl_platform = protocol_ref_new ''echo'', cl_sale_id = ''s1'', cl_recipient = 0xC0,
      cl_live_inputs = \<lparr>clli_allocated = live_field_new (TokenRef eth_key, 50) UserSupplied (Time 1),
        clli_refund_due = live_field_new 0 UserSupplied (Time 1), clli_is_claimable = live_field_new True UserSupplied (Time 1)\<rparr>\<rparr>"

definition sample_claim_vested :: claim_vested_action where
  "sample_claim_vested =
     \<lparr>cv_position_id = claim_id sample_claim_allocation, cv_amount = Some 50,
      cv_claimable_now = live_field_new 50 UserSupplied (Time 1), cv_next_unlock = live_field_new None UserSupplied (Time 1)\<rparr>"

definition vested_position :: position where
  "vested_position =
     \<lparr>pos_id = claim_id sample_claim_allocation, pos_protocol = protocol_ref_new ''echo'', pos_chain = None,
      pos_kind = LaunchpadAllocation vested_allocation, pos_primitives_synced_at = Time 0, pos_primitives_source = UserSupplied\<rparr>"

definition vested_wallet :: wallet_state where
  "vested_wallet = sample_wallet\<lparr>ws_positions := [vested_position]\<rparr>"

definition vested_codec :: position_codec where
  "vested_codec = fixed_codec (repaid sample_ctx (record_allocation (TokenRef eth_key) 50 vested_allocation) vested_position)"

lemma vested_facts:
  "find_id (claim_id sample_claim_allocation) vested_wallet = Some vested_position"
  "pos_kind vested_position = LaunchpadAllocation vested_allocation" "has_vest_window (lp_vest vested_allocation)"
  "lf_value (clli_allocated (cl_live_inputs sample_claim_allocation)) = (TokenRef eth_key, 50)"
  "lf_value (clli_refund_due (cl_live_inputs sample_claim_allocation)) = 0"
  "lf_value (clli_is_claimable (cl_live_inputs sample_claim_allocation))"
  "cv_position_id sample_claim_vested = claim_id sample_claim_allocation" "cv_amount sample_claim_vested = Some 50"
  "lf_value (cv_claimable_now sample_claim_vested) = 50"
  "balance_of vested_wallet eth_key = Some 5"
  by (simp_all add: find_id_def vested_wallet_def vested_position_def vested_allocation_def has_vest_window_def
      sample_claim_allocation_def sample_claim_vested_def live_field_new_def balance_of_def sample_wallet_def
      sample_holding_def eth_key_def usdc_key_def nft_key_def)

theorem vested_credited_twice_witness:
  "\<exists>d w1 e w2. apply_claim_allocation vested_codec sample_claim_allocation vested_wallet sample_ctx = Ok d \<and>
     apply_delta vested_codec vested_wallet d = Ok w1 \<and>
     apply_claim_vested vested_codec sample_claim_vested w1 sample_ctx = Ok e \<and>
     apply_delta vested_codec w1 e = Ok w2 \<and> capped_balance w2 eth_key = Some 105"
proof -
  let ?p = "repaid sample_ctx (record_allocation (TokenRef eth_key) 50 vested_allocation) vested_position"
  let ?pid = "claim_id sample_claim_allocation"
  obtain c where c: "credit vested_wallet delta_new eth_key 50 = Ok c"
    using credit_accepts vested_facts(10) by blast
  have none: "position_changes c = []"
    using credit_positions [OF c] by simp
  define d where "d = push_position_update vested_codec ?p c"
  have d: "apply_claim_allocation vested_codec sample_claim_allocation vested_wallet sample_ctx = Ok d"
    using c vested_facts by (simp add: apply_claim_allocation_def effective_launchpad_new [OF none] ok_or_def Let_def d_def repaid_def)
  from credits.op_step [OF builds_new c, of vested_codec] obtain v where v: "builds vested_codec vested_wallet c v"
    "capped_balance v eth_key \<noteq> None"
    by auto
  have id: "pos_id ?p = ?pid" "find_id (pos_id ?p) vested_wallet = Some vested_position"
    using vested_facts(1) by (simp_all add: vested_position_def)
  from builds_snapshot [OF v(1) none id(2)] id(1) obtain w1 where w1: "builds vested_codec vested_wallet d w1"
    "ws_tokens w1 = ws_tokens v" "ws_positions w1 = put_position ?p vested_wallet"
    by (auto simp: vested_codec_def d_def push_position_update_def)
  have found: "find_id ?pid w1 = Some ?p"
    using find_put_position(1) [OF id(2), of ?pid] w1(3) id(1) by (simp add: find_id_def)
  have "balance_of w1 eth_key \<noteq> None"
    using v(2) same_tokens_balance [OF w1(2)] by (auto simp: capped_balance_def)
  then obtain c' where c': "credit w1 delta_new eth_key 50 = Ok c'"
    using credit_accepts by blast
  have "fst (lp_allocated (record_allocation (TokenRef eth_key) 50 vested_allocation)) = TokenRef eth_key"
    "lp_claimed (record_allocation (TokenRef eth_key) 50 vested_allocation) = 0"
    using vested_facts(3) by (simp_all add: record_allocation_def Let_def vested_allocation_def)
  then obtain q where e: "apply_claim_vested vested_codec sample_claim_vested w1 sample_ctx = Ok (push_position_update vested_codec q c')"
    (is "_ = Ok ?e") and q: "pos_id q = ?pid"
    using found c' vested_facts(7-9) id(1)
    by (auto simp: apply_claim_vested_def effective_launchpad_new ok_or_def checked_add_or_def checked_add_u_def vested_position_def)
  from credits.op_step [OF builds_new c', of vested_codec] obtain u where u: "builds vested_codec w1 c' u"
    by blast
  have "ws_positions u = ws_positions w1"
    using builds_positions [OF u] credit_positions [OF c'] by simp
  with found have "find_id ?pid u = Some ?p"
    by (simp add: find_id_def)
  then obtain w2 where "apply_position_change vested_codec u (PosUpdate ?pid (snapshot_patch vested_codec q)) = Ok w2"
    unfolding vested_codec_def using fixed_codec_applies by blast
  from builds_push_position [OF u this] q have w2: "apply_delta vested_codec w1 ?e = Ok w2"
    by (simp add: builds_def push_position_update_def)
  have "codec_roundtrips vested_codec ?p" "(50 :: u256) \<noteq> 0" "apply_delta vested_codec vested_wallet d = Ok w1"
    using w1(1) by (simp_all add: vested_codec_def builds_def)
  from vested_credited_twice [OF d vested_facts(4,5,1-3) this(1,3) e vested_facts(7,8) this(2) w2]
  have "capped_balance w2 eth_key = Some 105"
    using vested_facts(10) by (auto simp: capped_balance_def cap_def i256_max_def)
  then show ?thesis
    using d e w2 \<open>apply_delta vested_codec vested_wallet d = Ok w1\<close> by blast
qed

end
