(* ===== verification/Perp_Types.thy ===== *)
theory Perp_Types
  imports Reducer_Base
begin

text \<open>
  The perpetual-futures actions (\<open>asset-model/action/src/perp\<close>): venues, size and order specifications, account and
  position snapshots and the ten actions.
\<close>

datatype perp_venue =
    Hyperliquid chain_id
  | GmxV2 chain_id
  | DyDxV4 chain_id
  | Vertex chain_id
  | Aevo chain_id
  | Drift chain_id
  | JupiterPerps chain_id
  | Synthetix chain_id
  | GenericPerp chain_id address

fun perp_name :: "perp_venue \<Rightarrow> string" where
  "perp_name (Hyperliquid _) = ''hyperliquid''"
| "perp_name (GmxV2 _) = ''gmx_v2''"
| "perp_name (DyDxV4 _) = ''dy_dx_v4''"
| "perp_name (Vertex _) = ''vertex''"
| "perp_name (Aevo _) = ''aevo''"
| "perp_name (Drift _) = ''drift''"
| "perp_name (JupiterPerps _) = ''jupiter_perps''"
| "perp_name (Synthetix _) = ''synthetix''"
| "perp_name (GenericPerp _ _) = ''generic''"

datatype size_spec =
    BaseAmount u256
  | QuoteAmount u256
  | LeverageImplied u256 decimal
  | BaseDecimal decimal

datatype time_in_force = Gtc | Ioc | Fok | PostOnly | Gtd time

datatype stop_order_kind = SO_StopMarket | SO_StopLimit | SO_TakeProfit | SO_TakeProfitLimit

record perp_account_state =
  pas_total_collateral_usd :: u256
  pas_used_margin_usd :: u256
  pas_free_margin_usd :: u256
  pas_open_positions :: "(market_ref \<times> u256) list"

record perp_position_live =
  ppl_size_base :: u256
  ppl_notional_usd :: u256
  ppl_entry_price :: price
  ppl_mark_price :: price
  ppl_liq_price :: "price option"
  ppl_unrealized_pnl :: i256

record open_perp_live_inputs =
  opli_mark_price :: "price live_field"
  opli_oracle_price :: "price live_field"
  opli_funding_rate :: "decimal live_field"
  opli_available_oi :: "u256 live_field"
  opli_max_leverage :: "decimal live_field"
  opli_initial_margin_bp :: "u32 live_field"
  opli_maintenance_bp :: "u32 live_field"
  opli_fee_taker_bp :: "u32 live_field"
  opli_fee_maker_bp :: "u32 live_field"
  opli_user_account_state :: "perp_account_state live_field"

record open_perp_action =
  op_venue :: perp_venue
  op_market :: market_ref
  op_side :: perp_side
  op_size :: size_spec
  op_leverage :: decimal
  op_collateral :: "token_ref \<times> u256"
  op_margin_mode :: margin_mode
  op_slippage_bp :: u32
  op_reduce_only :: bool
  op_live_inputs :: open_perp_live_inputs

record close_perp_live_inputs =
  cpli_mark_price :: "price live_field"
  cpli_unrealized_pnl_now :: "i256 live_field"
  cpli_funding_accrued :: "i256 live_field"
  cpli_fee_bp :: "u32 live_field"

record close_perp_action =
  cp_venue :: perp_venue
  cp_position_id :: string
  cp_size :: "size_spec option"
  cp_slippage_bp :: u32
  cp_live_inputs :: close_perp_live_inputs

record increase_perp_action =
  ip_venue :: perp_venue
  ip_position_id :: string
  ip_size :: size_spec
  ip_add_collateral :: "(token_ref \<times> u256) option"
  ip_slippage_bp :: u32
  ip_live_inputs :: open_perp_live_inputs

record decrease_perp_action =
  dp_venue :: perp_venue
  dp_position_id :: string
  dp_size :: size_spec
  dp_slippage_bp :: u32
  dp_live_inputs :: close_perp_live_inputs

record adjust_margin_live_inputs =
  amli_position_state :: "perp_position_live live_field"
  amli_free_margin_after :: "u256 live_field"

record adjust_margin_action =
  am_venue :: perp_venue
  am_position_id :: "string option"
  am_market :: "market_ref option"
  am_side :: "perp_side option"
  am_delta :: i256
  am_live_inputs :: "adjust_margin_live_inputs option"

record change_leverage_live_inputs =
  clvi_max_leverage :: "decimal live_field"
  clvi_affected_positions :: "string list live_field"
  clvi_new_liq_prices :: "(string \<times> price option) list live_field"

record change_leverage_action =
  clv_venue :: perp_venue
  clv_market :: market_ref
  clv_new_leverage :: decimal
  clv_live_inputs :: "change_leverage_live_inputs option"

record change_margin_mode_action =
  cmm_venue :: perp_venue
  cmm_market :: market_ref
  cmm_new_mode :: margin_mode
  cmm_affected_positions :: "string list live_field"
  cmm_margin_reallocation :: "(string \<times> u256) list live_field"

datatype order_type =
    OT_Limit price time_in_force
  | OT_Stop price stop_order_kind "price option"
  | OT_Twap u32 bool

record place_order_live_inputs =
  poli_mark_price :: "price live_field"
  poli_best_bid_ask :: "(price \<times> price) live_field"
  poli_open_orders_count :: "u32 live_field"
  poli_user_account_state :: "perp_account_state live_field"

record place_order_action =
  pla_venue :: perp_venue
  pla_market :: market_ref
  pla_side :: perp_side
  pla_size :: size_spec
  pla_reduce_only :: bool
  pla_order_type :: order_type
  pla_live_inputs :: "place_order_live_inputs option"

record cancel_order_action =
  cor_venue :: perp_venue
  cor_order_id :: string

record claim_funding_action =
  cfu_venue :: perp_venue
  cfu_market :: "market_ref option"
  cfu_claimable :: "(token_ref \<times> u256) list live_field"

datatype perp_action =
    OpenPosition open_perp_action
  | ClosePosition close_perp_action
  | IncreasePosition increase_perp_action
  | DecreasePosition decrease_perp_action
  | AdjustMargin adjust_margin_action
  | ChangeLeverage change_leverage_action
  | ChangeMarginMode change_margin_mode_action
  | PlaceOrder place_order_action
  | CancelOrder cancel_order_action
  | ClaimFunding claim_funding_action

fun perp_action_tag :: "perp_action \<Rightarrow> string" where
  "perp_action_tag (OpenPosition _) = ''open_position''"
| "perp_action_tag (ClosePosition _) = ''close_position''"
| "perp_action_tag (IncreasePosition _) = ''increase_position''"
| "perp_action_tag (DecreasePosition _) = ''decrease_position''"
| "perp_action_tag (AdjustMargin _) = ''adjust_margin''"
| "perp_action_tag (ChangeLeverage _) = ''change_leverage''"
| "perp_action_tag (ChangeMarginMode _) = ''change_margin_mode''"
| "perp_action_tag (PlaceOrder _) = ''place_order''"
| "perp_action_tag (CancelOrder _) = ''cancel_order''"
| "perp_action_tag (ClaimFunding _) = ''claim_funding''"

fun perp_venue_name :: "perp_action \<Rightarrow> string option" where
  "perp_venue_name (OpenPosition a) = Some (perp_name (op_venue a))"
| "perp_venue_name (ClosePosition a) = Some (perp_name (cp_venue a))"
| "perp_venue_name (IncreasePosition a) = Some (perp_name (ip_venue a))"
| "perp_venue_name (DecreasePosition a) = Some (perp_name (dp_venue a))"
| "perp_venue_name (AdjustMargin a) = Some (perp_name (am_venue a))"
| "perp_venue_name (ChangeLeverage a) = Some (perp_name (clv_venue a))"
| "perp_venue_name (ChangeMarginMode a) = Some (perp_name (cmm_venue a))"
| "perp_venue_name (PlaceOrder a) = Some (perp_name (pla_venue a))"
| "perp_venue_name (CancelOrder a) = Some (perp_name (cor_venue a))"
| "perp_venue_name (ClaimFunding a) = Some (perp_name (cfu_venue a))"

end
