(* ===== verification/Perp_Math.thy ===== *)
theory Perp_Math
  imports Perp_Types Rust_Decimal
begin

text \<open>
  Numbers and names of the perpetual venues (\<open>asset-model/transition/src/effect/perp\<close>: \<open>math.rs\<close>, \<open>common.rs\<close> and the
  files of the venues, which all use the same formulas; three of them defer the liquidation price). Messages with
  other than ASCII characters are written without them.
\<close>

section \<open>Names\<close>

fun perp_venue_tag :: "perp_venue \<Rightarrow> string" where
  "perp_venue_tag (Hyperliquid _) = ''hyperliquid''"
| "perp_venue_tag (GmxV2 _) = ''gmx_v2''"
| "perp_venue_tag (DyDxV4 _) = ''dydx_v4''"
| "perp_venue_tag (Vertex _) = ''vertex''"
| "perp_venue_tag (Aevo _) = ''aevo''"
| "perp_venue_tag (Drift _) = ''drift''"
| "perp_venue_tag (JupiterPerps _) = ''jupiter_perps''"
| "perp_venue_tag (Synthetix _) = ''synthetix''"
| "perp_venue_tag (GenericPerp _ _) = ''generic_perp''"

fun perp_venue_chain :: "perp_venue \<Rightarrow> chain_id" where
  "perp_venue_chain (Hyperliquid c) = c"
| "perp_venue_chain (GmxV2 c) = c"
| "perp_venue_chain (DyDxV4 c) = c"
| "perp_venue_chain (Vertex c) = c"
| "perp_venue_chain (Aevo c) = c"
| "perp_venue_chain (Drift c) = c"
| "perp_venue_chain (JupiterPerps c) = c"
| "perp_venue_chain (Synthetix c) = c"
| "perp_venue_chain (GenericPerp c _) = c"

definition perp_venue_ref :: "perp_venue \<Rightarrow> venue_ref" where
  "perp_venue_ref venue = \<lparr>vr_name = perp_venue_tag venue, vr_chain = Some (perp_venue_chain venue)\<rparr>"

fun is_orderbook_venue :: "perp_venue \<Rightarrow> bool" where
  "is_orderbook_venue (Hyperliquid _) = True"
| "is_orderbook_venue (Aevo _) = True"
| "is_orderbook_venue (DyDxV4 _) = True"
| "is_orderbook_venue _ = False"

fun side_tag :: "perp_side \<Rightarrow> string" where
  "side_tag Long = ''long''"
| "side_tag Short = ''short''"

definition synth_position_id :: "perp_venue \<Rightarrow> string \<Rightarrow> perp_side \<Rightarrow> string" where
  "synth_position_id venue market side = perp_venue_tag venue @ '':'' @ market @ '':'' @ side_tag side"

definition pending_id_for_limit_order :: "perp_venue \<Rightarrow> string \<Rightarrow> perp_side \<Rightarrow> price \<Rightarrow> string" where
  "pending_id_for_limit_order venue market side p =
     ''limit:'' @ perp_venue_tag venue @ '':'' @ market @ '':'' @ side_tag side @ '':'' @ decimal_str p"

fun stop_kind_tag :: "stop_order_kind \<Rightarrow> string" where
  "stop_kind_tag SO_StopMarket = ''stop_market''"
| "stop_kind_tag SO_StopLimit = ''stop_limit''"
| "stop_kind_tag SO_TakeProfit = ''take_profit''"
| "stop_kind_tag SO_TakeProfitLimit = ''take_profit_limit''"

definition pending_id_for_stop_order :: "perp_venue \<Rightarrow> string \<Rightarrow> perp_side \<Rightarrow> stop_order_kind \<Rightarrow> price \<Rightarrow> string" where
  "pending_id_for_stop_order venue market side kind trigger =
     stop_kind_tag kind @ '':'' @ perp_venue_tag venue @ '':'' @ market @ '':'' @ side_tag side @ '':'' @ decimal_str trigger"

definition pending_id_for_twap_order :: "perp_venue \<Rightarrow> string \<Rightarrow> perp_side \<Rightarrow> u32 \<Rightarrow> string" where
  "pending_id_for_twap_order venue market side duration_minutes =
     ''twap:'' @ perp_venue_tag venue @ '':'' @ market @ '':'' @ side_tag side @ '':'' @ dec_word duration_minutes"

fun perp_order_kind_from_stop :: "stop_order_kind \<Rightarrow> perp_order_kind" where
  "perp_order_kind_from_stop SO_StopMarket = StopMarket"
| "perp_order_kind_from_stop SO_StopLimit = StopLimit"
| "perp_order_kind_from_stop SO_TakeProfitLimit = StopLimit"
| "perp_order_kind_from_stop SO_TakeProfit = TakeProfit"

section \<open>Numbers\<close>

definition decimal_trunc_to_signed :: "'n rust_decimal \<Rightarrow> int_parsers \<Rightarrow> 'n \<Rightarrow> i256 reducer_result" where
  "decimal_trunc_to_signed rd ip d =
     (let s = rd_to_string rd (rd_trunc rd d)
      in ok_or (Invariant (BadDecimalIn ''decimal overflows SignedI256'' s)) (ip_i256_from_dec_str ip s))"

definition decimal_trunc_to_u256 :: "'n rust_decimal \<Rightarrow> int_parsers \<Rightarrow> 'n \<Rightarrow> string \<Rightarrow> u256 reducer_result" where
  "decimal_trunc_to_u256 rd ip d label =
     (if rd_is_sign_negative rd d then
        Err (Invariant (Text (label @ '': expected non-negative, got '' @ rd_to_string rd d)))
      else
        let s = rd_to_string rd (rd_trunc rd d)
        in ok_or (Invariant (BadDecimalIn (label @ '': U256 parse'') s)) (ip_u256_from_radix_10 ip s))"

definition resolve_size_base :: "'n rust_decimal \<Rightarrow> int_parsers \<Rightarrow> size_spec \<Rightarrow> price \<Rightarrow> u256 reducer_result" where
  "resolve_size_base rd ip spec mark =
     (case spec of
        BaseAmount amount \<Rightarrow> Ok amount
      | QuoteAmount amount_usd \<Rightarrow>
          bind_result (derived_parse_decimal rd mark) (\<lambda>mark_d.
            if rd_is_zero rd mark_d then Err (Invariant (Text ''resolve_size_base: mark price is zero''))
            else
              bind_result (u256_to_decimal rd amount_usd) (\<lambda>usd.
                decimal_trunc_to_u256 rd ip (rd_div rd usd mark_d) ''size_base from QuoteAmount''))
      | LeverageImplied collateral leverage \<Rightarrow>
          bind_result (derived_parse_decimal rd mark) (\<lambda>mark_d.
            if rd_is_zero rd mark_d then Err (Invariant (Text ''resolve_size_base: mark price is zero''))
            else
              bind_result (u256_to_decimal rd collateral) (\<lambda>coll.
              bind_result (derived_parse_decimal rd leverage) (\<lambda>lev.
                decimal_trunc_to_u256 rd ip (rd_div rd (rd_mul rd coll lev) mark_d) ''size_base from LeverageImplied'')))
      | BaseDecimal _ \<Rightarrow>
          Err (Invariant (Text ''resolve_size_base: BaseDecimal size is off-chain-only (no on-chain reducer support)'')))"

definition notional_usd :: "'n rust_decimal \<Rightarrow> u256 \<Rightarrow> price \<Rightarrow> 'n reducer_result" where
  "notional_usd rd size_base mark =
     bind_result (derived_parse_decimal rd mark) (\<lambda>mark_d.
     bind_result (u256_to_decimal rd size_base) (\<lambda>size.
       Ok (rd_mul rd size mark_d)))"

definition required_initial_margin_common ::
  "'n rust_decimal \<Rightarrow> int_parsers \<Rightarrow> string \<Rightarrow> open_perp_action \<Rightarrow> open_perp_live_inputs \<Rightarrow> u256 reducer_result" where
  "required_initial_margin_common rd ip venue_label action live =
     bind_result (derived_parse_decimal rd (lf_value (opli_mark_price live))) (\<lambda>mark.
       if rd_is_zero rd mark then Err (Invariant (Text (venue_label @ '': mark price is zero'')))
       else
         bind_result (derived_parse_decimal rd (op_leverage action)) (\<lambda>leverage.
           if rd_is_zero rd leverage then Err (Invariant (Text (venue_label @ '': leverage is zero'')))
           else
             bind_result (derived_parse_decimal rd (lf_value (opli_max_leverage live))) (\<lambda>max_lev.
               if \<not> rd_is_zero rd max_lev \<and> rd_less rd max_lev leverage then
                 Err (Invariant (Text (venue_label @ '': leverage '' @ rd_to_string rd leverage @ '' exceeds venue max '' @
                   rd_to_string rd max_lev)))
               else
                 bind_result (resolve_size_base rd ip (op_size action) (lf_value (opli_mark_price live))) (\<lambda>size_base.
                 bind_result (u256_to_decimal rd size_base) (\<lambda>size.
                   let notional = rd_mul rd size mark;
                       fee_taker = rd_from_u32 rd (lf_value (opli_fee_taker_bp live));
                       bp_denom = rd_from_u32 rd 10000;
                       margin = rd_add rd (rd_div rd notional leverage) (rd_div rd (rd_mul rd fee_taker notional) bp_denom)
                   in decimal_trunc_to_u256 rd ip margin (venue_label @ ''::required_initial_margin''))))))"

definition liquidation_price_simple ::
  "'n rust_decimal \<Rightarrow> int_parsers \<Rightarrow> string \<Rightarrow> open_perp_action \<Rightarrow> open_perp_live_inputs \<Rightarrow> price option reducer_result" where
  "liquidation_price_simple rd ip venue_label action live =
     bind_result (resolve_size_base rd ip (op_size action) (lf_value (opli_mark_price live))) (\<lambda>size_base.
       if size_base = 0 then Ok None
       else
         bind_result (derived_parse_decimal rd (lf_value (opli_mark_price live))) (\<lambda>mark.
         bind_result (u256_to_decimal rd size_base) (\<lambda>size.
           let notional = rd_mul rd size mark;
               maintenance = rd_div rd (rd_mul rd notional (rd_from_u32 rd (lf_value (opli_maintenance_bp live)))) (rd_from_u32 rd 10000)
           in
           bind_result (u256_to_decimal rd (pas_free_margin_usd (lf_value (opli_user_account_state live)))) (\<lambda>free_margin.
             if rd_is_zero rd size then
               Err (Invariant (Text (venue_label @ '': size_base resolved to zero (post-quote-check)'')))
             else
               let buffer = rd_div rd (rd_sub rd free_margin maintenance) size;
                   liq = (case op_side action of Long \<Rightarrow> rd_sub rd mark buffer | Short \<Rightarrow> rd_add rd mark buffer);
                   liq = if rd_is_sign_negative rd liq then rd_from_u32 rd 0 else liq
               in Ok (Some (decimal_to_state rd liq))))))"

definition liquidation_price_deferred :: "string \<Rightarrow> price option reducer_result" where
  "liquidation_price_deferred venue_label =
     Err (UnsupportedProtocol ''open_perp.liquidation_price''
       (venue_label @ '' - deferred (requires venue subgraph state)''))"

definition unrealized_pnl_common ::
  "'n rust_decimal \<Rightarrow> int_parsers \<Rightarrow> u256 \<Rightarrow> price \<Rightarrow> price \<Rightarrow> bool \<Rightarrow> i256 reducer_result" where
  "unrealized_pnl_common rd ip size_base entry mark is_long =
     bind_result (derived_parse_decimal rd entry) (\<lambda>entry_d.
     bind_result (derived_parse_decimal rd mark) (\<lambda>mark_d.
     bind_result (u256_to_decimal rd size_base) (\<lambda>size.
       let diff = (if is_long then rd_sub rd mark_d entry_d else rd_sub rd entry_d mark_d)
       in decimal_trunc_to_signed rd ip (rd_mul rd size diff))))"

definition funding_accrued_common ::
  "'n rust_decimal \<Rightarrow> int_parsers \<Rightarrow> u256 \<Rightarrow> decimal \<Rightarrow> u32 \<Rightarrow> i256 reducer_result" where
  "funding_accrued_common rd ip size_base funding_rate hours_elapsed =
     bind_result (derived_parse_decimal rd funding_rate) (\<lambda>rate.
     bind_result (u256_to_decimal rd size_base) (\<lambda>size.
       decimal_trunc_to_signed rd ip
         (rd_div rd (rd_mul rd (rd_mul rd size rate) (rd_from_u32 rd hours_elapsed)) (rd_from_u32 rd 24))))"

section \<open>Dispatch by venue\<close>

definition dispatch_required_initial_margin ::
  "'n rust_decimal \<Rightarrow> int_parsers \<Rightarrow> open_perp_action \<Rightarrow> u256 reducer_result" where
  "dispatch_required_initial_margin rd ip action =
     required_initial_margin_common rd ip
       (case op_venue action of
          Hyperliquid _ \<Rightarrow> ''hyperliquid''
        | Aevo _ \<Rightarrow> ''aevo''
        | DyDxV4 _ \<Rightarrow> ''dydx_v4''
        | GmxV2 _ \<Rightarrow> ''gmx_v2''
        | Vertex _ \<Rightarrow> ''vertex''
        | Drift _ \<Rightarrow> ''drift''
        | JupiterPerps _ \<Rightarrow> ''jupiter_perps''
        | Synthetix _ \<Rightarrow> ''synthetix''
        | GenericPerp _ _ \<Rightarrow> ''generic_perp'')
       action (op_live_inputs action)"

definition dispatch_liquidation_price ::
  "'n rust_decimal \<Rightarrow> int_parsers \<Rightarrow> open_perp_action \<Rightarrow> price option reducer_result" where
  "dispatch_liquidation_price rd ip action =
     (let live = op_live_inputs action in
      case op_venue action of
        Hyperliquid _ \<Rightarrow> liquidation_price_simple rd ip ''hyperliquid'' action live
      | Aevo _ \<Rightarrow> liquidation_price_simple rd ip ''aevo'' action live
      | DyDxV4 _ \<Rightarrow> liquidation_price_simple rd ip ''dydx_v4'' action live
      | GmxV2 _ \<Rightarrow> liquidation_price_deferred ''gmx_v2''
      | Vertex _ \<Rightarrow> liquidation_price_simple rd ip ''vertex'' action live
      | Drift _ \<Rightarrow> liquidation_price_simple rd ip ''drift'' action live
      | JupiterPerps _ \<Rightarrow> liquidation_price_deferred ''jupiter_perps''
      | Synthetix _ \<Rightarrow> liquidation_price_deferred ''synthetix''
      | GenericPerp _ _ \<Rightarrow> liquidation_price_simple rd ip ''generic_perp'' action live)"

end
