(* ===== verification/Perp_Effect.thy ===== *)
theory Perp_Effect
  imports Perp_Math Position_Flow Entry_List
begin

text \<open>
  The perpetual-futures reducers (\<open>asset-model/transition/src/effect/perp\<close>): opening, increasing, decreasing and
  closing positions, margin and leverage, venue orders and funding. Orderbook venues file a pending order
  instead of moving tokens. Messages with other than ASCII characters are written without them.
\<close>

section \<open>Shared steps\<close>

definition perp_at :: "wallet_state \<Rightarrow> string \<Rightarrow> string \<Rightarrow> perp_position reducer_result" where
  "perp_at w pid action =
     bind_result (ok_or (PositionNotFound pid) (List.find (\<lambda>p. pos_id p = pid) (ws_positions w))) (\<lambda>pos.
       case pos_kind pos of
         PerpPosition pp \<Rightarrow> Ok pp
       | _ \<Rightarrow> Err (Invariant (Text (action @ '': position '' @ pid @ '' is not a PerpPosition''))))"

text \<open>\<open>if let PositionKind::PerpPosition(pp) = &mut p.kind\<close>.\<close>

definition on_perp :: "(perp_position \<Rightarrow> perp_position) \<Rightarrow> position \<Rightarrow> position" where
  "on_perp f p = (case pos_kind p of PerpPosition pp \<Rightarrow> p\<lparr>pos_kind := PerpPosition (f pp)\<rparr> | _ \<Rightarrow> p)"

definition first_collateral :: "string \<Rightarrow> string \<Rightarrow> perp_position \<Rightarrow> (token_ref \<times> u256) reducer_result" where
  "first_collateral action pid pp =
     (case pp_collateral pp of
        c # _ \<Rightarrow> Ok c
      | [] \<Rightarrow> Err (Invariant (Text (action @ '': position '' @ pid @ '' has no collateral''))))"

text \<open>\<open>U256::from_str_radix(&abs.to_string(), 10)\<close> of an absolute value.\<close>

definition abs_u256 :: "int_parsers \<Rightarrow> string \<Rightarrow> i256 \<Rightarrow> u256 reducer_result" where
  "abs_u256 ip msg x = ok_or (Invariant (LibError msg)) (ip_u256_from_radix_10 ip (dec_word (unsigned_abs x)))"

definition settle_cash ::
  "int_parsers \<Rightarrow> string \<Rightarrow> wallet_state \<Rightarrow> state_delta \<Rightarrow> token_key \<Rightarrow> i256 \<Rightarrow> state_delta reducer_result" where
  "settle_cash ip msg w d k cash_delta =
     (if is_positive cash_delta then bind_result (abs_u256 ip msg cash_delta) (credit w d k)
      else if is_negative cash_delta then bind_result (abs_u256 ip msg cash_delta) (debit w d k)
      else Ok d)"

definition trunc_u256 :: "'n rust_decimal \<Rightarrow> int_parsers \<Rightarrow> string \<Rightarrow> 'n \<Rightarrow> u256 reducer_result" where
  "trunc_u256 rd ip msg n = ok_or (Invariant (LibError msg)) (ip_u256_from_radix_10 ip (rd_to_string rd (rd_trunc rd n)))"

definition fee_of :: "'n rust_decimal \<Rightarrow> 'n \<Rightarrow> u32 \<Rightarrow> 'n" where
  "fee_of rd notional fee_bp = rd_div rd (rd_mul rd notional (rd_from_u32 rd fee_bp)) (rd_from_u32 rd 10000)"

section \<open>Open\<close>

definition text_contains :: "string \<Rightarrow> string \<Rightarrow> bool" where
  "text_contains t s = list_ex (\<lambda>i. take (length t) (drop i s) = t) [0..<Suc (length s)]"

text \<open>The liquidation price, or none when the venue defers it.\<close>

definition open_liq_price :: "'n rust_decimal \<Rightarrow> int_parsers \<Rightarrow> open_perp_action \<Rightarrow> price option reducer_result" where
  "open_liq_price rd ip a =
     (case dispatch_liquidation_price rd ip a of
        Ok p \<Rightarrow> Ok p
      | Err (UnsupportedProtocol action protocol) \<Rightarrow>
          if text_contains ''deferred'' protocol then Ok None else Err (UnsupportedProtocol action protocol)
      | Err e \<Rightarrow> Err e)"

definition new_perp_position ::
  "open_perp_action \<Rightarrow> eval_context \<Rightarrow> u256 \<Rightarrow> u256 \<Rightarrow> price option \<Rightarrow> position" where
  "new_perp_position a ctx size_base notional liq =
     (let live = op_live_inputs a;
          perp = \<lparr>pp_venue = perp_venue_ref (op_venue a), pp_market = op_market a, pp_side = op_side a,
            pp_size_base = size_base, pp_notional_usd = notional, pp_collateral = [op_collateral a],
            pp_entry_price = lf_value (opli_mark_price live), pp_margin_mode = op_margin_mode a,
            pp_mark_price = live_field_new (lf_value (opli_mark_price live)) (lf_source (opli_mark_price live)) (ec_now ctx),
            pp_liq_price = live_field_new liq UserSupplied (ec_now ctx),
            pp_unrealized_pnl = live_field_new 0 UserSupplied (ec_now ctx),
            pp_funding_owed = live_field_new 0 UserSupplied (ec_now ctx),
            pp_leverage = live_field_new (op_leverage a) UserSupplied (ec_now ctx)\<rparr>
      in \<lparr>pos_id = synth_position_id (op_venue a) (mr_symbol (op_market a)) (op_side a),
          pos_protocol = protocol_ref_new (perp_venue_tag (op_venue a)), pos_chain = None,
          pos_kind = PerpPosition perp, pos_primitives_synced_at = ec_now ctx, pos_primitives_source = UserSupplied\<rparr>)"

definition active_lifecycle :: "time option \<Rightarrow> pending_lifecycle" where
  "active_lifecycle until =
     \<lparr>pl_status = PSActive, pl_valid_until = until, pl_nonce = None, pl_on_chain_tx = None, pl_raw_status = None\<rparr>"

definition open_pending :: "open_perp_action \<Rightarrow> eval_context \<Rightarrow> u256 \<Rightarrow> u256 \<Rightarrow> position \<Rightarrow> pending_tx" where
  "open_pending a ctx size_base required_margin position =
     PendingTx (perp_venue_tag (op_venue a) @ '':open:'' @ pos_id position)
       (PerpVenueOrder (perp_venue_ref (op_venue a)) (op_market a) (op_side a) size_base
         (lf_value (opli_mark_price (op_live_inputs a))) PerpLimit (op_reduce_only a))
       (HardLock (fst (op_collateral a)) required_margin)
       (push_position (PosOpen position) delta_new)
       (active_lifecycle None) UserSupplied (ec_now ctx) []"

definition apply_open_perp :: "'n rust_decimal \<Rightarrow> int_parsers \<Rightarrow> open_perp_action reducer" where
  "apply_open_perp rd ip a w ctx =
     (let live = op_live_inputs a; mark = lf_value (opli_mark_price live) in
      bind_result (dispatch_required_initial_margin rd ip a) (\<lambda>required_margin.
        let free_margin = pas_free_margin_usd (lf_value (opli_user_account_state live)) in
        if free_margin < required_margin then
          Err (Invariant (Text (''open_perp: free_margin_usd '' @ dec_word free_margin @ '' < required_margin '' @
            dec_word required_margin)))
        else
          bind_result (resolve_size_base rd ip (op_size a) mark) (\<lambda>size_base.
            if lf_value (opli_available_oi live) < size_base then
              Err (Invariant (Text (''open_perp: available_oi '' @ dec_word (lf_value (opli_available_oi live)) @
                '' < size_base '' @ dec_word size_base)))
            else
              bind_result (open_liq_price rd ip a) (\<lambda>liq_price.
              bind_result (if \<not> is_orderbook_venue (op_venue a)
                 then debit w delta_new (ref_key (fst (op_collateral a))) (snd (op_collateral a)) else Ok delta_new) (\<lambda>d.
              bind_result (notional_usd rd size_base mark) (\<lambda>notional_decimal.
              bind_result (trunc_u256 rd ip ''open_perp: notional_usd U256 parse'' notional_decimal) (\<lambda>notional.
                let position = new_perp_position a ctx size_base notional liq_price in
                if is_orderbook_venue (op_venue a)
                then Ok (push_pending (PendingAdd (open_pending a ctx size_base required_margin position)) d)
                else open_position w d position)))))))"

section \<open>Increase, decrease, close\<close>

definition apply_increase_perp :: "'n rust_decimal \<Rightarrow> int_parsers \<Rightarrow> position_codec \<Rightarrow> increase_perp_action reducer" where
  "apply_increase_perp rd ip cd a w ctx =
     (if is_orderbook_venue (ip_venue a) then
        Err (Invariant (Text (''increase_perp: orderbook venue '' @ perp_venue_tag (ip_venue a) @
          '' requires PlaceOrderAction (with reduce_only=false), not IncreasePerpAction'')))
      else
        let pid = ip_position_id a; mark_price = lf_value (opli_mark_price (ip_live_inputs a)) in
        bind_result (perp_at w pid ''increase_perp'') (\<lambda>old_perp.
        bind_result (resolve_size_base rd ip (ip_size a) mark_price) (\<lambda>delta_size.
          if delta_size = 0 then Err (Invariant (Text ''increase_perp: resolved delta size is zero''))
          else
            bind_result (u256_to_decimal rd (pp_size_base old_perp)) (\<lambda>old_size.
            bind_result (checked_add_or ''increase_perp: size addition overflow'' (pp_size_base old_perp) delta_size) (\<lambda>new_size_u256.
            bind_result (u256_to_decimal rd new_size_u256) (\<lambda>new_size.
            bind_result (derived_parse_decimal rd (pp_entry_price old_perp)) (\<lambda>old_entry.
            bind_result (derived_parse_decimal rd mark_price) (\<lambda>mark.
            bind_result (u256_to_decimal rd delta_size) (\<lambda>delta_size_d.
              let new_entry_d = rd_div rd (rd_add rd (rd_mul rd old_size old_entry) (rd_mul rd delta_size_d mark)) new_size in
              bind_result
                (case ip_add_collateral a of
                   Some (collateral_token, amount) \<Rightarrow> debit w delta_new (ref_key collateral_token) amount
                 | None \<Rightarrow> Ok delta_new) (\<lambda>d.
              bind_result (trunc_u256 rd ip ''increase_perp: notional U256 parse'' (rd_mul rd new_size mark)) (\<lambda>new_notional.
                upsert_perp_position cd w d pid (on_perp (\<lambda>pp.
                  let pp = pp\<lparr>pp_size_base := new_size_u256, pp_notional_usd := new_notional,
                      pp_entry_price := decimal_to_state rd new_entry_d\<rparr> in
                  case ip_add_collateral a of
                    Some (tok, amt) \<Rightarrow>
                      pp\<lparr>pp_collateral := merge_entry fst snd (\<lambda>a e. (fst e, a)) tok (tok, amt) amt (pp_collateral pp)\<rparr>
                  | None \<Rightarrow> pp)))))))))))))"

definition decrease_cash :: "'n rust_decimal \<Rightarrow> int_parsers \<Rightarrow> decrease_perp_action \<Rightarrow> u256 \<Rightarrow> u256 \<Rightarrow> ('n \<times> i256) reducer_result" where
  "decrease_cash rd ip a open_size delta_size =
     (let live = dp_live_inputs a in
      bind_result (u256_to_decimal rd open_size) (\<lambda>old_size_d.
      bind_result (u256_to_decimal rd delta_size) (\<lambda>delta_size_d.
      bind_result (ok_or (Invariant (LibError ''decrease_perp: pnl parse''))
        (rd_from_radix_10 rd (i256_to_string (lf_value (cpli_unrealized_pnl_now live))))) (\<lambda>pnl_d.
        let realized = rd_div rd (rd_mul rd pnl_d delta_size_d) old_size_d in
        bind_result (derived_parse_decimal rd (lf_value (cpli_mark_price live))) (\<lambda>mark.
          let fee = fee_of rd (rd_mul rd delta_size_d mark) (lf_value (cpli_fee_bp live)) in
          bind_result (ok_or (Invariant (LibError ''decrease_perp: funding parse''))
            (rd_from_radix_10 rd (i256_to_string (lf_value (cpli_funding_accrued live))))) (\<lambda>funding_d.
            let cash_delta_str = rd_to_string rd (rd_trunc rd (rd_add rd (rd_sub rd realized fee) funding_d)) in
            bind_result (ok_or (Invariant (BadDecimalIn ''decrease_perp: cash_delta overflow'' cash_delta_str))
              (ip_i256_from_dec_str ip cash_delta_str)) (\<lambda>cash_delta. Ok (mark, cash_delta))))))))"

definition apply_decrease_perp :: "'n rust_decimal \<Rightarrow> int_parsers \<Rightarrow> position_codec \<Rightarrow> decrease_perp_action reducer" where
  "apply_decrease_perp rd ip cd a w ctx =
     (if is_orderbook_venue (dp_venue a) then
        Err (Invariant (Text (''decrease_perp: orderbook venue '' @ perp_venue_tag (dp_venue a) @
          '' requires PlaceOrderAction (with reduce_only=true), not DecreasePerpAction'')))
      else
        let pid = dp_position_id a in
        bind_result (perp_at w pid ''decrease_perp'') (\<lambda>old_perp.
        bind_result (resolve_size_base rd ip (dp_size a) (lf_value (cpli_mark_price (dp_live_inputs a)))) (\<lambda>delta_size.
          if delta_size = 0 then Err (Invariant (Text ''decrease_perp: resolved delta size is zero''))
          else if delta_size > pp_size_base old_perp then
            Err (Invariant (Text (''decrease_perp: delta size '' @ dec_word delta_size @ '' > open size_base '' @
              dec_word (pp_size_base old_perp))))
          else if delta_size = pp_size_base old_perp then
            Err (Invariant (Text ''decrease_perp: delta size equals open size - use ClosePerpAction for full close''))
          else
            bind_result (decrease_cash rd ip a (pp_size_base old_perp) delta_size) (\<lambda>(mark, cash_delta).
            bind_result (first_collateral ''decrease_perp'' pid old_perp) (\<lambda>(collateral_token, _).
            bind_result (settle_cash ip ''decrease_perp: abs U256 parse'' w delta_new (ref_key collateral_token) cash_delta) (\<lambda>d.
            bind_result (checked_sub_or ''decrease_perp: size subtraction underflow'' (pp_size_base old_perp) delta_size) (\<lambda>new_size.
            bind_result (u256_to_decimal rd new_size) (\<lambda>new_size_d.
            bind_result (trunc_u256 rd ip ''decrease_perp: notional U256 parse'' (rd_mul rd new_size_d mark)) (\<lambda>new_notional.
              upsert_perp_position cd w d pid (on_perp (\<lambda>pp.
                pp\<lparr>pp_size_base := new_size, pp_notional_usd := new_notional\<rparr>)))))))))))"

definition close_cash :: "'n rust_decimal \<Rightarrow> int_parsers \<Rightarrow> close_perp_action \<Rightarrow> u256 \<Rightarrow> (i256 \<times> i256) reducer_result" where
  "close_cash rd ip a size_base =
     (let live = cp_live_inputs a in
      bind_result (notional_usd rd size_base (lf_value (cpli_mark_price live))) (\<lambda>notional.
        let fee_str = rd_to_string rd (rd_trunc rd (fee_of rd notional (lf_value (cpli_fee_bp live)))) in
        bind_result (ok_or (Invariant (BadDecimalIn ''close_perp: fee overflow'' fee_str)) (ip_i256_from_dec_str ip fee_str)) (\<lambda>fee_signed.
        bind_result (ok_or (Invariant (Text ''close_perp: cash_delta subtraction overflow''))
          (checked_sub_i (lf_value (cpli_unrealized_pnl_now live)) fee_signed)) (\<lambda>rest.
        bind_result (ok_or (Invariant (Text ''close_perp: cash_delta addition overflow''))
          (checked_add_i rest (lf_value (cpli_funding_accrued live)))) (\<lambda>cash_delta. Ok (fee_signed, cash_delta))))))"

definition apply_close_perp :: "'n rust_decimal \<Rightarrow> int_parsers \<Rightarrow> close_perp_action reducer" where
  "apply_close_perp rd ip a w ctx =
     (if cp_size a \<noteq> None then
        Err (Invariant (Text ''close_perp: partial close (size = Some) deferred - use DecreasePerpAction''))
      else
        let pid = cp_position_id a in
        bind_result (perp_at w pid ''close_perp'') (\<lambda>perp.
        bind_result (close_cash rd ip a (pp_size_base perp)) (\<lambda>(_, cash_delta).
        bind_result (first_collateral ''close_perp'' pid perp) (\<lambda>(collateral_token, locked_amount).
        bind_result (credit w delta_new (ref_key collateral_token) locked_amount) (\<lambda>d.
        bind_result (settle_cash ip ''close_perp: cash_delta abs U256 parse'' w d (ref_key collateral_token) cash_delta) (\<lambda>d.
          Ok (push_position (PosClose pid) d)))))))"

section \<open>Margin and leverage\<close>

definition set_first_collateral :: "u256 \<Rightarrow> perp_position \<Rightarrow> perp_position" where
  "set_first_collateral amount pp =
     (case pp_collateral pp of (t, _) # rest \<Rightarrow> pp\<lparr>pp_collateral := (t, amount) # rest\<rparr> | [] \<Rightarrow> pp)"

definition apply_adjust_margin :: "int_parsers \<Rightarrow> position_codec \<Rightarrow> adjust_margin_action reducer" where
  "apply_adjust_margin ip cd a w ctx =
     bind_result (ok_or (MissingField ''adjust_margin.live_inputs'') (am_live_inputs a)) (\<lambda>li.
     bind_result (ok_or (MissingField ''adjust_margin.position_id'') (am_position_id a)) (\<lambda>pid.
     bind_result (perp_at w pid ''adjust_margin'') (\<lambda>perp.
     bind_result (first_collateral ''adjust_margin'' pid perp) (\<lambda>(collateral_token, current_locked).
     bind_result (abs_u256 ip ''adjust_margin: delta U256 parse'' (am_delta a)) (\<lambda>delta_amount.
     bind_result
       (if is_positive (am_delta a) then
          bind_result (debit w delta_new (ref_key collateral_token) delta_amount) (\<lambda>d.
            Ok (d, saturating_add_u current_locked delta_amount))
        else if is_negative (am_delta a) then
          (if lf_value (amli_free_margin_after li) = 0 then
             Err (Invariant (Text ''adjust_margin: withdrawal would leave zero free margin (liquidatable)''))
           else if current_locked < delta_amount then
             Err (Invariant (Text (''adjust_margin: withdraw '' @ dec_word delta_amount @ '' > locked '' @ dec_word current_locked)))
           else
             bind_result (credit w delta_new (ref_key collateral_token) delta_amount) (\<lambda>d.
               Ok (d, current_locked - delta_amount)))
        else Err (Invariant (Text ''adjust_margin: delta is zero (no-op)''))) (\<lambda>(d, new_collateral_amount).
       upsert_perp_position cd w d pid (on_perp (set_first_collateral new_collateral_amount))))))))"

definition apply_change_leverage :: "'n rust_decimal \<Rightarrow> position_codec \<Rightarrow> change_leverage_action reducer" where
  "apply_change_leverage rd cd a w ctx =
     bind_result (ok_or (MissingField ''change_leverage.live_inputs'') (clv_live_inputs a)) (\<lambda>li.
     bind_result (derived_parse_decimal rd (clv_new_leverage a)) (\<lambda>new_lev.
     bind_result (derived_parse_decimal rd (lf_value (clvi_max_leverage li))) (\<lambda>max_lev.
       if \<not> rd_is_zero rd max_lev \<and> rd_less rd max_lev new_lev then
         Err (Invariant (Text (''change_leverage: requested '' @ rd_to_string rd new_lev @ '' > max '' @ rd_to_string rd max_lev)))
       else if rd_is_zero rd new_lev then Err (Invariant (Text ''change_leverage: leverage must be > 0''))
       else
         try_fold (\<lambda>d pid.
           bind_result (perp_at w pid ''change_leverage'') (\<lambda>_.
             let new_liq = map_option snd (List.find (\<lambda>(i, _). i = pid) (lf_value (clvi_new_liq_prices li))) in
             upsert_perp_position cd w d pid (on_perp (\<lambda>pp.
               let pp = pp\<lparr>pp_leverage := live_field_new (clv_new_leverage a) UserSupplied (ec_now ctx)\<rparr> in
               case new_liq of
                 Some liq \<Rightarrow> pp\<lparr>pp_liq_price := live_field_new liq UserSupplied (ec_now ctx)\<rparr>
               | None \<Rightarrow> pp))))
           delta_new (lf_value (clvi_affected_positions li)))))"

definition apply_change_margin_mode :: "position_codec \<Rightarrow> change_margin_mode_action reducer" where
  "apply_change_margin_mode cd a w ctx =
     try_fold (\<lambda>d pid.
       bind_result (perp_at w pid ''change_margin_mode'') (\<lambda>_.
         let new_collat_amount = map_option snd (List.find (\<lambda>(i, _). i = pid) (lf_value (cmm_margin_reallocation a))) in
         upsert_perp_position cd w d pid (on_perp (\<lambda>pp.
           let pp = pp\<lparr>pp_margin_mode := cmm_new_mode a\<rparr> in
           case new_collat_amount of Some amt \<Rightarrow> set_first_collateral amt pp | None \<Rightarrow> pp))))
       delta_new (lf_value (cmm_affected_positions a))"

section \<open>Orders and funding\<close>

definition MAX_OPEN_ORDERS_SOFT_CAP :: u32 where
  "MAX_OPEN_ORDERS_SOFT_CAP = 100"

definition order_pending :: "place_order_action \<Rightarrow> eval_context \<Rightarrow> string \<Rightarrow> u256 \<Rightarrow> price \<Rightarrow> perp_order_kind \<Rightarrow> time option \<Rightarrow> pending_tx" where
  "order_pending a ctx pending_id size_base p kind until =
     PendingTx pending_id
       (PerpVenueOrder (perp_venue_ref (pla_venue a)) (pla_market a) (pla_side a) size_base p kind (pla_reduce_only a))
       NoCommitment delta_new (active_lifecycle until) UserSupplied (ec_now ctx) []"

definition limit_pending ::
  "'n rust_decimal \<Rightarrow> int_parsers \<Rightarrow> place_order_action \<Rightarrow> place_order_live_inputs \<Rightarrow> price \<Rightarrow> time_in_force \<Rightarrow> eval_context \<Rightarrow>
   pending_tx reducer_result" where
  "limit_pending rd ip a li p time_in_force ctx =
     (if lf_value (poli_open_orders_count li) \<ge> MAX_OPEN_ORDERS_SOFT_CAP then
        Err (Invariant (Text (''place_order: open_orders_count '' @ dec_word (lf_value (poli_open_orders_count li)) @
          '' >= soft cap '' @ dec_word MAX_OPEN_ORDERS_SOFT_CAP)))
      else
        bind_result (derived_parse_decimal rd p) (\<lambda>limit.
        bind_result (derived_parse_decimal rd (fst (lf_value (poli_best_bid_ask li)))) (\<lambda>bid.
        bind_result (derived_parse_decimal rd (snd (lf_value (poli_best_bid_ask li)))) (\<lambda>ask.
          let mid = rd_div rd (rd_add rd bid ask) (rd_from_u32 rd 2);
              bracket_lo = rd_mul rd mid (rd_new rd 5 1);
              bracket_hi = rd_mul rd mid (rd_new rd 15 1) in
          if rd_less rd limit bracket_lo \<or> rd_less rd bracket_hi limit then
            Err (Invariant (Text (''place_order: limit price '' @ rd_to_string rd limit @ '' outside 50% of mid-spread bracket'')))
          else
            bind_result (resolve_size_base rd ip (pla_size a) (lf_value (poli_mark_price li))) (\<lambda>size_base.
              if size_base = 0 then Err (Invariant (Text ''place_order: resolved size_base is zero''))
              else
                Ok (order_pending a ctx
                  (pending_id_for_limit_order (pla_venue a) (mr_symbol (pla_market a)) (pla_side a) p) size_base p PerpLimit
                  (case time_in_force of Gtd until \<Rightarrow> Some until | _ \<Rightarrow> None)))))))"

fun stop_kind_debug :: "stop_order_kind \<Rightarrow> string" where
  "stop_kind_debug SO_StopMarket = ''StopMarket''"
| "stop_kind_debug SO_StopLimit = ''StopLimit''"
| "stop_kind_debug SO_TakeProfit = ''TakeProfit''"
| "stop_kind_debug SO_TakeProfitLimit = ''TakeProfitLimit''"

definition side_debug :: "perp_side \<Rightarrow> string" where
  "side_debug s = (case s of Long \<Rightarrow> ''Long'' | Short \<Rightarrow> ''Short'')"

definition wants_below :: "stop_order_kind \<Rightarrow> perp_side \<Rightarrow> bool" where
  "wants_below kind side =
     (let is_stop = kind = SO_StopMarket \<or> kind = SO_StopLimit
      in (is_stop \<and> side = Long) \<or> (\<not> is_stop \<and> side = Short))"

definition stop_pending ::
  "'n rust_decimal \<Rightarrow> int_parsers \<Rightarrow> place_order_action \<Rightarrow> place_order_live_inputs \<Rightarrow> price \<Rightarrow> stop_order_kind \<Rightarrow> price option \<Rightarrow>
   eval_context \<Rightarrow> pending_tx reducer_result" where
  "stop_pending rd ip a li trigger_price order_kind limit_price ctx =
     (if (order_kind = SO_StopLimit \<or> order_kind = SO_TakeProfitLimit) \<and> limit_price = None then
        Err (Invariant (Text (''place_order: '' @ stop_kind_debug order_kind @ '' requires limit_price'')))
      else
        bind_result (derived_parse_decimal rd trigger_price) (\<lambda>trigger.
        bind_result (derived_parse_decimal rd (lf_value (poli_mark_price li))) (\<lambda>mark.
          let valid_side = (if wants_below order_kind (pla_side a) then rd_less rd trigger mark else rd_less rd mark trigger) in
          if \<not> valid_side then
            Err (Invariant (Text (''place_order: trigger '' @ rd_to_string rd trigger @ '' is on the wrong side of mark '' @
              rd_to_string rd mark @ '' for '' @ stop_kind_debug order_kind @ '' '' @ side_debug (pla_side a))))
          else
            bind_result (resolve_size_base rd ip (pla_size a) (lf_value (poli_mark_price li))) (\<lambda>size_base.
              Ok (order_pending a ctx
                (pending_id_for_stop_order (pla_venue a) (mr_symbol (pla_market a)) (pla_side a) order_kind trigger_price)
                size_base trigger_price (perp_order_kind_from_stop order_kind) None)))))"

definition twap_pending ::
  "'n rust_decimal \<Rightarrow> int_parsers \<Rightarrow> place_order_action \<Rightarrow> place_order_live_inputs \<Rightarrow> u32 \<Rightarrow> eval_context \<Rightarrow>
   pending_tx reducer_result" where
  "twap_pending rd ip a li duration_minutes ctx =
     bind_result (resolve_size_base rd ip (pla_size a) (lf_value (poli_mark_price li))) (\<lambda>size_base.
       if size_base = 0 then Err (Invariant (Text ''place_order: resolved size_base is zero''))
       else
         Ok (order_pending a ctx
           (pending_id_for_twap_order (pla_venue a) (mr_symbol (pla_market a)) (pla_side a) duration_minutes)
           size_base (lf_value (poli_mark_price li)) PerpLimit None))"

definition apply_place_order :: "'n rust_decimal \<Rightarrow> int_parsers \<Rightarrow> place_order_action reducer" where
  "apply_place_order rd ip a w ctx =
     bind_result (ok_or (MissingField ''place_order.live_inputs'') (pla_live_inputs a)) (\<lambda>li.
     bind_result
       (case pla_order_type a of
          OT_Limit p time_in_force \<Rightarrow> limit_pending rd ip a li p time_in_force ctx
        | OT_Stop trigger_price order_kind limit_price \<Rightarrow> stop_pending rd ip a li trigger_price order_kind limit_price ctx
        | OT_Twap duration_minutes _ \<Rightarrow> twap_pending rd ip a li duration_minutes ctx) (\<lambda>pending.
       Ok (push_pending (PendingAdd pending) delta_new)))"

definition apply_cancel_order :: "cancel_order_action reducer" where
  "apply_cancel_order a w ctx = Ok (push_pending (PendingRemove (cor_order_id a) RR_Cancelled) delta_new)"

definition apply_claim_funding :: "claim_funding_action reducer" where
  "apply_claim_funding a w ctx =
     try_fold (\<lambda>d (token, amount). if amount = 0 then Ok d else credit w d (ref_key token) amount)
       delta_new (lf_value (cfu_claimable a))"

fun apply_perp_action :: "'n rust_decimal \<Rightarrow> int_parsers \<Rightarrow> position_codec \<Rightarrow> perp_action reducer" where
  "apply_perp_action rd ip cd (OpenPosition a) w ctx = apply_open_perp rd ip a w ctx"
| "apply_perp_action rd ip cd (ClosePosition a) w ctx = apply_close_perp rd ip a w ctx"
| "apply_perp_action rd ip cd (IncreasePosition a) w ctx = apply_increase_perp rd ip cd a w ctx"
| "apply_perp_action rd ip cd (DecreasePosition a) w ctx = apply_decrease_perp rd ip cd a w ctx"
| "apply_perp_action rd ip cd (AdjustMargin a) w ctx = apply_adjust_margin ip cd a w ctx"
| "apply_perp_action rd ip cd (ChangeLeverage a) w ctx = apply_change_leverage rd cd a w ctx"
| "apply_perp_action rd ip cd (ChangeMarginMode a) w ctx = apply_change_margin_mode cd a w ctx"
| "apply_perp_action rd ip cd (PlaceOrder a) w ctx = apply_place_order rd ip a w ctx"
| "apply_perp_action rd ip cd (CancelOrder a) w ctx = apply_cancel_order a w ctx"
| "apply_perp_action rd ip cd (ClaimFunding a) w ctx = apply_claim_funding a w ctx"

end
