(* ===== verification/Perp_Positions.thy ===== *)
theory Perp_Positions
  imports Perp_Effect Fixtures
begin

text \<open>
  What the perpetual reducers do to the wallet: the margin an opening takes or locks, the settlement
  of a closed position and the conservation of margin when it is adjusted.
\<close>

section \<open>Helpers\<close>

lemma perp_at_Ok:
  "perp_at w pid action = Ok perp \<longleftrightarrow> (\<exists>p. find_id pid w = Some p \<and> pos_kind p = PerpPosition perp)"
proof (cases "find_id pid w")
  case None
  then show ?thesis
    by (simp add: perp_at_def ok_or_def flip: find_id_def)
next
  case (Some p)
  then show ?thesis
    by (cases "pos_kind p") (simp_all add: perp_at_def ok_or_def flip: find_id_def)
qed

lemma first_collateral_Ok:
  "first_collateral action pid perp = Ok c \<longleftrightarrow> (\<exists>rest. pp_collateral perp = c # rest)"
  by (auto simp: first_collateral_def split: list.splits)

lemma abs_u256_exact: "exact_parsers ip \<Longrightarrow> abs_u256 ip msg x = Ok (unsigned_abs x)"
  by (simp add: abs_u256_def exact_parsers_laws ok_or_def)

text \<open>A signed amount as the deltas carry it: the least value is moved up by one.\<close>

definition moved :: "i256 \<Rightarrow> int" where
  "moved x = max (sint x) (- i256_max)"

lemma cap_unsigned_abs: "cap (unsigned_abs x) = \<bar>moved x\<bar>"
  unfolding cap_def uint_unsigned_abs moved_def using sint_i256_bounds [of x] i256_min_le by linarith

lemma settle_cash_applies:
  assumes "exact_parsers ip" and "builds cd w d w1" and "settle_cash ip msg w d k cash = Ok d'"
    and "capped_balance w1 k = Some x"
  shows "\<exists>w2. builds cd w d' w2 \<and> 0 \<le> x + moved cash \<and> capped_balance w2 k = Some (min (x + moved cash) i256_max) \<and>
    (\<forall>k'. k' \<noteq> k \<longrightarrow> balance_of w2 k' = balance_of w1 k')"
proof -
  consider (gain) "0 < sint cash" "credit w d k (unsigned_abs cash) = Ok d'"
    | (loss) "sint cash < 0" "debit w d k (unsigned_abs cash) = Ok d'"
    | (even) "sint cash = 0" "d' = d"
    using assms(1,3)
    by (auto simp: settle_cash_def abs_u256_exact is_positive_def is_negative_def split: if_splits)
  then show ?thesis
  proof cases
    case gain
    then have "\<bar>moved cash\<bar> = moved cash"
      by (simp add: moved_def)
    with credits.op_step [OF assms(2) gain(2)] assms(4) capped_range [OF assms(4)] show ?thesis
      unfolding cap_unsigned_abs by auto
  next
    case loss
    then have "\<bar>moved cash\<bar> = - moved cash" "moved cash \<le> 0"
      using i256_min_le by (auto simp: moved_def max_def)
    moreover from this(2) have "min (x + moved cash) i256_max = x + moved cash"
      using capped_range [OF assms(4)] by simp
    ultimately show ?thesis
      using debits.op_step [OF assms(2) loss(2)] assms(4) unfolding cap_unsigned_abs by auto
  next
    case even
    then have "moved cash = 0"
      using i256_min_le by (simp add: moved_def)
    with even(2) assms(2,4) capped_range [OF assms(4)] show ?thesis
      by auto
  qed
qed

lemma settle_cash_positions: "settle_cash ip msg w d k cash = Ok d' \<Longrightarrow> position_changes d' = position_changes d"
  by (auto simp: settle_cash_def bind_result_eq_Ok dest!: credit_positions debit_positions split: if_splits)

lemma settle_cash_gas: "settle_cash ip msg w d k cash = Ok d' \<Longrightarrow> gas_paid d' = gas_paid d"
  by (auto simp: settle_cash_def bind_result_eq_Ok dest!: credit_gas debit_gas split: if_splits)

lemma on_perp_id [simp]: "pos_id (on_perp f p) = pos_id p"
  by (simp add: on_perp_def split: position_kind.splits)

lemma on_perp_kind [simp]: "is_perp_kind (pos_kind (on_perp f p)) = is_perp_kind (pos_kind p)"
  by (simp add: on_perp_def split: position_kind.splits)

lemma upsert_perp_gas: "upsert_perp_position cd w d pid mutate = Ok d' \<Longrightarrow> gas_paid d' = gas_paid d"
  by (auto simp: upsert_perp_position_def bind_result_eq_Ok Let_def split: if_splits)

lemma builds_upsert_perp:
  assumes "builds cd w d w1" and "position_changes d = []" and "upsert_perp_position cd w d pid (on_perp f) = Ok d'"
    and "find_id pid w = Some p" and "codec_roundtrips cd (on_perp f p)"
  obtains w2 where "builds cd w d' w2" "ws_tokens w2 = ws_tokens w1"
    "\<forall>j. find_id j w2 = (if j = pid then Some (on_perp f p) else find_id j w)"
proof -
  have d': "d' = push_position (PosUpdate pid (snapshot_patch cd (on_perp f p))) d"
    using assms(3,4) by (auto simp: upsert_perp_position_def effective_position_new [OF assms(2)] ok_or_def split: if_splits)
  have id: "pos_id (on_perp f p) = pid"
    using find_id_pos_id [OF assms(4)] by simp
  with assms(4) have found: "find_id (pos_id (on_perp f p)) w = Some p"
    by simp
  from builds_snapshot [OF assms(1,2) found assms(5)] d' id obtain w2 where w2:
    "builds cd w d' w2" "ws_tokens w2 = ws_tokens w1" "ws_positions w2 = put_position (on_perp f p) w"
    by auto
  moreover have "find_id j w2 = (if j = pid then Some (on_perp f p) else find_id j w)" for j
    using find_put_position(1) [OF found, of j] w2(3) id by (simp add: find_id_def)
  ultimately show ?thesis
    using that by blast
qed

section \<open>Reducers\<close>

lemma open_perp_parts:
  assumes "apply_open_perp rd ip a w ctx = Ok d"
  obtains m n liq e nd notional where
    "dispatch_required_initial_margin rd ip a = Ok m" "m \<le> pas_free_margin_usd (lf_value (opli_user_account_state (op_live_inputs a)))"
    "resolve_size_base rd ip (op_size a) (lf_value (opli_mark_price (op_live_inputs a))) = Ok n"
    "n \<le> lf_value (opli_available_oi (op_live_inputs a))" "open_liq_price rd ip a = Ok liq"
    "if is_orderbook_venue (op_venue a)
     then d = push_pending (PendingAdd (open_pending a ctx n m (new_perp_position a ctx n notional liq))) delta_new
     else debit w delta_new (ref_key (fst (op_collateral a))) (snd (op_collateral a)) = Ok e \<and>
       open_position w e (new_perp_position a ctx n notional liq) = Ok d"
  using assms by (auto simp: apply_open_perp_def Let_def bind_result_eq_Ok not_less split: if_splits)

lemma opened_applies:
  assumes "debit w delta_new (ref_key (fst c)) (snd c) = Ok e" and "open_position w e pos = Ok d"
  shows "\<exists>w'. apply_delta cd w d = Ok w' \<and> find_id (pos_id pos) w = None \<and> pending_changes d = [] \<and>
    (\<forall>k. capped_balance w' k = map_option (\<lambda>x. x - total_of k [c]) (capped_balance w k)) \<and>
    (\<forall>j. find_id j w' = (if j = pos_id pos then Some pos else find_id j w))"
proof -
  from debits.op_step_balances [OF builds_new assms(1), of cd] obtain w1 where w1: "builds cd w e w1"
    "\<forall>k. capped_balance w1 k = map_option (\<lambda>x. x - total_of k [c]) (capped_balance w k)"
    unfolding debits_flow by auto
  from w1(1) _ assms(2) obtain w2 where w2: "builds cd w d w2" "ws_tokens w2 = ws_tokens w1" "find_id (pos_id pos) w = None"
    "\<forall>j. find_id j w2 = (if j = pos_id pos then Some pos else find_id j w)"
    by (rule builds_open) (use debit_positions [OF assms(1)] in simp)
  moreover have "pending_changes d = []"
    using assms by (auto simp: open_position_def push_position_def push_token_def delta_new_def dest!: debit_Ok_push split: if_splits)
  ultimately show ?thesis
    using w1(2) same_tokens_balance [OF w2(2)] by (auto simp: builds_def capped_balance_def)
qed

lemma close_perp_parts:
  assumes "apply_close_perp rd ip a w ctx = Ok d"
  obtains p perp fee cash tok locked rest e1 e2 where
    "find_id (cp_position_id a) w = Some p" "pos_kind p = PerpPosition perp"
    "close_cash rd ip a (pp_size_base perp) = Ok (fee, cash)" "pp_collateral perp = (tok, locked) # rest"
    "credit w delta_new (ref_key tok) locked = Ok e1"
    "settle_cash ip ''close_perp: cash_delta abs U256 parse'' w e1 (ref_key tok) cash = Ok e2"
    "d = push_position (PosClose (cp_position_id a)) e2"
  using assms
  by (auto simp: apply_close_perp_def Let_def bind_result_eq_Ok perp_at_Ok first_collateral_Ok split: if_splits)

lemma close_cash_Ok:
  assumes "close_cash rd ip a size_base = Ok (fee, cash)"
  obtains notional where "notional_usd rd size_base (lf_value (cpli_mark_price (cp_live_inputs a))) = Ok notional"
    "ip_i256_from_dec_str ip (rd_to_string rd (rd_trunc rd (fee_of rd notional (lf_value (cpli_fee_bp (cp_live_inputs a)))))) = Some fee"
    "sint cash = sint (lf_value (cpli_unrealized_pnl_now (cp_live_inputs a))) - sint fee +
       sint (lf_value (cpli_funding_accrued (cp_live_inputs a)))"
  using assms
  by (auto simp: close_cash_def Let_def bind_result_eq_Ok dest!: checked_i_Some)

lemma adjust_margin_parts:
  assumes "apply_adjust_margin ip cd a w ctx = Ok d" and "exact_parsers ip"
  obtains pid p perp tok locked rest e new where
    "am_position_id a = Some pid" "find_id pid w = Some p" "pos_kind p = PerpPosition perp"
    "pp_collateral perp = (tok, locked) # rest"
    "0 < sint (am_delta a) \<and> debit w delta_new (ref_key tok) (unsigned_abs (am_delta a)) = Ok e \<and>
       new = saturating_add_u locked (unsigned_abs (am_delta a)) \<or>
     sint (am_delta a) < 0 \<and> unsigned_abs (am_delta a) \<le> locked \<and>
       credit w delta_new (ref_key tok) (unsigned_abs (am_delta a)) = Ok e \<and> new = locked - unsigned_abs (am_delta a)"
    "upsert_perp_position cd w e pid (on_perp (set_first_collateral new)) = Ok d"
  using assms
  by (auto simp: apply_adjust_margin_def bind_result_eq_Ok ok_or_def perp_at_Ok first_collateral_Ok abs_u256_exact
      is_positive_def is_negative_def not_less split: if_splits option.splits)

lemma uint_saturating_add:
  fixes a b :: u256
  shows "uint (saturating_add_u a b) = min (uint a + uint b) (2 ^ 256 - 1)"
proof -
  have "int (2 ^ 256 - 1) = 2 ^ 256 - 1"
    by simp
  then show ?thesis
    unfolding uint_nat unat_saturating_add_u len256 of_nat_min of_nat_add by (simp only:)
qed

text \<open>The two directions of a margin adjustment on the wallet and on the locked amount.\<close>

lemma adjust_flow:
  assumes "0 < sint x \<and> debit w delta_new k (unsigned_abs x) = Ok e \<and> m = saturating_add_u locked (unsigned_abs x) \<or>
    sint x < 0 \<and> unsigned_abs x \<le> locked \<and> credit w delta_new k (unsigned_abs x) = Ok e \<and> m = locked - unsigned_abs x"
  shows "\<exists>w1 b. builds cd w e w1 \<and> position_changes e = [] \<and> uint m = min (uint locked + sint x) (2 ^ 256 - 1) \<and>
    capped_balance w k = Some b \<and> 0 \<le> b - moved x \<and> capped_balance w1 k = Some (min (b - moved x) i256_max) \<and>
    (\<forall>k'. k' \<noteq> k \<longrightarrow> balance_of w1 k' = balance_of w k')"
  using assms
proof (elim disjE conjE)
  assume pos: "0 < sint x" and e: "debit w delta_new k (unsigned_abs x) = Ok e" and m: "m = saturating_add_u locked (unsigned_abs x)"
  have moved: "\<bar>moved x\<bar> = moved x" "0 \<le> moved x"
    using pos by (simp_all add: moved_def)
  have "uint m = min (uint locked + uint (unsigned_abs x)) (2 ^ 256 - 1)"
    unfolding m by (rule uint_saturating_add)
  then have "uint m = min (uint locked + sint x) (2 ^ 256 - 1)"
    using pos by (simp add: uint_unsigned_abs)
  moreover from debits.op_step [OF builds_new e, of cd] obtain w1 b where w1: "builds cd w e w1" "capped_balance w k = Some b"
    "capped_balance w1 k = Some (b - moved x)" "0 \<le> b - moved x" "\<forall>k'. k' \<noteq> k \<longrightarrow> balance_of w1 k' = balance_of w k'"
    unfolding cap_unsigned_abs moved(1) by blast
  moreover have "min (b - moved x) i256_max = b - moved x"
    using capped_range [OF w1(2)] moved(2) by simp
  ultimately show ?thesis
    using debit_positions [OF e] by auto
next
  assume neg: "sint x < 0" and le: "unsigned_abs x \<le> locked" and e: "credit w delta_new k (unsigned_abs x) = Ok e"
    and m: "m = locked - unsigned_abs x"
  have moved: "\<bar>moved x\<bar> = - moved x" "moved x \<le> 0"
    using neg i256_min_le by (auto simp: moved_def max_def)
  have "uint m = uint locked + sint x"
    using le neg by (simp add: m uint_minus_simple_alt [THEN iffD1] uint_unsigned_abs)
  moreover have "uint locked + sint x \<le> 2 ^ 256 - 1"
    using neg uint_bounded [of locked] by simp
  moreover from credits.op_step [OF builds_new e, of cd] obtain w1 b where w1: "builds cd w e w1" "capped_balance w k = Some b"
    "capped_balance w1 k = Some (min (b - moved x) i256_max)" "\<forall>k'. k' \<noteq> k \<longrightarrow> balance_of w1 k' = balance_of w k'"
    unfolding cap_unsigned_abs moved(1) by auto
  moreover have "0 \<le> b - moved x"
    using capped_range [OF w1(2)] moved(2) by simp
  ultimately show ?thesis
    using credit_positions [OF e] by auto
qed

lemma apply_perp_action_gasless: "apply_perp_action rd ip cd a w ctx = Ok d \<Longrightarrow> gas_paid d = None"
proof (cases a)
  case (OpenPosition x)
  assume "apply_perp_action rd ip cd a w ctx = Ok d"
  then have "apply_open_perp rd ip x w ctx = Ok d"
    by (simp add: OpenPosition)
  then show ?thesis
    by (rule open_perp_parts) (auto dest!: open_position_gas debit_gas split: if_splits)
next
  case (ClosePosition x)
  assume "apply_perp_action rd ip cd a w ctx = Ok d"
  then have "apply_close_perp rd ip x w ctx = Ok d"
    by (simp add: ClosePosition)
  then show ?thesis
    by (rule close_perp_parts) (auto dest!: settle_cash_gas credit_gas)
next
  case (IncreasePosition x)
  assume "apply_perp_action rd ip cd a w ctx = Ok d"
  then show ?thesis
    by (auto simp: IncreasePosition apply_increase_perp_def bind_result_eq_Ok Let_def
        dest!: upsert_perp_gas debit_gas split: if_splits option.splits)
next
  case (DecreasePosition x)
  assume "apply_perp_action rd ip cd a w ctx = Ok d"
  then show ?thesis
    by (auto simp: DecreasePosition apply_decrease_perp_def bind_result_eq_Ok Let_def
        dest!: upsert_perp_gas settle_cash_gas split: if_splits prod.splits)
next
  case (AdjustMargin x)
  assume "apply_perp_action rd ip cd a w ctx = Ok d"
  then show ?thesis
    by (auto simp: AdjustMargin apply_adjust_margin_def bind_result_eq_Ok Let_def
        dest!: upsert_perp_gas credit_gas debit_gas split: if_splits prod.splits)
next
  case (ChangeLeverage x)
  assume "apply_perp_action rd ip cd a w ctx = Ok d"
  then show ?thesis
    by (auto simp: ChangeLeverage apply_change_leverage_def bind_result_eq_Ok Let_def split: if_splits
        elim!: try_fold_gasless dest!: upsert_perp_gas)
next
  case (ChangeMarginMode x)
  assume "apply_perp_action rd ip cd a w ctx = Ok d"
  then show ?thesis
    by (auto simp: ChangeMarginMode apply_change_margin_mode_def bind_result_eq_Ok Let_def
        elim!: try_fold_gasless dest!: upsert_perp_gas)
next
  case (ClaimFunding x)
  assume "apply_perp_action rd ip cd a w ctx = Ok d"
  then show ?thesis
    by (auto simp: ClaimFunding apply_claim_funding_def elim!: try_fold_gasless dest!: credit_gas split: if_splits)
qed (auto simp: apply_place_order_def apply_cancel_order_def bind_result_eq_Ok)

section \<open>Sample positions\<close>

definition perp_market :: market_ref where
  "perp_market = \<lparr>mr_symbol = ''ETH'', mr_venue = \<lparr>vr_name = ''vertex'', vr_chain = None\<rparr>\<rparr>"

definition sample_perp :: perp_position where
  "sample_perp =
     \<lparr>pp_venue = perp_venue_ref (Vertex arbitrum), pp_market = perp_market, pp_side = Long, pp_size_base = 2, pp_notional_usd = 200,
      pp_collateral = [(TokenRef usdc_key, 200), (TokenRef eth_key, 3)], pp_entry_price = Decimal ''90'', pp_margin_mode = Isolated,
      pp_mark_price = live_field_new (Decimal ''100'') UserSupplied (Time 1), pp_liq_price = live_field_new None UserSupplied (Time 1),
      pp_unrealized_pnl = live_field_new 0 UserSupplied (Time 1), pp_funding_owed = live_field_new 0 UserSupplied (Time 1),
      pp_leverage = live_field_new (Decimal ''2'') UserSupplied (Time 1)\<rparr>"

definition perp_holder :: "perp_position \<Rightarrow> position" where
  "perp_holder perp =
     \<lparr>pos_id = ''p'', pos_protocol = protocol_ref_new ''vertex'', pos_chain = None, pos_kind = PerpPosition perp,
      pos_primitives_synced_at = Time 0, pos_primitives_source = UserSupplied\<rparr>"

definition perp_wallet :: wallet_state where
  "perp_wallet = sample_wallet\<lparr>ws_positions := [perp_holder sample_perp]\<rparr>"

text \<open>A loss of 50, a fee of one percent of the notional 200 and 7 of funding.\<close>

definition sample_close :: close_perp_action where
  "sample_close =
     \<lparr>cp_venue = Vertex arbitrum, cp_position_id = ''p'', cp_size = None, cp_slippage_bp = 50,
      cp_live_inputs = \<lparr>cpli_mark_price = live_field_new (Decimal ''100'') UserSupplied (Time 1),
        cpli_unrealized_pnl_now = live_field_new (- 50) UserSupplied (Time 1),
        cpli_funding_accrued = live_field_new 7 UserSupplied (Time 1), cpli_fee_bp = live_field_new 100 UserSupplied (Time 1)\<rparr>\<rparr>"

definition sample_open :: open_perp_action where
  "sample_open =
     \<lparr>op_venue = Vertex arbitrum, op_market = perp_market, op_side = Long, op_size = BaseAmount 2, op_leverage = Decimal ''2'',
      op_collateral = (TokenRef usdc_key, 150), op_margin_mode = Isolated, op_slippage_bp = 50, op_reduce_only = False,
      op_live_inputs =
        \<lparr>opli_mark_price = live_field_new (Decimal ''100'') UserSupplied (Time 1),
         opli_oracle_price = live_field_new (Decimal ''100'') UserSupplied (Time 1),
         opli_funding_rate = live_field_new (Decimal ''0'') UserSupplied (Time 1),
         opli_available_oi = live_field_new 10 UserSupplied (Time 1), opli_max_leverage = live_field_new (Decimal ''20'') UserSupplied (Time 1),
         opli_initial_margin_bp = live_field_new 500 UserSupplied (Time 1), opli_maintenance_bp = live_field_new 250 UserSupplied (Time 1),
         opli_fee_taker_bp = live_field_new 100 UserSupplied (Time 1), opli_fee_maker_bp = live_field_new 0 UserSupplied (Time 1),
         opli_user_account_state = live_field_new \<lparr>pas_total_collateral_usd = 1000, pas_used_margin_usd = 0, pas_free_margin_usd = 1000,
           pas_open_positions = []\<rparr> UserSupplied (Time 1)\<rparr>\<rparr>"

definition sample_adjust :: adjust_margin_action where
  "sample_adjust =
     \<lparr>am_venue = Vertex arbitrum, am_position_id = Some ''p'', am_market = None, am_side = None, am_delta = - 120,
      am_live_inputs = Some
        \<lparr>amli_position_state = live_field_new \<lparr>ppl_size_base = 2, ppl_notional_usd = 200, ppl_entry_price = Decimal ''90'',
           ppl_mark_price = Decimal ''100'', ppl_liq_price = None, ppl_unrealized_pnl = 20\<rparr> UserSupplied (Time 1),
         amli_free_margin_after = live_field_new 80 UserSupplied (Time 1)\<rparr>\<rparr>"

text \<open>A codec that encodes the sample position by the margin of its first collateral entry.\<close>

definition margin_codec :: position_codec where
  "margin_codec =
     \<lparr>pc_to_value = (\<lambda>p. case pos_kind p of
          PerpPosition perp \<Rightarrow> Some (JString (dec_word (snd (hd (pp_collateral perp)))))
        | _ \<Rightarrow> None),
      pc_from_value = (\<lambda>j. case j of
          JString s \<Rightarrow> map_option (\<lambda>n. perp_holder (set_first_collateral (of_nat n) sample_perp)) (read_nat s)
        | _ \<Rightarrow> None)\<rparr>"

lemma perp_wallet_facts:
  "find_id ''p'' perp_wallet = Some (perp_holder sample_perp)" "ws_positions perp_wallet = [perp_holder sample_perp]"
  "pos_kind (perp_holder perp) = PerpPosition perp" "pp_size_base sample_perp = 2"
  "pp_collateral sample_perp = [(TokenRef usdc_key, 200), (TokenRef eth_key, 3)]"
  "balance_of perp_wallet = balance_of sample_wallet"
  by (simp_all add: find_id_def perp_wallet_def perp_holder_def sample_perp_def)
    (rule same_tokens_balance, simp)

lemma sample_balances: "capped_balance sample_wallet usdc_key = Some 1000" "balance_of sample_wallet eth_key = Some 5"
  by (simp_all add: capped_balance_def sample_balance cap_def i256_max_def balance_of_def)

lemma margin_codec_roundtrips:
  "codec_roundtrips margin_codec (on_perp (set_first_collateral m) (perp_holder sample_perp))"
  by (simp add: codec_roundtrips_def margin_codec_def on_perp_def perp_holder_def set_first_collateral_def sample_perp_def dec_word_def)

section \<open>Properties\<close>

text \<open>
  C18. Closing a perpetual position settles it exactly: the first collateral entry's margin is returned to the
  wallet, then the profit or loss less the truncated fee plus funding is added to the same token, a loss being
  covered by what is there; no other balance changes, so further collateral entries are not returned, and
  exactly the positions of that id are gone.
\<close>

theorem close_perp_exact:
  assumes "apply_close_perp rd ip a w ctx = Ok d" and "exact_parsers ip"
  shows "\<exists>w' p perp tok locked rest notional fee cash x y.
    find_id (cp_position_id a) w = Some p \<and> pos_kind p = PerpPosition perp \<and> pp_collateral perp = (tok, locked) # rest \<and>
    notional_usd rd (pp_size_base perp) (lf_value (cpli_mark_price (cp_live_inputs a))) = Ok notional \<and>
    ip_i256_from_dec_str ip (rd_to_string rd (rd_trunc rd (fee_of rd notional (lf_value (cpli_fee_bp (cp_live_inputs a)))))) = Some fee \<and>
    sint cash = sint (lf_value (cpli_unrealized_pnl_now (cp_live_inputs a))) - sint fee +
      sint (lf_value (cpli_funding_accrued (cp_live_inputs a))) \<and>
    apply_delta cd w d = Ok w' \<and> capped_balance w (ref_key tok) = Some x \<and> y = min (x + cap locked) i256_max \<and>
    0 \<le> y + moved cash \<and> capped_balance w' (ref_key tok) = Some (min (y + moved cash) i256_max) \<and>
    (\<forall>k. k \<noteq> ref_key tok \<longrightarrow> balance_of w' k = balance_of w k) \<and>
    ws_positions w' = filter (\<lambda>q. pos_id q \<noteq> cp_position_id a) (ws_positions w)"
proof -
  from assms(1) obtain p perp fee cash tok locked rest e1 e2 where
    p: "find_id (cp_position_id a) w = Some p" "pos_kind p = PerpPosition perp" "pp_collateral perp = (tok, locked) # rest"
    and cash: "close_cash rd ip a (pp_size_base perp) = Ok (fee, cash)"
    and e1: "credit w delta_new (ref_key tok) locked = Ok e1"
    and e2: "settle_cash ip ''close_perp: cash_delta abs U256 parse'' w e1 (ref_key tok) cash = Ok e2"
    and d: "d = push_position (PosClose (cp_position_id a)) e2"
    by (rule close_perp_parts)
  from credits.op_step [OF builds_new e1, of cd] obtain w1 x where w1: "builds cd w e1 w1"
    "capped_balance w (ref_key tok) = Some x" "capped_balance w1 (ref_key tok) = Some (min (x + cap locked) i256_max)"
    "\<forall>k. k \<noteq> ref_key tok \<longrightarrow> balance_of w1 k = balance_of w k"
    by blast
  from settle_cash_applies [OF assms(2) w1(1) e2 w1(3)] obtain w2 where w2: "builds cd w e2 w2"
    "0 \<le> min (x + cap locked) i256_max + moved cash"
    "capped_balance w2 (ref_key tok) = Some (min (min (x + cap locked) i256_max + moved cash) i256_max)"
    "\<forall>k. k \<noteq> ref_key tok \<longrightarrow> balance_of w2 k = balance_of w1 k"
    by blast
  have "ws_positions w2 = ws_positions w"
    using builds_positions [OF w2(1)] settle_cash_positions [OF e2] credit_positions [OF e1] by simp
  then have "apply_position_change cd w2 (PosClose (cp_position_id a)) =
      Ok (w2\<lparr>ws_positions := filter (\<lambda>q. pos_id q \<noteq> cp_position_id a) (ws_positions w)\<rparr>)" (is "_ = Ok ?w'")
    using find_id_pos_id [OF p(1)] length_filter_less [of p "ws_positions w" "\<lambda>q. pos_id q \<noteq> cp_position_id a"] by simp
  from builds_push_position [OF w2(1) this] have "apply_delta cd w d = Ok ?w'"
    by (simp add: d builds_def)
  moreover have "balance_of ?w' = balance_of w2"
    by (rule same_tokens_balance) simp
  moreover obtain notional where
    "notional_usd rd (pp_size_base perp) (lf_value (cpli_mark_price (cp_live_inputs a))) = Ok notional"
    "ip_i256_from_dec_str ip (rd_to_string rd (rd_trunc rd (fee_of rd notional (lf_value (cpli_fee_bp (cp_live_inputs a)))))) = Some fee"
    "sint cash = sint (lf_value (cpli_unrealized_pnl_now (cp_live_inputs a))) - sint fee +
      sint (lf_value (cpli_funding_accrued (cp_live_inputs a)))"
    using cash by (rule close_cash_Ok)
  ultimately show ?thesis
    using p w1(2,4) w2(2-4)
    by (intro exI [of _ ?w'] exI [of _ p] exI [of _ perp] exI [of _ tok] exI [of _ locked] exI [of _ rest]
        exI [of _ notional] exI [of _ fee] exI [of _ cash] exI [of _ x] exI [of _ "min (x + cap locked) i256_max"])
      (simp add: capped_balance_def)
qed

theorem close_perp_exact_witness:
  "\<exists>d w'. apply_close_perp int_decimal dec_parsers sample_close perp_wallet sample_ctx = Ok d \<and>
     apply_delta sample_codec perp_wallet d = Ok w' \<and> capped_balance w' usdc_key = Some 1155 \<and>
     balance_of w' eth_key = Some 5 \<and> ws_positions w' = []"
proof -
  have "is_ok (apply_close_perp int_decimal dec_parsers sample_close perp_wallet sample_ctx)"
    by code_simp
  then obtain d where d: "apply_close_perp int_decimal dec_parsers sample_close perp_wallet sample_ctx = Ok d"
    by (auto simp: is_ok_def split: sum.splits)
  have sel: "cp_position_id sample_close = ''p''" "lf_value (cpli_mark_price (cp_live_inputs sample_close)) = Decimal ''100''"
    "sint (lf_value (cpli_unrealized_pnl_now (cp_live_inputs sample_close))) = - 50"
    "sint (lf_value (cpli_funding_accrued (cp_live_inputs sample_close))) = 7" "lf_value (cpli_fee_bp (cp_live_inputs sample_close)) = 100"
    by (simp_all add: sample_close_def live_field_new_def)
  have "notional_usd int_decimal 2 (Decimal ''100'') = Ok 200"
    by code_simp
  moreover have "ip_i256_from_dec_str dec_parsers (rd_to_string int_decimal (rd_trunc int_decimal (fee_of int_decimal 200 100))) = Some 2"
    by code_simp
  ultimately obtain w' cash where w': "apply_delta sample_codec perp_wallet d = Ok w'" "sint cash = - 45"
    "capped_balance w' usdc_key = Some (min (min (1000 + cap 200) i256_max + moved cash) i256_max)"
    "balance_of w' eth_key = Some 5" "ws_positions w' = []"
    using close_perp_exact [OF d dec_parsers_exact, of sample_codec] sample_balances
    unfolding sel perp_wallet_facts(1,2) by (auto simp: perp_wallet_facts capped_balance_def perp_holder_def)
  have "capped_balance w' usdc_key = Some 1155"
    unfolding w'(3) by (simp add: moved_def w'(2) cap_def i256_max_def)
  with d w' show ?thesis
    by blast
qed

text \<open>
  C20. An accepted opening needs no more margin than is free, and its size in base units, not its notional, is within the
  open interest left. On an orderbook venue it only files one pending order that locks exactly the required margin; on
  any other venue it takes exactly the collateral from the wallet, from no other balance, opens the one position of its
  id, with the resolved size and that collateral, and files no pending entry.
\<close>

theorem open_perp_exact:
  assumes "apply_open_perp rd ip a w ctx = Ok d"
  shows "\<exists>m n pos perp. dispatch_required_initial_margin rd ip a = Ok m \<and>
    m \<le> pas_free_margin_usd (lf_value (opli_user_account_state (op_live_inputs a))) \<and>
    resolve_size_base rd ip (op_size a) (lf_value (opli_mark_price (op_live_inputs a))) = Ok n \<and>
    n \<le> lf_value (opli_available_oi (op_live_inputs a)) \<and>
    pos_id pos = synth_position_id (op_venue a) (mr_symbol (op_market a)) (op_side a) \<and>
    pos_kind pos = PerpPosition perp \<and> pp_size_base perp = n \<and> pp_collateral perp = [op_collateral a] \<and>
    (if is_orderbook_venue (op_venue a)
     then \<exists>pt. d = push_pending (PendingAdd pt) delta_new \<and> ptx_commitment pt = HardLock (fst (op_collateral a)) m \<and>
       ptx_fill_effect pt = push_position (PosOpen pos) delta_new
     else \<exists>w'. apply_delta cd w d = Ok w' \<and> find_id (pos_id pos) w = None \<and> pending_changes d = [] \<and>
       (\<forall>k. capped_balance w' k = map_option (\<lambda>x. x - total_of k [op_collateral a]) (capped_balance w k)) \<and>
       (\<forall>j. find_id j w' = (if j = pos_id pos then Some pos else find_id j w)))"
proof -
  from assms obtain m n liq e notional where parts:
    "dispatch_required_initial_margin rd ip a = Ok m" "m \<le> pas_free_margin_usd (lf_value (opli_user_account_state (op_live_inputs a)))"
    "resolve_size_base rd ip (op_size a) (lf_value (opli_mark_price (op_live_inputs a))) = Ok n"
    "n \<le> lf_value (opli_available_oi (op_live_inputs a))"
    and d: "if is_orderbook_venue (op_venue a)
     then d = push_pending (PendingAdd (open_pending a ctx n m (new_perp_position a ctx n notional liq))) delta_new
     else debit w delta_new (ref_key (fst (op_collateral a))) (snd (op_collateral a)) = Ok e \<and>
       open_position w e (new_perp_position a ctx n notional liq) = Ok d"
    by (rule open_perp_parts)
  let ?pos = "new_perp_position a ctx n notional liq"
  obtain perp where pos: "pos_id ?pos = synth_position_id (op_venue a) (mr_symbol (op_market a)) (op_side a)"
    "pos_kind ?pos = PerpPosition perp" "pp_size_base perp = n" "pp_collateral perp = [op_collateral a]"
    by (simp add: new_perp_position_def Let_def)
  show ?thesis
  proof (cases "is_orderbook_venue (op_venue a)")
    case True
    with d have "d = push_pending (PendingAdd (open_pending a ctx n m ?pos)) delta_new"
      by simp
    moreover have "ptx_commitment (open_pending a ctx n m ?pos) = HardLock (fst (op_collateral a)) m"
      "ptx_fill_effect (open_pending a ctx n m ?pos) = push_position (PosOpen ?pos) delta_new"
      by (simp_all add: open_pending_def)
    ultimately show ?thesis
      using parts pos True by (intro exI [of _ m] exI [of _ n] exI [of _ ?pos] exI [of _ perp]) auto
  next
    case False
    with d opened_applies [of w "op_collateral a" e ?pos d cd] show ?thesis
      using parts pos by (intro exI [of _ m] exI [of _ n] exI [of _ ?pos] exI [of _ perp]) simp
  qed
qed

theorem open_perp_exact_witness:
  "\<exists>d w'. apply_open_perp int_decimal dec_parsers sample_open perp_wallet sample_ctx = Ok d \<and>
     apply_delta sample_codec perp_wallet d = Ok w' \<and> capped_balance w' usdc_key = Some 850 \<and>
     find_id ''vertex:ETH:long'' w' \<noteq> None"
proof -
  have "is_ok (apply_open_perp int_decimal dec_parsers sample_open perp_wallet sample_ctx)"
    by code_simp
  then obtain d where d: "apply_open_perp int_decimal dec_parsers sample_open perp_wallet sample_ctx = Ok d"
    by (auto simp: is_ok_def split: sum.splits)
  have sel: "\<not> is_orderbook_venue (op_venue sample_open)" "op_collateral sample_open = (TokenRef usdc_key, 150)"
    "synth_position_id (op_venue sample_open) (mr_symbol (op_market sample_open)) (op_side sample_open) = ''vertex:ETH:long''"
    by (simp_all add: sample_open_def synth_position_id_def perp_market_def)
  obtain w' where "apply_delta sample_codec perp_wallet d = Ok w'" "find_id ''vertex:ETH:long'' w' \<noteq> None"
    "capped_balance w' usdc_key = map_option (\<lambda>x. x - total_of usdc_key [(TokenRef usdc_key, 150)]) (capped_balance perp_wallet usdc_key)"
    using open_perp_exact [OF d, of sample_codec] sel by auto
  then show ?thesis
    using d sample_balances(1) by (auto simp: perp_wallet_facts capped_balance_def total_of_def cap_def i256_max_def)
qed

text \<open>
  C19. Adjusting margin conserves it: what a deposit adds to the position's first collateral entry leaves the wallet, what a
  withdrawal takes from it, never more than is locked, enters the wallet, and no other balance and no other
  position changes. Nothing else of the position changes either: its liquidation price stays as recorded. A zero adjustment is
  refused.
\<close>

theorem adjust_margin_exact:
  assumes "apply_adjust_margin ip cd a w ctx = Ok d" and "exact_parsers ip"
    and "\<forall>p\<in>set (ws_positions w). \<forall>m. codec_roundtrips cd (on_perp (set_first_collateral m) p)"
  shows "\<exists>w' pid p perp tok locked rest m x. am_position_id a = Some pid \<and> find_id pid w = Some p \<and>
    pos_kind p = PerpPosition perp \<and> pp_collateral perp = (tok, locked) # rest \<and> sint (am_delta a) \<noteq> 0 \<and>
    apply_delta cd w d = Ok w' \<and> uint m = min (uint locked + sint (am_delta a)) (2 ^ 256 - 1) \<and>
    (\<forall>j. find_id j w' = (if j = pid then Some (p\<lparr>pos_kind := PerpPosition (perp\<lparr>pp_collateral := (tok, m) # rest\<rparr>)\<rparr>) else find_id j w)) \<and>
    capped_balance w (ref_key tok) = Some x \<and> 0 \<le> x - moved (am_delta a) \<and>
    capped_balance w' (ref_key tok) = Some (min (x - moved (am_delta a)) i256_max) \<and>
    (\<forall>k. k \<noteq> ref_key tok \<longrightarrow> balance_of w' k = balance_of w k)"
proof -
  let ?abs = "unsigned_abs (am_delta a)"
  from assms(1,2) obtain pid p perp tok locked rest e m where
    p: "am_position_id a = Some pid" "find_id pid w = Some p" "pos_kind p = PerpPosition perp"
      "pp_collateral perp = (tok, locked) # rest"
    and flow: "0 < sint (am_delta a) \<and> debit w delta_new (ref_key tok) ?abs = Ok e \<and> m = saturating_add_u locked ?abs \<or>
       sint (am_delta a) < 0 \<and> ?abs \<le> locked \<and> credit w delta_new (ref_key tok) ?abs = Ok e \<and> m = locked - ?abs"
    and d: "upsert_perp_position cd w e pid (on_perp (set_first_collateral m)) = Ok d"
    by (rule adjust_margin_parts)
  from adjust_flow [OF flow, of cd] obtain w1 x where w1: "builds cd w e w1" "position_changes e = []"
    "uint m = min (uint locked + sint (am_delta a)) (2 ^ 256 - 1)"
    "capped_balance w (ref_key tok) = Some x" "0 \<le> x - moved (am_delta a)"
    "capped_balance w1 (ref_key tok) = Some (min (x - moved (am_delta a)) i256_max)"
    "\<forall>k. k \<noteq> ref_key tok \<longrightarrow> balance_of w1 k = balance_of w k"
    by blast
  have "codec_roundtrips cd (on_perp (set_first_collateral m) p)"
    using assms(3) find_id_pos_id [OF p(2)] by blast
  with w1(1,2) d p(2) obtain w2 where w2: "builds cd w d w2" "ws_tokens w2 = ws_tokens w1"
    "\<forall>j. find_id j w2 = (if j = pid then Some (on_perp (set_first_collateral m) p) else find_id j w)"
    by (rule builds_upsert_perp)
  have "on_perp (set_first_collateral m) p = p\<lparr>pos_kind := PerpPosition (perp\<lparr>pp_collateral := (tok, m) # rest\<rparr>)\<rparr>"
    using p(3,4) by (simp add: on_perp_def set_first_collateral_def)
  moreover have "sint (am_delta a) \<noteq> 0"
    using flow by auto
  ultimately show ?thesis
    using p w1(3-7) w2 same_tokens_balance [OF w2(2)]
    by (intro exI [of _ w2] exI [of _ pid] exI [of _ p] exI [of _ perp] exI [of _ tok] exI [of _ locked] exI [of _ rest]
        exI [of _ m] exI [of _ x]) (simp add: builds_def capped_balance_def)
qed

theorem adjust_margin_exact_witness:
  "\<exists>d w'. apply_adjust_margin dec_parsers margin_codec sample_adjust perp_wallet sample_ctx = Ok d \<and>
     apply_delta margin_codec perp_wallet d = Ok w' \<and> capped_balance w' usdc_key = Some 1120 \<and>
     find_id ''p'' w' = Some (perp_holder (sample_perp\<lparr>pp_collateral := [(TokenRef usdc_key, 80), (TokenRef eth_key, 3)]\<rparr>))"
proof -
  have "is_ok (apply_adjust_margin dec_parsers margin_codec sample_adjust perp_wallet sample_ctx)"
    by code_simp
  then obtain d where d: "apply_adjust_margin dec_parsers margin_codec sample_adjust perp_wallet sample_ctx = Ok d"
    by (auto simp: is_ok_def split: sum.splits)
  have sel: "am_position_id sample_adjust = Some ''p''" "sint (am_delta sample_adjust) = - 120"
    by (simp_all add: sample_adjust_def)
  have "\<forall>p\<in>set (ws_positions perp_wallet). \<forall>m. codec_roundtrips margin_codec (on_perp (set_first_collateral m) p)"
    by (simp add: perp_wallet_facts margin_codec_roundtrips)
  from adjust_margin_exact [OF d dec_parsers_exact this] obtain w' m where w': "apply_delta margin_codec perp_wallet d = Ok w'"
    "uint m = min (200 + - 120) (2 ^ 256 - 1)"
    "find_id ''p'' w' = Some ((perp_holder sample_perp)\<lparr>pos_kind := PerpPosition (sample_perp\<lparr>pp_collateral := [(TokenRef usdc_key, m), (TokenRef eth_key, 3)]\<rparr>)\<rparr>)"
    "capped_balance w' usdc_key = Some (min (1000 - moved (am_delta sample_adjust)) i256_max)"
    using sample_balances(1) unfolding sel by (auto simp: perp_wallet_facts capped_balance_def)
  have "uint m = uint (80 :: u256)"
    unfolding w'(2) by simp
  then have "m = 80"
    by (rule word_uint_eqI)
  moreover have "capped_balance w' usdc_key = Some 1120"
    unfolding w'(4) by (simp add: moved_def sel i256_max_def)
  ultimately show ?thesis
    using d w'(1,3) by (simp add: perp_holder_def)
qed

end
