(* ===== verification/Reducer.thy ===== *)
theory Reducer
  imports Hyperliquid_Effect Amm_Effect Lending_Accounts Airdrop_Effect Launchpad_Effect Perp_Positions
begin

text \<open>
  The reducer entry point (\<open>asset-model/transition/src/apply.rs\<close>): dispatch over \<open>ActionBody\<close>, the
  sequential multicall and the projection policy triggers match on (\<open>asset-model/action/src/view.rs\<close>).
  The locale \<open>gasless_reducer\<close> is the contract of a reducer that charges no gas; the multicall
  law is proved in it once and used for every reducer of the model.
\<close>

section \<open>Action bodies\<close>

record eip712_domain =
  ed_name :: string
  ed_version :: "string option"
  ed_chain_id :: "u64 option"
  ed_verifying_contract :: "address option"
  ed_salt :: "string option"

datatype action_nature =
    OnchainTx chain_id u64 u256 "u256 live_field" u256
  | OffchainSig eip712_domain time "nonce_key option"

record action_meta =
  am_submitted_at :: time
  am_submitter :: address
  am_nature :: action_nature

text \<open>
  \<open>'d\<close> is the payload of the eight domains whose action structs are not modelled; their reducers read nothing of it.
\<close>

datatype 'd action_body =
    Token token_action
  | Amm amm_action
  | Lending lending_action
  | Airdrop airdrop_action
  | Launchpad launchpad_action
  | Perp perp_action
  | LiquidStaking 'd
  | Permission 'd
  | Yield 'd
  | Restaking 'd
  | Staking 'd
  | GovernanceBody 'd
  | HyperliquidCore hl_core_action
  | Marketplace 'd
  | Bridge 'd
  | Multicall "'d action_body list"
  | Unknown address chain_id string u256

record 'd action =
  act_meta :: action_meta
  act_body :: "'d action_body"

section \<open>Reducers\<close>

definition apply_liquid_staking :: "'d reducer" where
  "apply_liquid_staking a w ctx = Ok delta_new"

definition apply_permission :: "'d reducer" where
  "apply_permission a w ctx = Ok delta_new"

definition apply_yield :: "'d reducer" where
  "apply_yield a w ctx = Ok delta_new"

definition apply_restaking :: "'d reducer" where
  "apply_restaking a w ctx = Ok delta_new"

definition apply_staking :: "'d reducer" where
  "apply_staking a w ctx = Ok delta_new"

definition apply_governance :: "'d reducer" where
  "apply_governance a w ctx = Ok delta_new"

definition apply_bridge :: "'d reducer" where
  "apply_bridge a w ctx = Ok delta_new"

definition apply_marketplace :: "'d reducer" where
  "apply_marketplace a w ctx = Ok delta_new"

text \<open>The loop of \<open>apply_multicall\<close>: the accumulated delta and the running state.\<close>

fun multicall_loop ::
  "position_codec \<Rightarrow> 'a reducer \<Rightarrow> eval_context \<Rightarrow> nat \<Rightarrow> state_delta \<Rightarrow> wallet_state \<Rightarrow> 'a list \<Rightarrow>
   (state_delta \<times> wallet_state) reducer_result" where
  "multicall_loop cd red ctx i accumulated current [] = Ok (accumulated, current)"
| "multicall_loop cd red ctx i accumulated current (body # bodies) =
     bind_result (red body current (with_action_index ctx i)) (\<lambda>sub_delta.
     bind_result (apply_delta cd current sub_delta) (\<lambda>current'.
     bind_result (merge_delta accumulated sub_delta) (\<lambda>accumulated'.
       multicall_loop cd red ctx (Suc i) accumulated' current' bodies)))"

definition apply_multicall :: "position_codec \<Rightarrow> 'a reducer \<Rightarrow> 'a list reducer" where
  "apply_multicall cd red bodies w ctx =
     bind_result (multicall_loop cd red ctx 0 delta_new w bodies) (\<lambda>(accumulated, _). Ok accumulated)"

lemma multicall_loop_cong [fundef_cong]:
  assumes "xs = ys" and "\<And>b w c. b \<in> set ys \<Longrightarrow> red b w c = red' b w c"
  shows "multicall_loop cd red ctx i acc cur xs = multicall_loop cd red' ctx i acc cur ys"
  using assms
proof (induction ys arbitrary: xs i acc cur)
  case (Cons b bs)
  then have "red b cur c = red' b cur c" for c
    by simp
  with Cons show ?case
    by (auto intro!: bind_result_cong)
qed simp

lemma apply_multicall_cong [fundef_cong]:
  assumes "xs = ys" and "w = w'" and "ctx = ctx'" and "\<And>b w c. b \<in> set ys \<Longrightarrow> red b w c = red' b w c"
  shows "apply_multicall cd red xs w ctx = apply_multicall cd red' ys w' ctx'"
  unfolding apply_multicall_def assms(1-3) using assms(4) by (simp cong: multicall_loop_cong)

fun apply_body ::
  "'n rust_decimal \<Rightarrow> int_parsers \<Rightarrow> position_codec \<Rightarrow> 'd action_body reducer" where
  "apply_body rd ip cd (Token a) w ctx = apply_token_action a w ctx"
| "apply_body rd ip cd (Amm a) w ctx = apply_amm_action (ip_u256_from_str ip) a w ctx"
| "apply_body rd ip cd (Lending a) w ctx = apply_lending_action rd ip cd a w ctx"
| "apply_body rd ip cd (Airdrop a) w ctx = apply_airdrop_action a w ctx"
| "apply_body rd ip cd (Launchpad a) w ctx = apply_launchpad_action cd a w ctx"
| "apply_body rd ip cd (Perp a) w ctx = apply_perp_action rd ip cd a w ctx"
| "apply_body rd ip cd (LiquidStaking a) w ctx = apply_liquid_staking a w ctx"
| "apply_body rd ip cd (Permission a) w ctx = apply_permission a w ctx"
| "apply_body rd ip cd (Yield a) w ctx = apply_yield a w ctx"
| "apply_body rd ip cd (Restaking a) w ctx = apply_restaking a w ctx"
| "apply_body rd ip cd (Staking a) w ctx = apply_staking a w ctx"
| "apply_body rd ip cd (GovernanceBody a) w ctx = apply_governance a w ctx"
| "apply_body rd ip cd (HyperliquidCore a) w ctx = apply_hl_core rd cd a w ctx"
| "apply_body rd ip cd (Bridge a) w ctx = apply_bridge a w ctx"
| "apply_body rd ip cd (Marketplace a) w ctx = apply_marketplace a w ctx"
| "apply_body rd ip cd (Multicall bodies) w ctx = apply_multicall cd (\<lambda>b. apply_body rd ip cd b) bodies w ctx"
| "apply_body rd ip cd (Unknown target _ _ _) w ctx = Err (UnknownAction (UnidentifiedCall target))"

definition apply_action ::
  "'n rust_decimal \<Rightarrow> int_parsers \<Rightarrow> position_codec \<Rightarrow> wallet_state \<Rightarrow> 'd action \<Rightarrow> eval_context \<Rightarrow>
   state_delta reducer_result" where
  "apply_action rd ip cd w a ctx = apply_body rd ip cd (act_body a) w ctx"

section \<open>View\<close>

record action_view =
  av_domain :: string
  av_action_tag :: "string option"
  av_venue_name :: "string option"

text \<open>\<open>tag\<close> and \<open>venue\<close> are the \<open>action_tag\<close> and \<open>venue_name\<close> methods of the domains given by \<open>'d\<close>.\<close>

fun view :: "('d \<Rightarrow> string) \<Rightarrow> ('d \<Rightarrow> string option) \<Rightarrow> 'd action_body \<Rightarrow> action_view" where
  "view tag venue (Token a) = \<lparr>av_domain = ''token'', av_action_tag = Some (token_action_tag a), av_venue_name = None\<rparr>"
| "view tag venue (Amm a) = \<lparr>av_domain = ''amm'', av_action_tag = Some (amm_action_tag a), av_venue_name = amm_venue_name a\<rparr>"
| "view tag venue (Lending a) = \<lparr>av_domain = ''lending'', av_action_tag = Some (lending_action_tag a), av_venue_name = lending_venue_name a\<rparr>"
| "view tag venue (Airdrop a) = \<lparr>av_domain = ''airdrop'', av_action_tag = Some (airdrop_action_tag a), av_venue_name = airdrop_venue_name a\<rparr>"
| "view tag venue (Launchpad a) = \<lparr>av_domain = ''launchpad'', av_action_tag = Some (launchpad_action_tag a), av_venue_name = launchpad_venue_name a\<rparr>"
| "view tag venue (Perp a) = \<lparr>av_domain = ''perp'', av_action_tag = Some (perp_action_tag a), av_venue_name = perp_venue_name a\<rparr>"
| "view tag venue (LiquidStaking a) = \<lparr>av_domain = ''liquid_staking'', av_action_tag = Some (tag a), av_venue_name = venue a\<rparr>"
| "view tag venue (Permission a) = \<lparr>av_domain = ''permission'', av_action_tag = Some (tag a), av_venue_name = venue a\<rparr>"
| "view tag venue (Yield a) = \<lparr>av_domain = ''yield'', av_action_tag = Some (tag a), av_venue_name = venue a\<rparr>"
| "view tag venue (Restaking a) = \<lparr>av_domain = ''restaking'', av_action_tag = Some (tag a), av_venue_name = venue a\<rparr>"
| "view tag venue (Staking a) = \<lparr>av_domain = ''staking'', av_action_tag = Some (tag a), av_venue_name = venue a\<rparr>"
| "view tag venue (GovernanceBody a) = \<lparr>av_domain = ''governance'', av_action_tag = Some (tag a), av_venue_name = venue a\<rparr>"
| "view tag venue (HyperliquidCore a) =
     \<lparr>av_domain = ''hyperliquid_core'', av_action_tag = Some (hl_action_tag a), av_venue_name = Some ''hyperliquid''\<rparr>"
| "view tag venue (Bridge a) = \<lparr>av_domain = ''bridge'', av_action_tag = Some (tag a), av_venue_name = venue a\<rparr>"
| "view tag venue (Marketplace a) = \<lparr>av_domain = ''marketplace'', av_action_tag = Some (tag a), av_venue_name = venue a\<rparr>"
| "view tag venue (Multicall _) = \<lparr>av_domain = ''multicall'', av_action_tag = None, av_venue_name = None\<rparr>"
| "view tag venue (Unknown _ _ _ _) = \<lparr>av_domain = ''unknown'', av_action_tag = None, av_venue_name = None\<rparr>"

section \<open>Reducers that charge no gas\<close>

lemma merge_delta_gasless:
  assumes "merge_delta a b = Ok m" and "gas_paid a = None" and "gas_paid b = None"
  shows "gas_paid m = None"
  using assms by (auto simp: merge_delta_no_gas_total)

lemma multicall_loop_gasless:
  assumes "multicall_loop cd red ctx i acc cur bs = Ok (d, w')" and "gas_paid acc = None"
    and "\<And>b w c e. b \<in> set bs \<Longrightarrow> red b w c = Ok e \<Longrightarrow> gas_paid e = None"
  shows "gas_paid d = None"
  using assms
proof (induction bs arbitrary: i acc cur)
  case (Cons b bs)
  then obtain e v m where "red b cur (with_action_index ctx i) = Ok e" "apply_delta cd cur e = Ok v"
    "merge_delta acc e = Ok m" "multicall_loop cd red ctx (Suc i) m v bs = Ok (d, w')"
    by (auto simp: bind_result_eq_Ok)
  moreover from this(1) have "gas_paid e = None"
    by (rule Cons.prems(3) [rotated]) simp
  ultimately have "multicall_loop cd red ctx (Suc i) m v bs = Ok (d, w')" "gas_paid m = None"
    using Cons.prems(2) merge_delta_gasless [of acc e m] by simp_all
  then show ?case
    by (rule Cons.IH) (rule Cons.prems(3), auto)
qed simp

locale gasless_reducer =
  fixes red :: "'a reducer"
  assumes gasless: "red a w ctx = Ok d \<Longrightarrow> gas_paid d = None"
begin

text \<open>
  One round of the loop keeps the invariant: the accumulated delta takes the wallet the multicall
  started from to the running state.
\<close>

lemma multicall_loop_applies:
  assumes "multicall_loop cd red ctx i acc cur bs = Ok (d, w')" and "gas_paid acc = None"
    and "apply_delta cd w acc = Ok cur"
  shows "apply_delta cd w d = Ok w'"
  using assms
proof (induction bs arbitrary: i acc cur)
  case (Cons b bs)
  then obtain e v m where step: "red b cur (with_action_index ctx i) = Ok e" "apply_delta cd cur e = Ok v"
    "merge_delta acc e = Ok m" "multicall_loop cd red ctx (Suc i) m v bs = Ok (d, w')"
    by (auto simp: bind_result_eq_Ok)
  have "apply_delta cd w m = Ok v"
    using delta_runs_merge [OF step(3) Cons.prems(2), of cd] Cons.prems(3) step(2)
    by (auto simp: apply_delta_iff_runs relcomp_unfold)
  moreover have "gas_paid m = None"
    using merge_delta_gasless [OF step(3) Cons.prems(2) gasless [OF step(1)]] .
  ultimately show ?case
    using Cons.IH [OF step(4)] by simp
qed simp

lemma multicall_applies:
  assumes "apply_multicall cd red bs w ctx = Ok d"
  shows "\<exists>w'. multicall_loop cd red ctx 0 delta_new w bs = Ok (d, w') \<and> apply_delta cd w d = Ok w'"
  using assms multicall_loop_applies [of cd ctx 0 delta_new w bs d _ w]
  by (auto simp: apply_multicall_def bind_result_eq_Ok)

lemma multicall_gasless:
  assumes "apply_multicall cd red bs w ctx = Ok d"
  shows "gas_paid d = None"
  using assms gasless
  by (auto simp: apply_multicall_def bind_result_eq_Ok intro: multicall_loop_gasless [where acc = delta_new])

end

interpretation token_reducer: gasless_reducer apply_token_action
  by unfold_locales (erule token_action_shape; simp)

lemma apply_outflow_gasless:
  assumes "apply_outflow rd cd amount w ctx = Ok d"
  shows "gas_paid d = None"
proof (cases "find_hl_account w")
  case None
  with assms show ?thesis
    by (auto simp: apply_outflow_def open_position_def bind_result_eq_Ok split: if_splits)
next
  case (Some base)
  with assms obtain f where "upsert_hl_account cd w delta_new HL_ACCOUNT_ID f = Ok d"
    by (auto simp: apply_outflow_def bind_result_eq_Ok)
  then obtain p where "d = push_position (PosUpdate HL_ACCOUNT_ID (snapshot_patch cd (f p))) delta_new"
    using upsert_Ok [of cd w delta_new HL_ACCOUNT_ID f d] by blast
  then show ?thesis
    by simp
qed

lemma apply_hl_core_gasless:
  assumes "apply_hl_core rd cd a w ctx = Ok d"
  shows "gas_paid d = None"
  using assms by (cases a) (auto simp: apply_hl_withdraw_def apply_hl_usd_send_def dest: apply_outflow_gasless)

interpretation hl_reducer: gasless_reducer "apply_hl_core rd cd" for rd cd
  by unfold_locales (rule apply_hl_core_gasless)

interpretation amm_reducer: gasless_reducer "apply_amm_action pu" for pu
  by unfold_locales (rule apply_amm_action_gasless)

interpretation lending_reducer: gasless_reducer "apply_lending_action rd ip cd" for rd ip cd
  by unfold_locales (rule apply_lending_action_gasless)

interpretation airdrop_reducer: gasless_reducer apply_airdrop_action
  by unfold_locales (rule apply_airdrop_action_gasless)

interpretation launchpad_reducer: gasless_reducer "apply_launchpad_action cd" for cd
  by unfold_locales (rule apply_launchpad_action_gasless)

interpretation perp_reducer: gasless_reducer "apply_perp_action rd ip cd" for rd ip cd
  by unfold_locales (rule apply_perp_action_gasless)

lemmas noop_reducer_defs = apply_liquid_staking_def apply_permission_def apply_yield_def apply_restaking_def
  apply_staking_def apply_governance_def apply_bridge_def apply_marketplace_def

lemmas domain_gasless = token_reducer.gasless hl_reducer.gasless amm_reducer.gasless lending_reducer.gasless
  airdrop_reducer.gasless launchpad_reducer.gasless perp_reducer.gasless

lemma apply_body_gasless:
  assumes "apply_body rd ip cd b w ctx = Ok d"
  shows "gas_paid d = None"
  using assms
proof (induction b arbitrary: w ctx d)
  case (Multicall bs)
  then show ?case
    by (auto simp: apply_multicall_def bind_result_eq_Ok intro: multicall_loop_gasless [where acc = delta_new])
qed (auto simp: noop_reducer_defs dest: domain_gasless)

interpretation body_reducer: gasless_reducer "apply_body rd ip cd" for rd ip cd
  by unfold_locales (rule apply_body_gasless)

section \<open>Calls that were not identified\<close>

fun has_unknown :: "'d action_body \<Rightarrow> bool" where
  "has_unknown (Unknown _ _ _ _) \<longleftrightarrow> True"
| "has_unknown (Multicall bs) \<longleftrightarrow> list_ex has_unknown bs"
| "has_unknown _ \<longleftrightarrow> False"

lemma multicall_loop_child_fails:
  assumes "b \<in> set bs" and "\<And>w c. \<not> is_ok (red b w c)"
  shows "\<not> is_ok (multicall_loop cd red ctx i acc cur bs)"
  using assms
proof (induction bs arbitrary: i acc cur)
  case (Cons x bs)
  show ?case
  proof (cases "x = b")
    case True
    then have "\<not> is_ok (red x cur (with_action_index ctx i))"
      using Cons.prems(2) by simp
    then show ?thesis
      by (auto simp: is_ok_def split: sum.splits)
  next
    case False
    then have "b \<in> set bs"
      using Cons.prems(1) by simp
    then have rest: "\<not> is_ok (multicall_loop cd red ctx (Suc i) m v bs)" for m v
      using Cons.IH Cons.prems(2) by blast
    show ?thesis
      using rest by (auto simp: bind_result_def is_ok_def [of "Err _"] split: sum.splits)
  qed
qed simp

text \<open>Concrete multicalls for the witnesses.\<close>

definition approve_and_send :: "unit action_body list" where
  "approve_and_send = [Token sample_approve, Multicall [Token sample_transfer, HyperliquidCore HL_SpotSend],
     Token sample_transfer]"

section \<open>Properties\<close>

text \<open>
  C2. The delta a multicall returns describes the whole sequence: applied to the wallet the multicall
  started from it gives exactly the state the loop reached by applying child after child.
\<close>

theorem multicall_delta_exact:
  assumes "apply_body rd ip cd (Multicall bs) w ctx = Ok d"
  shows "\<exists>w'. multicall_loop cd (apply_body rd ip cd) ctx 0 delta_new w bs = Ok (d, w') \<and> apply_delta cd w d = Ok w'"
  using body_reducer.multicall_applies assms by simp

theorem multicall_delta_exact_witness:
  "\<exists>d w'. apply_body int_decimal dec_parsers sample_codec (Multicall approve_and_send) sample_wallet sample_ctx = Ok d \<and>
     apply_delta sample_codec sample_wallet d = Ok w'"
proof -
  have "is_ok (apply_body int_decimal dec_parsers sample_codec (Multicall approve_and_send) sample_wallet sample_ctx)"
    by code_simp
  then obtain d where d: "apply_body int_decimal dec_parsers sample_codec (Multicall approve_and_send) sample_wallet sample_ctx = Ok d"
    by (auto simp: is_ok_def split: sum.splits)
  with multicall_delta_exact [OF d] show ?thesis
    by blast
qed

text \<open>
  C38. An unidentified call fails closed: a body that contains one anywhere, at whatever nesting
  depth of multicalls, produces no delta on any wallet.
\<close>

theorem unknown_fails_closed:
  assumes "has_unknown b"
  shows "\<not> is_ok (apply_body rd ip cd b w ctx)"
  using assms
proof (induction b arbitrary: w ctx)
  case (Multicall bs)
  then obtain b where "b \<in> set bs" "\<And>w c. \<not> is_ok (apply_body rd ip cd b w c)"
    by (auto simp: list_ex_iff)
  then have "\<not> is_ok (multicall_loop cd (apply_body rd ip cd) ctx 0 delta_new w bs)"
    by (rule multicall_loop_child_fails)
  then show ?case
    by (auto simp: apply_multicall_def is_ok_def split: sum.splits)
qed (auto simp: is_ok_def)

theorem unknown_fails_closed_witness:
  "\<not> is_ok (apply_body int_decimal dec_parsers sample_codec
     (Multicall [Token sample_approve, Multicall [Unknown 1 ethereum_mainnet ''0x'' 0]]) sample_wallet sample_ctx)"
  by (rule unknown_fails_closed) simp

text \<open>
  Transferring an owned ERC-721 token alone yields a delta, but the same action as the first
  child of a multicall makes the whole multicall fail with a non-fungible balance error.
\<close>

lemma nft_transfer_breaks_multicall:
  assumes "fmlookup (ws_tokens w) (TK_Erc721 c a i) = Some h" and "h_balance h = Owned"
  shows "is_ok (apply_body rd ip cd (Token (NftTransfer \<lparr>nt_nft_key = TK_Erc721 c a i, nt_amount = amt, nt_recipient = r\<rparr>)) w ctx) \<and>
    apply_body rd ip cd
      (Multicall (Token (NftTransfer \<lparr>nt_nft_key = TK_Erc721 c a i, nt_amount = amt, nt_recipient = r\<rparr>) # rest)) w ctx =
      Err (Invariant (DeltaOnNonFungible (TK_Erc721 c a i)))"
  using assms
  by (simp add: apply_nft_transfer_def transfer_nft_def apply_multicall_def is_ok_def apply_delta_def
      apply_balance_delta_def update_holding_def)

end
