(* ===== verification/Scam_Types.thy ===== *)
theory Scam_Types
  imports F64
begin

text \<open>
  Data of the scam filter (\<open>scam-filter/src/types.rs\<close>). Millisecond times (\<open>i64\<close>) are integers whose
  saturating operations are written out with \<open>sat_i64\<close>; counts, seconds and basis points
  (\<open>usize\<close>, \<open>u64\<close>, \<open>u32\<close>) are naturals.
\<close>

definition i64_max :: int where
  "i64_max = 2 ^ 63 - 1"

definition i64_min :: int where
  "i64_min = - (2 ^ 63)"

definition sat_i64 :: "int \<Rightarrow> int" where
  "sat_i64 x = max i64_min (min i64_max x)"

definition is_i64 :: "int \<Rightarrow> bool" where
  "is_i64 x \<longleftrightarrow> i64_min \<le> x \<and> x \<le> i64_max"

lemma sat_i64_id: "i64_min \<le> x \<Longrightarrow> x \<le> i64_max \<Longrightarrow> sat_i64 x = x"
  by (simp add: sat_i64_def)

lemma sat_i64_nonneg_id: "0 \<le> x \<Longrightarrow> x \<le> i64_max \<Longrightarrow> sat_i64 x = x"
  by (rule sat_i64_id) (simp_all add: i64_min_def)

lemma sat_i64_mono: "x \<le> y \<Longrightarrow> sat_i64 x \<le> sat_i64 y"
  by (auto simp: sat_i64_def)

lemma sat_i64_range [simp]: "is_i64 (sat_i64 x)"
  by (simp add: is_i64_def sat_i64_def i64_min_def i64_max_def)

section \<open>Rules\<close>

datatype metric = Price | Liquidity

datatype direction = DirBoth | DirUp | DirDown

datatype change_mode = Step | Cumulative

datatype switch_kind = SwBoth | SwPeak | SwTrough

datatype admin_event_kind = OwnerChanged | ProxyUpgraded | AdminChanged | Paused | Unpaused

datatype rule_spec =
    ChangeCount (rule_id: string) (rs_metric: metric) (rule_lookback_sec: nat) (min_change_bps: nat)
      (rs_direction: direction) (rs_mode: change_mode) (min_count: nat)
  | SwitchDensity (rule_id: string) (rs_metric: metric) (rule_lookback_sec: nat) (window_sec: nat)
      (reversal_bps: nat) (rs_switch_kind: switch_kind) (min_count: nat)
  | WindowDrop (rule_id: string) (rule_lookback_sec: nat) (window_sec: nat) (min_drop_bps: nat)
  | EventCount (rule_id: string) (rs_kinds: "admin_event_kind list") (rule_lookback_sec: nat) (min_count: nat)

section \<open>Requests\<close>

record subject =
  sub_chain_id :: nat
  sub_pool :: string
  sub_token :: string
  sub_quote :: string
  sub_venue :: string

record as_of =
  ao_block :: string
  ao_block_hash :: string
  ao_t_ms :: int

datatype time_range = TimeRange (tr_from_ms: int) (tr_to_ms: int)

record pool_point =
  pt_t_ms :: int
  pt_reserve_quote :: string
  pt_reserve_token :: string
  pt_decimals_quote :: nat
  pt_decimals_token :: nat

record warmup =
  wu_from_ms :: int
  wu_complete :: bool

record pool_history =
  ph_schema :: string
  ph_builder_version :: string
  ph_from_ms :: int
  ph_bucket_ms :: int
  ph_points :: "pool_point list"
  ph_missing :: "time_range list"
  ph_warmup :: warmup

datatype admin_event = AdminEvent (ae_t_ms: int) (ae_kind: admin_event_kind)

record token_profile =
  tp_schema :: string
  tp_pool_created_ms :: "int option"
  tp_age_lower_bound_ms :: "int option"
  tp_admin_events :: "admin_event list"
  tp_missing :: "time_range list"

record analysis_request =
  ar_subject :: subject
  ar_as_of :: as_of
  ar_rules :: "rule_spec list"
  ar_rules_hash :: string
  ar_pool_history :: pool_history
  ar_token_profile :: token_profile

record limits =
  lim_max_rules :: nat
  lim_max_points :: nat
  lim_max_admin_events :: nat
  lim_max_evidence_events :: nat

definition limits_default :: limits where
  "limits_default = \<lparr>lim_max_rules = 16, lim_max_points = 20000, lim_max_admin_events = 1000,
     lim_max_evidence_events = 64\<rparr>"

section \<open>Results\<close>

datatype analysis_mode = Real | Stub

datatype outcome = Fired | Clear | Incomplete | NotEvaluable

datatype reason =
  PartialCoverage | WarmupIncomplete | NoUsableSegment | ResolutionTooCoarse | MetricUnavailable | HistoryUnverified

datatype evidence_event = EvidenceEvent (ee_t_ms: int) (ee_kind: string)

datatype evidence_window = EvidenceWindow (ew_start_ms: int) (ew_end_ms: int)

record rule_result =
  rr_rule_id :: string
  rr_outcome :: outcome
  rr_reason :: "reason option"
  rr_observed :: "nat option"
  rr_threshold :: nat
  rr_window :: "evidence_window option"
  rr_events :: "evidence_event list"
  rr_coverage_bps :: nat
  rr_warmup_complete :: bool

record analysis_binding =
  bi_chain_id :: nat
  bi_pool :: string
  bi_as_of_block :: string
  bi_as_of_block_hash :: string
  bi_rules_hash :: string

record scam_analysis =
  sa_algorithm_id :: string
  sa_algorithm_version :: string
  sa_contract_version :: nat
  sa_analysis_mode :: analysis_mode
  sa_binding :: analysis_binding
  sa_rules :: "rule_result list"

datatype support = Supported | Unsupported string

text \<open>Reasons for invalid input are format strings with their arguments, one constructor each.\<close>

datatype invalid_input =
    ReserveNotDecimal string
  | PointsNotIncreasing
  | PointAfterAsOf
  | DurationOutOfRange
  | BucketNotPositive

datatype algorithm_error =
    LimitExceeded string
  | InvalidInput invalid_input
  | UnsupportedRule string string

end
