(* ===== verification/Scam_Generators.thy ===== *)
theory Scam_Generators
  imports Scam_Types
begin

text \<open>
  Event generators of the scam filter (\<open>scam-filter/src/generators.rs\<close>). A series is a list of
  timestamped samples, \<open>None\<close> an undefined or missing point. Step, cumulative and zigzag events
  come from one pass with a small state that a \<open>None\<close> resets; drop events use a monotone
  deque of recent maxima. The locale \<open>event_generator\<close> is what the rules rely on.
\<close>

type_synonym sample = "int \<times> f64 option"

section \<open>Operations\<close>

definition wants_up :: "direction \<Rightarrow> bool" where
  "wants_up d \<longleftrightarrow> d = DirBoth \<or> d = DirUp"

definition wants_down :: "direction \<Rightarrow> bool" where
  "wants_down d \<longleftrightarrow> d = DirBoth \<or> d = DirDown"

text \<open>
  The common loop: \<open>step\<close> takes the state left by the previous defined sample of the segment (\<open>None\<close>
  at its start) and the value, and gives the new state and whether to push the timestamp.
\<close>

fun scan_samples :: "('st option \<Rightarrow> f64 \<Rightarrow> 'st \<times> bool) \<Rightarrow> 'st option \<Rightarrow> sample list \<Rightarrow> int list" where
  "scan_samples step st [] = []"
| "scan_samples step st ((t, None) # s) = scan_samples step None s"
| "scan_samples step st ((t, Some x) # s) =
     (case step st x of (st', push) \<Rightarrow> (if push then [t] else []) @ scan_samples step (Some st') s)"

definition step_step :: "f64 \<Rightarrow> direction \<Rightarrow> f64 option \<Rightarrow> f64 \<Rightarrow> f64 \<times> bool" where
  "step_step i dir prev x =
     (x, case prev of
           Some p \<Rightarrow> f64_lt (Fin 0) p \<and>
             (let r = f64_sub (f64_div x p) (Fin 1) in
              (f64_le i r \<and> wants_up dir) \<or> (f64_le r (f64_neg i) \<and> wants_down dir))
         | None \<Rightarrow> False)"

definition step_events :: "sample list \<Rightarrow> f64 \<Rightarrow> direction \<Rightarrow> int list" where
  "step_events series i dir = scan_samples (step_step i dir) None series"

definition cumulative_step :: "f64 \<Rightarrow> direction \<Rightarrow> (f64 \<times> f64) option \<Rightarrow> f64 \<Rightarrow> (f64 \<times> f64) \<times> bool" where
  "cumulative_step i dir hl x =
     (case hl of
        None \<Rightarrow> ((x, x), False)
      | Some (hi, lo) \<Rightarrow>
          if f64_lt (Fin 0) lo \<and> f64_le (f64_mul lo (f64_add (Fin 1) i)) x then ((x, x), wants_up dir)
          else if f64_lt (Fin 0) hi \<and> f64_le x (f64_mul hi (f64_sub (Fin 1) i)) then ((x, x), wants_down dir)
          else if f64_eq lo (Fin 0) \<and> f64_lt (Fin 0) x then ((x, x), False)
          else ((f64_max hi x, f64_min lo x), False))"

definition cumulative_events :: "sample list \<Rightarrow> f64 \<Rightarrow> direction \<Rightarrow> int list" where
  "cumulative_events series i dir = scan_samples (cumulative_step i dir) None series"

datatype trend = TrendUnknown f64 f64 | TrendUp f64 | TrendDown f64

definition zigzag_step :: "f64 \<Rightarrow> switch_kind \<Rightarrow> trend option \<Rightarrow> f64 \<Rightarrow> trend \<times> bool" where
  "zigzag_step theta kind st x =
     (let peaks = (kind = SwBoth \<or> kind = SwPeak); troughs = (kind = SwBoth \<or> kind = SwTrough) in
      case st of
        None \<Rightarrow> (TrendUnknown x x, False)
      | Some (TrendUnknown hi lo) \<Rightarrow>
          if f64_lt (Fin 0) lo \<and> f64_le (f64_mul lo (f64_add (Fin 1) theta)) x then (TrendUp x, False)
          else if f64_lt (Fin 0) hi \<and> f64_le x (f64_mul hi (f64_sub (Fin 1) theta)) then (TrendDown x, False)
          else if f64_eq lo (Fin 0) \<and> f64_lt (Fin 0) x then (TrendUnknown x x, False)
          else (TrendUnknown (f64_max hi x) (f64_min lo x), False)
      | Some (TrendUp ext) \<Rightarrow>
          if f64_lt ext x then (TrendUp x, False)
          else if f64_le x (f64_mul ext (f64_sub (Fin 1) theta)) then (TrendDown x, peaks)
          else (TrendUp ext, False)
      | Some (TrendDown ext) \<Rightarrow>
          if f64_eq ext (Fin 0) then
            (if f64_lt (Fin 0) x then (TrendUnknown x x, False) else (TrendDown ext, False))
          else if f64_lt x ext then (TrendDown x, False)
          else if f64_le (f64_mul ext (f64_add (Fin 1) theta)) x then (TrendUp x, troughs)
          else (TrendDown ext, False))"

definition zigzag_switches :: "sample list \<Rightarrow> f64 \<Rightarrow> switch_kind \<Rightarrow> int list" where
  "zigzag_switches series theta kind = scan_samples (zigzag_step theta kind) None series"

text \<open>The state of \<open>drop_events\<close>: the deque (front first), the segment start and the index in effect.\<close>

record drop_state =
  ds_dq :: "(int \<times> f64) list"
  ds_seg :: nat
  ds_eff :: "nat option"

function advance_eff :: "sample list \<Rightarrow> nat \<Rightarrow> int \<Rightarrow> nat \<Rightarrow> nat option \<Rightarrow> nat option" where
  "advance_eff series k left nxt eff =
     (if nxt < k \<and> nxt < length series \<and> fst (series ! nxt) \<le> left
      then advance_eff series k left (Suc nxt) (Some nxt) else eff)"
  by auto

termination
  by (relation "measure (\<lambda>(series, k, left, nxt, eff). k - nxt)") auto

declare advance_eff.simps [simp del]

definition pop_back_le :: "f64 \<Rightarrow> (int \<times> f64) list \<Rightarrow> (int \<times> f64) list" where
  "pop_back_le x dq = rev (dropWhile (\<lambda>(_, v). f64_le v x) (rev dq))"

definition value_at :: "sample list \<Rightarrow> nat \<Rightarrow> f64 option" where
  "value_at series e = (if e < length series then snd (series ! e) else None)"

definition drop_step :: "sample list \<Rightarrow> f64 \<Rightarrow> int \<Rightarrow> nat \<Rightarrow> sample \<Rightarrow> drop_state \<Rightarrow> drop_state \<times> int list" where
  "drop_step series i window_ms k s st =
     (case s of
        (t, None) \<Rightarrow> (\<lparr>ds_dq = [], ds_seg = Suc k, ds_eff = None\<rparr>, [])
      | (t, Some x) \<Rightarrow>
          (let dq1 = pop_back_le x (ds_dq st) @ [(t, x)];
               left = sat_i64 (t - window_ms);
               nxt = (case ds_eff st of None \<Rightarrow> ds_seg st | Some e \<Rightarrow> Suc e);
               eff = advance_eff series k left nxt (ds_eff st);
               dq2 = dropWhile (\<lambda>(tf, _). tf \<le> left) dq1;
               front = (case dq2 of [] \<Rightarrow> None | (_, v) # _ \<Rightarrow> Some v);
               in_effect = (case eff of None \<Rightarrow> None | Some e \<Rightarrow> value_at series e);
               st' = \<lparr>ds_dq = dq2, ds_seg = ds_seg st, ds_eff = eff\<rparr>;
               mx = (case (front, in_effect) of
                       (Some a, Some b) \<Rightarrow> Some (f64_max a b)
                     | (Some a, None) \<Rightarrow> Some a
                     | (None, Some a) \<Rightarrow> Some a
                     | (None, None) \<Rightarrow> None)
           in case mx of
                None \<Rightarrow> (st', [])
              | Some m \<Rightarrow>
                  (st', if f64_lt (Fin 0) m \<and> f64_le x (f64_mul (f64_sub (Fin 1) i) m) then [t] else [])))"

fun drop_loop :: "sample list \<Rightarrow> f64 \<Rightarrow> int \<Rightarrow> nat \<Rightarrow> drop_state \<Rightarrow> sample list \<Rightarrow> int list" where
  "drop_loop series i window_ms k st [] = []"
| "drop_loop series i window_ms k st (s # rest) =
     (case drop_step series i window_ms k s st of
        (st', out) \<Rightarrow> out @ drop_loop series i window_ms (Suc k) st' rest)"

definition drop_events :: "sample list \<Rightarrow> f64 \<Rightarrow> int \<Rightarrow> int list" where
  "drop_events series i window_ms =
     drop_loop series i window_ms 0 \<lparr>ds_dq = [], ds_seg = 0, ds_eff = None\<rparr> series"

section \<open>Generator contract\<close>

abbreviation defined_samples :: "sample list \<Rightarrow> sample list" where
  "defined_samples \<equiv> filter (\<lambda>(_, v). v \<noteq> None)"

lemma sorted_wrt_subseq: "subseq xs ys \<Longrightarrow> sorted_wrt P ys \<Longrightarrow> sorted_wrt P xs"
proof (induction rule: list_emb.induct)
  case (list_emb_Cons2 x y xs ys)
  then show ?case
    using list_emb_set [OF list_emb_Cons2(2)] by auto
qed auto

text \<open>
  What the rules rely on: events are timestamps of defined samples, in series order and at most one
  per sample, and a break separates the series, so no event depends on samples beyond it.
\<close>

locale event_generator =
  fixes gen :: "sample list \<Rightarrow> int list"
  assumes subseq_defined: "subseq (gen s) (map fst (defined_samples s))"
    and split_at_break: "gen (xs @ (t, None) # ys) = gen xs @ gen ys"
begin

lemma events_in_series: "e \<in> set (gen s) \<Longrightarrow> \<exists>x. (e, Some x) \<in> set s"
proof -
  assume "e \<in> set (gen s)"
  then have "e \<in> set (map fst (defined_samples s))"
    using list_emb_set [OF subseq_defined [of s]] by auto
  then show ?thesis
    by auto
qed

lemma events_count: "length (gen s) \<le> length (defined_samples s)"
  using list_emb_length [OF subseq_defined [of s]] by simp

lemma events_increasing:
  assumes "sorted_wrt (<) (map fst s)"
  shows "sorted_wrt (<) (gen s)"
proof -
  have "sorted_wrt (<) (map fst (defined_samples s))"
    using assms by (simp add: sorted_wrt_map sorted_wrt_filter)
  then show ?thesis
    by (rule sorted_wrt_subseq [OF subseq_defined])
qed

end

section \<open>The scanning generators\<close>

lemma scan_subseq: "subseq (scan_samples step st s) (map fst (defined_samples s))"
  by (induction step st s rule: scan_samples.induct) (auto split: prod.splits)

lemma scan_break: "scan_samples step st (xs @ (t, None) # ys) = scan_samples step st xs @ scan_samples step None ys"
  by (induction step st xs rule: scan_samples.induct) (auto split: prod.splits)

interpretation step_gen: event_generator "\<lambda>s. step_events s i dir" for i dir
  unfolding step_events_def by unfold_locales (rule scan_subseq, rule scan_break)

interpretation cumulative_gen: event_generator "\<lambda>s. cumulative_events s i dir" for i dir
  unfolding cumulative_events_def by unfold_locales (rule scan_subseq, rule scan_break)

interpretation zigzag_gen: event_generator "\<lambda>s. zigzag_switches s theta kind" for theta kind
  unfolding zigzag_switches_def by unfold_locales (rule scan_subseq, rule scan_break)

text \<open>The direction of a step rule selects among the same moves.\<close>

lemma scan_filter_union:
  assumes "\<And>st x. fst (f st x) = fst (g st x)" and "\<And>st x. fst (f st x) = fst (h st x)"
    and "\<And>st x. snd (f st x) \<longleftrightarrow> snd (g st x) \<or> snd (h st x)"
  shows "set (scan_samples f st s) = set (scan_samples g st s) \<union> set (scan_samples h st s)"
proof (induction s arbitrary: st)
  case (Cons a s)
  obtain t v where a: "a = (t, v)"
    by (cases a)
  show ?case
  proof (cases v)
    case None
    then show ?thesis
      using Cons.IH a by simp
  next
    case (Some x)
    have "fst (f st x) = fst (g st x)" "fst (f st x) = fst (h st x)" "snd (f st x) \<longleftrightarrow> snd (g st x) \<or> snd (h st x)"
      by (rule assms)+
    then show ?thesis
      using Cons.IH [of "Some (fst (f st x))"] a Some by (auto simp: split_beta)
  qed
qed simp

end
