(* ===== verification/Scam_Drop.thy ===== *)
theory Scam_Drop
  imports Scam_Generators
begin

text \<open>
  \<open>drop_events\<close> keeps a monotone deque and a moving index instead of looking at the whole window for
  each point. Here it is compared with a direct reading of its comment: take the values in
  effect during the window before each point, and their maximum.
\<close>

section \<open>Reference\<close>

definition max_of :: "f64 list \<Rightarrow> f64 option" where
  "max_of vs = (case vs of [] \<Rightarrow> None | v # ws \<Rightarrow> Some (fold f64_max ws v))"

text \<open>
  \<open>past\<close> holds the earlier points of the segment, latest first. In effect during \<open>[t - w, t]\<close> are the
  points after \<open>t - w\<close> and the last one at or before it.
\<close>

definition values_in_effect :: "int \<Rightarrow> int \<times> f64 \<Rightarrow> (int \<times> f64) list \<Rightarrow> f64 list" where
  "values_in_effect left p past =
     map snd (filter (\<lambda>q. left < fst q) (p # past)) @
     (case filter (\<lambda>q. fst q \<le> left) past of [] \<Rightarrow> [] | q # _ \<Rightarrow> [snd q])"

definition drops :: "f64 \<Rightarrow> int \<Rightarrow> int \<times> f64 \<Rightarrow> (int \<times> f64) list \<Rightarrow> bool" where
  "drops i w p past =
     (case max_of (values_in_effect (sat_i64 (fst p - w)) p past) of
        None \<Rightarrow> False
      | Some m \<Rightarrow> f64_lt (Fin 0) m \<and> f64_le (snd p) (f64_mul (f64_sub (Fin 1) i) m))"

fun drop_reference :: "f64 \<Rightarrow> int \<Rightarrow> (int \<times> f64) list \<Rightarrow> sample list \<Rightarrow> int list" where
  "drop_reference i w past [] = []"
| "drop_reference i w past ((t, None) # s) = drop_reference i w [] s"
| "drop_reference i w past ((t, Some x) # s) =
     (if drops i w (t, x) past then [t] else []) @ drop_reference i w ((t, x) # past) s"

section \<open>Right maxima\<close>

fun rmax :: "(int \<times> f64) list \<Rightarrow> (int \<times> f64) list" where
  "rmax [] = []"
| "rmax (p # ps) = (if \<forall>q\<in>set ps. \<not> f64_le (snd p) (snd q) then p # rmax ps else rmax ps)"

lemma rmax_append:
  "rmax (ps @ qs) = filter (\<lambda>p. \<forall>q\<in>set qs. \<not> f64_le (snd p) (snd q)) (rmax ps) @ rmax qs"
  by (induction ps) auto

lemma rmax_snoc: "rmax (ps @ [p]) = filter (\<lambda>q. \<not> f64_le (snd q) (snd p)) (rmax ps) @ [p]"
  by (simp add: rmax_append)

lemma set_rmax: "set (rmax ps) \<subseteq> set ps"
  by (induction ps) auto

lemma rmax_decreasing: "sorted_wrt (\<lambda>p q. \<not> f64_le (snd p) (snd q)) (rmax ps)"
  by (induction ps) (auto dest: subsetD [OF set_rmax])

lemma rmax_Nil_iff [simp]: "rmax ps = [] \<longleftrightarrow> ps = []"
proof (induction ps rule: rev_induct)
  case (snoc p ps)
  then show ?case by (simp add: rmax_snoc)
qed simp

definition is_max :: "f64 \<Rightarrow> f64 set \<Rightarrow> bool" where
  "is_max m V \<longleftrightarrow> m \<in> V \<and> (\<forall>v\<in>V. f64_le v m)"

lemma is_max_unique: "is_max m V \<Longrightarrow> is_max m' V \<Longrightarrow> m = m'"
  by (auto simp: is_max_def intro: f64_le_antisym)

lemma is_max_rmax:
  assumes "ps \<noteq> []" and "\<forall>p\<in>set ps. snd p \<noteq> NaN"
  shows "is_max (snd (hd (rmax ps))) (snd ` set ps)"
  using assms
proof (induction ps)
  case (Cons p ps)
  show ?case
  proof (cases "ps = []")
    case True
    with Cons.prems show ?thesis by (simp add: is_max_def)
  next
    case False
    with Cons have IH: "is_max (snd (hd (rmax ps))) (snd ` set ps)"
      by simp
    show ?thesis
    proof (cases "\<forall>q\<in>set ps. \<not> f64_le (snd p) (snd q)")
      case True
      then have "\<forall>q\<in>set ps. f64_le (snd q) (snd p)"
        using Cons.prems(2) f64_le_total by fastforce
      with True Cons.prems(2) show ?thesis
        by (simp add: is_max_def)
    next
      case False
      then obtain q where "q \<in> set ps" "f64_le (snd p) (snd q)"
        by blast
      with IH have "f64_le (snd p) (snd (hd (rmax ps)))"
        by (auto simp: is_max_def intro: f64_le_trans)
      with IH have "is_max (snd (hd (rmax ps))) (snd ` set (p # ps))"
        by (auto simp: is_max_def)
      with False show ?thesis
        by (simp only: rmax.simps if_False)
    qed
  qed
qed simp

lemma is_max_fold:
  assumes "v \<noteq> NaN" and "\<forall>u\<in>set ws. u \<noteq> NaN"
  shows "is_max (fold f64_max ws v) (insert v (set ws))"
  using assms
proof (induction ws arbitrary: v)
  case (Cons u ws)
  have "is_max (fold f64_max ws (f64_max u v)) (insert (f64_max u v) (set ws))"
    using Cons by simp
  moreover have "f64_le u (f64_max u v)" "f64_le v (f64_max u v)" "f64_max u v = u \<or> f64_max u v = v"
    using Cons.prems f64_max_ge [of u v] f64_max_mem [of u v] by auto
  ultimately show ?case
    by (auto simp: is_max_def intro: f64_le_trans)
qed (simp add: is_max_def)

lemma max_of_eq:
  assumes "is_max m (set vs)" and "\<forall>v\<in>set vs. v \<noteq> NaN"
  shows "max_of vs = Some m"
proof (cases vs)
  case Nil
  with assms(1) show ?thesis by (simp add: is_max_def)
next
  case (Cons v ws)
  with assms is_max_fold [of v ws] is_max_unique show ?thesis
    by (auto simp: max_of_def)
qed

lemma is_max_f64_max:
  assumes "is_max a A" and "b \<noteq> NaN" and "a \<noteq> NaN"
  shows "is_max (f64_max a b) (insert b A)"
  using assms f64_max_ge [of a b] f64_max_mem [of a b]
  by (auto simp: is_max_def intro: f64_le_trans)

section \<open>Deque operations as filters\<close>

lemma dropWhile_eq_filter:
  assumes "sorted_wrt (\<lambda>x y. \<not> P x \<longrightarrow> \<not> P y) xs"
  shows "dropWhile P xs = filter (\<lambda>x. \<not> P x) xs"
  using assms
proof (induction xs)
  case (Cons x xs)
  then show ?case
    by (cases "P x") (auto simp: filter_id_conv)
qed simp

lemma pop_back_le_filter:
  assumes "sorted_wrt (\<lambda>p q. \<not> f64_le (snd p) (snd q)) dq" and "\<forall>p\<in>set dq. snd p \<noteq> NaN" and "x \<noteq> NaN"
  shows "pop_back_le x dq = filter (\<lambda>p. \<not> f64_le (snd p) x) dq"
proof -
  have "sorted_wrt (\<lambda>p q. \<not> f64_le (snd p) x \<longrightarrow> \<not> f64_le (snd q) x) (rev dq)"
    unfolding sorted_wrt_rev
  proof (rule sorted_wrt_mono_rel [OF _ assms(1)])
    fix p q
    assume "p \<in> set dq" "q \<in> set dq" "\<not> f64_le (snd p) (snd q)"
    then have "f64_le (snd q) (snd p)"
      using assms(2) f64_le_total by blast
    then show "\<not> f64_le (snd q) x \<longrightarrow> \<not> f64_le (snd p) x"
      using f64_le_trans by blast
  qed
  then have "dropWhile (\<lambda>(_, v). f64_le v x) (rev dq) = filter (\<lambda>p. \<not> f64_le (snd p) x) (rev dq)"
    by (subst dropWhile_eq_filter) (simp_all add: split_beta)
  then show ?thesis
    by (simp add: pop_back_le_def rev_filter)
qed

lemma dropWhile_time:
  fixes left :: int
  assumes "sorted_wrt (<) (map fst dq)"
  shows "dropWhile (\<lambda>(t, _). t \<le> left) dq = filter (\<lambda>p. left < fst p) dq"
proof -
  have "sorted_wrt (\<lambda>p q. \<not> fst p \<le> left \<longrightarrow> \<not> fst q \<le> left) dq"
    using assms unfolding sorted_wrt_map by (rule sorted_wrt_mono_rel [rotated]) (intro impI, linarith)
  then show ?thesis
    using dropWhile_eq_filter [of "\<lambda>(t, _). t \<le> left" dq] by (simp add: split_beta not_le)
qed

section \<open>The loop invariant\<close>

text \<open>\<open>idx seg c\<close> is the index of the last of the first \<open>c\<close> points of a segment.\<close>

definition idx :: "nat \<Rightarrow> nat \<Rightarrow> nat option" where
  "idx seg c = (if c = 0 then None else Some (seg + c - 1))"

text \<open>
  The points of the current segment, oldest first, sit in the series from \<open>seg\<close> up to \<open>k\<close>.
\<close>

definition segment_at :: "sample list \<Rightarrow> nat \<Rightarrow> nat \<Rightarrow> (int \<times> f64) list \<Rightarrow> bool" where
  "segment_at series seg k P \<longleftrightarrow>
     seg + length P = k \<and> k \<le> length series \<and> (\<forall>j<length P. series ! (seg + j) = (fst (P ! j), Some (snd (P ! j))))"

lemma advance_eff_idx:
  assumes "segment_at series seg k P" and "c \<le> length P"
  shows "advance_eff series k left (seg + c) (idx seg c) =
    idx seg (c + length (takeWhile (\<lambda>p. fst p \<le> left) (drop c P)))"
  using assms(2)
proof (induction "length P - c" arbitrary: c)
  case 0
  then have "c = length P"
    by simp
  with assms(1) show ?case
    by (subst advance_eff.simps) (simp add: segment_at_def)
next
  case (Suc n)
  then have c: "c < length P"
    by simp
  then have at: "seg + c < k" "seg + c < length series" "fst (series ! (seg + c)) = fst (P ! c)"
    using assms(1) by (auto simp: segment_at_def)
  have drop: "drop c P = P ! c # drop (Suc c) P"
    using c by (simp add: Cons_nth_drop_Suc)
  show ?case
  proof (cases "fst (P ! c) \<le> left")
    case True
    have "advance_eff series k left (seg + c) (idx seg c) = advance_eff series k left (seg + Suc c) (idx seg (Suc c))"
      by (subst advance_eff.simps) (simp add: at True idx_def)
    also have "\<dots> = idx seg (Suc c + length (takeWhile (\<lambda>p. fst p \<le> left) (drop (Suc c) P)))"
      using Suc c by (intro Suc.hyps(1)) simp_all
    finally show ?thesis
      by (simp add: drop True)
  next
    case False
    then show ?thesis
      by (subst advance_eff.simps) (simp add: at drop)
  qed
qed

lemma takeWhile_skip:
  assumes "\<forall>p\<in>set (take c P). Q p" and "c \<le> length P"
  shows "c + length (takeWhile Q (drop c P)) = length (takeWhile Q P)"
proof -
  have "takeWhile Q P = take c P @ takeWhile Q (drop c P)"
    using assms(1) by (metis append_take_drop_id takeWhile_append2)
  with assms(2) show ?thesis
    by simp
qed

text \<open>The state after the points \<open>P\<close> of a segment; \<open>left\<close> is the left edge of the last window.\<close>

definition drop_inv :: "sample list \<Rightarrow> int \<Rightarrow> nat \<Rightarrow> drop_state \<Rightarrow> (int \<times> f64) list \<Rightarrow> bool" where
  "drop_inv series w k st P \<longleftrightarrow>
     segment_at series (ds_seg st) k P \<and>
     (if P = [] then ds_dq st = [] \<and> ds_eff st = None
      else let left = sat_i64 (fst (last P) - w) in
        ds_dq st = filter (\<lambda>p. left < fst p) (rmax P) \<and>
        (\<exists>c\<le>length P. ds_eff st = idx (ds_seg st) c \<and> (\<forall>p\<in>set (take c P). fst p \<le> left)))"

lemma filter_time_rmax:
  assumes "sorted_wrt (<) (map fst P)"
  shows "filter (\<lambda>p. left < fst p) (rmax P) = rmax (filter (\<lambda>p. left < fst p) P)"
  using assms
proof (induction P)
  case (Cons p P)
  show ?case
  proof (cases "left < fst p")
    case True
    with Cons.prems have "filter (\<lambda>q. left < fst q) P = P"
      by (auto simp: filter_id_conv)
    with True Cons show ?thesis
      using set_rmax [of P] by (auto simp: filter_id_conv)
  next
    case False
    with Cons show ?thesis
      by simp
  qed
qed simp

lemma rmax_times: "sorted_wrt (<) (map fst P) \<Longrightarrow> sorted_wrt (<) (map fst (rmax P))"
  by (induction P) (auto dest: subsetD [OF set_rmax])

lemma drop_step_deque:
  assumes "drop_inv series w k st P" and "sorted_wrt (<) (map fst (P @ [(t, x)]))"
    and "\<forall>p\<in>set (P @ [(t, x)]). snd p \<noteq> NaN"
  shows "dropWhile (\<lambda>(tf, _). tf \<le> sat_i64 (t - w)) (pop_back_le x (ds_dq st) @ [(t, x)]) =
    rmax (filter (\<lambda>p. sat_i64 (t - w) < fst p) (P @ [(t, x)]))"
proof -
  let ?left = "sat_i64 (t - w)" and ?keep = "\<lambda>p. \<not> f64_le (snd p) x"
  obtain L where L: "ds_dq st = filter (\<lambda>p. L < fst p) (rmax P)" "L \<le> ?left"
  proof (cases "P = []")
    case True
    with assms(1) have "ds_dq st = filter (\<lambda>p. ?left < fst p) (rmax P)"
      by (simp add: drop_inv_def)
    with that show ?thesis
      by blast
  next
    case False
    then have "fst (last P) < t"
      using assms(2) by (auto simp: sorted_wrt_append)
    then have "sat_i64 (fst (last P) - w) \<le> ?left"
      by (intro sat_i64_mono) simp
    with False assms(1) that show ?thesis
      by (auto simp: drop_inv_def Let_def)
  qed
  have times: "sorted_wrt (<) (map fst (rmax P))" "\<forall>p\<in>set (rmax P). fst p < t" "\<forall>p\<in>set (rmax P). snd p \<noteq> NaN"
    using assms(2,3) set_rmax [of P] by (auto simp: sorted_wrt_append intro!: rmax_times)
  have pop: "pop_back_le x (ds_dq st) = filter ?keep (filter (\<lambda>p. L < fst p) (rmax P))"
    unfolding L(1)
    by (rule pop_back_le_filter) (use assms(3) times(3) rmax_decreasing in \<open>auto intro: sorted_wrt_filter\<close>)
  have "sorted_wrt (<) (map fst (pop_back_le x (ds_dq st) @ [(t, x)]))"
    using times unfolding pop by (auto simp: sorted_wrt_append sorted_wrt_map intro!: sorted_wrt_filter)
  then have "dropWhile (\<lambda>(tf, _). tf \<le> ?left) (pop_back_le x (ds_dq st) @ [(t, x)]) =
      filter (\<lambda>p. ?left < fst p) (filter ?keep (filter (\<lambda>p. L < fst p) (rmax P)) @ [(t, x)])"
    unfolding pop by (rule dropWhile_time)
  also have "\<dots> = filter (\<lambda>p. ?left < fst p) (rmax (P @ [(t, x)]))"
    using L(2) by (auto simp: rmax_snoc intro!: filter_cong)
  also have "\<dots> = rmax (filter (\<lambda>p. ?left < fst p) (P @ [(t, x)]))"
    using assms(2) by (rule filter_time_rmax)
  finally show ?thesis .
qed

lemma drop_step_eff:
  assumes "drop_inv series w k st P" and "sorted_wrt (<) (map fst (P @ [(t, x)]))"
  shows "advance_eff series k (sat_i64 (t - w)) (case ds_eff st of None \<Rightarrow> ds_seg st | Some e \<Rightarrow> Suc e) (ds_eff st) =
    idx (ds_seg st) (length (takeWhile (\<lambda>p. fst p \<le> sat_i64 (t - w)) P))"
proof -
  let ?left = "sat_i64 (t - w)"
  obtain c where c: "c \<le> length P" "ds_eff st = idx (ds_seg st) c" "\<forall>p\<in>set (take c P). fst p \<le> ?left"
  proof (cases "P = []")
    case True
    with assms(1) that [of 0] show ?thesis
      by (simp add: drop_inv_def idx_def)
  next
    case False
    then have "fst (last P) < t"
      using assms(2) by (auto simp: sorted_wrt_append)
    then have "sat_i64 (fst (last P) - w) \<le> ?left"
      by (intro sat_i64_mono) simp
    with False assms(1) that show ?thesis
      by (fastforce simp: drop_inv_def Let_def)
  qed
  have "(case ds_eff st of None \<Rightarrow> ds_seg st | Some e \<Rightarrow> Suc e) = ds_seg st + c"
    using c(2) by (simp add: idx_def)
  then show ?thesis
    using advance_eff_idx [of series "ds_seg st" k P c ?left] assms(1) c takeWhile_skip [OF c(3,1)]
    by (simp add: drop_inv_def)
qed

section \<open>One step\<close>

lemma takeWhile_time:
  fixes left :: int
  assumes "sorted_wrt (<) (map fst P)"
  shows "takeWhile (\<lambda>p. fst p \<le> left) P = filter (\<lambda>p. fst p \<le> left) P"
  using assms
proof (induction P)
  case (Cons p P)
  then show ?case
    by (auto simp: empty_filter_conv)
qed simp

lemma value_at_idx:
  assumes "segment_at series seg k P" and "c \<le> length P" and "c > 0"
  shows "value_at series (seg + c - 1) = Some (snd (P ! (c - 1)))"
proof -
  have "c - 1 < length P" "seg + c - 1 = seg + (c - 1)"
    using assms by auto
  moreover from this have "seg + (c - 1) < length series" "series ! (seg + (c - 1)) = (fst (P ! (c - 1)), Some (snd (P ! (c - 1))))"
    using assms(1) unfolding segment_at_def by auto
  ultimately show ?thesis
    by (simp add: value_at_def)
qed

definition opt_max :: "f64 option \<Rightarrow> f64 option \<Rightarrow> f64 option" where
  "opt_max front in_effect =
     (case (front, in_effect) of
        (Some a, Some b) \<Rightarrow> Some (f64_max a b)
      | (Some a, None) \<Rightarrow> Some a
      | (None, Some a) \<Rightarrow> Some a
      | (None, None) \<Rightarrow> None)"

lemma max_of_opt_max:
  assumes "\<forall>p\<in>set recent. snd p \<noteq> NaN" and "\<forall>v\<in>set_option older. v \<noteq> NaN"
    and "set vs = snd ` set recent \<union> set_option older"
  shows "max_of vs = opt_max (map_option snd (case rmax recent of [] \<Rightarrow> None | p # _ \<Rightarrow> Some p)) older"
proof -
  have nan: "\<forall>v\<in>set vs. v \<noteq> NaN"
    using assms by auto
  show ?thesis
  proof (cases "recent = []")
    case True
    show ?thesis
    proof (cases older)
      case None
      with True assms(3) show ?thesis
        by (simp add: max_of_def opt_max_def)
    next
      case (Some b)
      with True assms have "is_max b (set vs)"
        by (simp add: is_max_def)
      with nan True Some show ?thesis
        by (simp add: max_of_eq opt_max_def)
    qed
  next
    case False
    let ?a = "snd (hd (rmax recent))"
    have a: "is_max ?a (snd ` set recent)"
      using False assms(1) by (rule is_max_rmax)
    then have "?a \<noteq> NaN"
      using assms(1) by (auto simp: is_max_def)
    have front: "map_option snd (case rmax recent of [] \<Rightarrow> None | p # _ \<Rightarrow> Some p) = Some ?a"
      using False by (cases "rmax recent") auto
    show ?thesis
    proof (cases older)
      case None
      with a assms(3) nan show ?thesis
        by (simp add: max_of_eq front opt_max_def)
    next
      case (Some b)
      then have "is_max (f64_max ?a b) (set vs)"
        using is_max_f64_max [OF a] assms(2,3) \<open>?a \<noteq> NaN\<close> by simp
      with nan Some show ?thesis
        by (simp add: max_of_eq front opt_max_def)
    qed
  qed
qed

lemma drop_step_Some:
  "drop_step series i w k (t, Some x) st =
     (let left = sat_i64 (t - w);
          dq = dropWhile (\<lambda>(tf, _). tf \<le> left) (pop_back_le x (ds_dq st) @ [(t, x)]);
          eff = advance_eff series k left (case ds_eff st of None \<Rightarrow> ds_seg st | Some e \<Rightarrow> Suc e) (ds_eff st)
      in (\<lparr>ds_dq = dq, ds_seg = ds_seg st, ds_eff = eff\<rparr>,
          case opt_max (map_option snd (case dq of [] \<Rightarrow> None | p # _ \<Rightarrow> Some p)) (Option.bind eff (value_at series)) of
            None \<Rightarrow> []
          | Some m \<Rightarrow> if f64_lt (Fin 0) m \<and> f64_le x (f64_mul (f64_sub (Fin 1) i) m) then [t] else []))"
  by (simp add: drop_step_def Let_def opt_max_def split: list.splits option.splits prod.splits)

lemma values_in_effect_set:
  fixes left :: int
  assumes "sorted_wrt (<) (map fst P)"
  defines "c \<equiv> length (takeWhile (\<lambda>p. fst p \<le> left) P)"
  shows "set (values_in_effect left (t, x) (rev P)) =
    snd ` set (filter (\<lambda>p. left < fst p) (P @ [(t, x)])) \<union> set_option (if c = 0 then None else Some (snd (P ! (c - 1))))"
proof -
  have older: "filter (\<lambda>q. fst q \<le> left) (rev P) = rev (takeWhile (\<lambda>p. fst p \<le> left) P)"
    using takeWhile_time [OF assms(1)] by (simp add: rev_filter)
  have "set (case rev (takeWhile (\<lambda>p. fst p \<le> left) P) of [] \<Rightarrow> [] | q # _ \<Rightarrow> [snd q]) =
      set_option (if c = 0 then None else Some (snd (P ! (c - 1))))"
  proof (cases "takeWhile (\<lambda>p. fst p \<le> left) P" rule: rev_cases)
    case (snoc ys y)
    then have "c = Suc (length ys)" "P ! length ys = y"
      using takeWhile_nth [of "length ys" "\<lambda>p. fst p \<le> left" P] by (auto simp: c_def)
    with snoc show ?thesis
      by simp
  qed (simp add: c_def)
  then show ?thesis
    unfolding values_in_effect_def older by auto
qed

lemma drop_step_correct:
  assumes inv: "drop_inv series w k st P" and at: "k < length series" "series ! k = (t, Some x)"
    and sorted: "sorted_wrt (<) (map fst (P @ [(t, x)]))" and nan: "\<forall>p\<in>set (P @ [(t, x)]). snd p \<noteq> NaN"
  obtains st' where
    "drop_step series i w k (t, Some x) st = (st', if drops i w (t, x) (rev P) then [t] else [])"
    "drop_inv series w (Suc k) st' (P @ [(t, x)])"
proof -
  let ?left = "sat_i64 (t - w)"
  let ?recent = "filter (\<lambda>p. ?left < fst p) (P @ [(t, x)])"
  define c where "c = length (takeWhile (\<lambda>p. fst p \<le> ?left) P)"
  let ?st = "\<lparr>ds_dq = rmax ?recent, ds_seg = ds_seg st, ds_eff = idx (ds_seg st) c\<rparr>"
  have seg: "segment_at series (ds_seg st) k P"
    using inv by (simp add: drop_inv_def)
  have c: "c \<le> length P" "\<forall>p\<in>set (take c P). fst p \<le> ?left"
    unfolding c_def by (auto simp: length_takeWhile_le takeWhile_eq_take [symmetric] dest: set_takeWhileD)
  have older: "Option.bind (idx (ds_seg st) c) (value_at series) = (if c = 0 then None else Some (snd (P ! (c - 1))))"
    using value_at_idx [OF seg c(1)] by (simp add: idx_def)
  have "max_of (values_in_effect ?left (t, x) (rev P)) =
      opt_max (map_option snd (case rmax ?recent of [] \<Rightarrow> None | p # _ \<Rightarrow> Some p)) (if c = 0 then None else Some (snd (P ! (c - 1))))"
  proof (rule max_of_opt_max)
    show "\<forall>v\<in>set_option (if c = 0 then None else Some (snd (P ! (c - 1)))). v \<noteq> NaN"
      using c(1) nan by auto
    show "set (values_in_effect ?left (t, x) (rev P)) =
        snd ` set ?recent \<union> set_option (if c = 0 then None else Some (snd (P ! (c - 1))))"
      unfolding c_def using sorted by (intro values_in_effect_set) (simp add: sorted_wrt_append)
  qed (use nan in auto)
  then have "drop_step series i w k (t, Some x) st = (?st, if drops i w (t, x) (rev P) then [t] else [])"
    unfolding drop_step_Some Let_def drop_step_deque [OF inv sorted nan] drop_step_eff [OF inv sorted] c_def [symmetric]
      older drops_def fst_conv snd_conv by (simp split: option.split)
  moreover have "drop_inv series w (Suc k) ?st (P @ [(t, x)])"
    using seg at c filter_time_rmax [OF sorted, of ?left]
    by (auto simp: drop_inv_def segment_at_def nth_append intro!: exI [of _ c] dest: less_antisym)
  ultimately show ?thesis
    using that by blast
qed

section \<open>The whole loop\<close>

definition no_nan :: "sample list \<Rightarrow> bool" where
  "no_nan s \<longleftrightarrow> (\<forall>p\<in>set s. snd p \<noteq> Some NaN)"

lemma drop_eq_ConsD:
  assumes "drop k xs = y # ys"
  shows "k < length xs \<and> xs ! k = y \<and> drop (Suc k) xs = ys"
proof -
  have "k < length xs"
    using assms by (cases "k < length xs") auto
  with assms show ?thesis
    using Cons_nth_drop_Suc [of k xs] by simp
qed

lemma drop_loop_reference:
  assumes "drop_inv series w k st P" and "drop k series = rest"
    and "sorted_wrt (<) (map fst P @ map fst (defined_samples rest))"
    and "\<forall>p\<in>set P. snd p \<noteq> NaN" and "no_nan rest"
  shows "drop_loop series i w k st rest = drop_reference i w (rev P) rest"
  using assms
proof (induction rest arbitrary: k st P)
  case (Cons s rest)
  obtain t v where s: "s = (t, v)"
    by fastforce
  have at: "k < length series" "series ! k = (t, v)" "drop (Suc k) series = rest"
    using drop_eq_ConsD [of k series s rest] Cons.prems(2) s by (simp_all add: nth_via_drop)
  show ?case
  proof (cases v)
    case None
    have "drop_inv series w (Suc k) \<lparr>ds_dq = [], ds_seg = Suc k, ds_eff = None\<rparr> []"
      using at(1) by (simp add: drop_inv_def segment_at_def)
    from Cons.IH [OF this at(3)] Cons.prems(3,5) show ?thesis
      by (simp add: s None drop_step_def no_nan_def sorted_wrt_append)
  next
    case (Some x)
    have sorted: "sorted_wrt (<) (map fst (P @ [(t, x)]) @ map fst (defined_samples rest))"
      using Cons.prems(3) s Some by simp
    have nan: "\<forall>p\<in>set (P @ [(t, x)]). snd p \<noteq> NaN"
      using Cons.prems(4,5) s Some by (auto simp: no_nan_def)
    obtain st' where
      "drop_step series i w k (t, Some x) st = (st', if drops i w (t, x) (rev P) then [t] else [])"
      "drop_inv series w (Suc k) st' (P @ [(t, x)])"
      using drop_step_correct [OF Cons.prems(1) at(1) at(2) [unfolded Some] _ nan, of i] sorted
      by (auto simp: sorted_wrt_append)
    moreover from Cons.IH [OF this(2) at(3) sorted nan] Cons.prems(5)
    have "drop_loop series i w (Suc k) st' rest = drop_reference i w ((t, x) # rev P) rest"
      by (simp add: no_nan_def)
    ultimately show ?thesis
      by (simp add: s Some)
  qed
qed simp

section \<open>Equivalence with the reference\<close>

text \<open>
  C7. \<open>drop_events\<close> (monotone deque of recent maxima plus a moving index for the value in effect at the
  left edge) returns exactly the drops of its defining comment, computed the slow way: for every
  point, collect the values in effect during the window ending there, take their maximum, and report the
  point when that maximum is positive and the value is at most \<open>(1 - i)\<close> times it. The times of
  the defined samples must increase and no value may be NaN; breaks may carry any time.
\<close>

theorem drop_events_reference:
  assumes "sorted_wrt (<) (map fst (defined_samples s))" and "no_nan s"
  shows "drop_events s i w = drop_reference i w [] s"
  using drop_loop_reference [of s w 0 "\<lparr>ds_dq = [], ds_seg = 0, ds_eff = None\<rparr>" "[]" s i] assms
  by (simp add: drop_events_def drop_inv_def segment_at_def)

definition drop_sample :: "sample list" where
  "drop_sample = [(0, Some (Fin 100)), (10, Some (Fin 90)), (20, Some (Fin 95)), (35, Some (Fin 49)),
     (35, None), (40, Some (Fin 10)), (50, Some (Fin 4))]"

theorem drop_events_reference_witness:
  "sorted_wrt (<) (map fst (defined_samples drop_sample)) \<and> no_nan drop_sample \<and>
   drop_events drop_sample (Fin (1 / 2)) 30 = drop_reference (Fin (1 / 2)) 30 [] drop_sample \<and>
   drop_reference (Fin (1 / 2)) 30 [] drop_sample = [35, 50]"
proof -
  have "sorted_wrt (<) (map fst (defined_samples drop_sample))" "no_nan drop_sample"
    "drop_reference (Fin (1 / 2)) 30 [] drop_sample = [35, 50]"
    by code_simp+
  with drop_events_reference [of drop_sample "Fin (1 / 2)" 30] show ?thesis
    by blast
qed

section \<open>Generator contract\<close>

text \<open>The step only looks at the samples before its own, so a run inside a longer series is the same run shifted.\<close>

definition shift_state :: "nat \<Rightarrow> drop_state \<Rightarrow> drop_state" where
  "shift_state n st = st\<lparr>ds_seg := ds_seg st + n, ds_eff := map_option (\<lambda>e. e + n) (ds_eff st)\<rparr>"

definition eff_below :: "nat \<Rightarrow> nat option \<Rightarrow> bool" where
  "eff_below k eff \<longleftrightarrow> (\<forall>e\<in>set_option eff. e < k)"

lemma advance_eff_below: "eff_below k eff \<Longrightarrow> eff_below k (advance_eff series k left nxt eff)"
  by (induction series k left nxt eff rule: advance_eff.induct)
    (subst advance_eff.simps, auto simp: eff_below_def)

lemma advance_eff_shift:
  assumes "k \<le> length series"
  shows "advance_eff (pre @ series @ post) (k + length pre) left (nxt + length pre) (map_option (\<lambda>e. e + length pre) eff) =
    map_option (\<lambda>e. e + length pre) (advance_eff series k left nxt eff)"
  using assms
proof (induction series k left nxt eff rule: advance_eff.induct)
  case (1 series k left nxt eff)
  have at: "(pre @ series @ post) ! (nxt + length pre) = series ! nxt" if "nxt < k"
    using that "1.prems" by (simp add: nth_append)
  show ?case
  proof (cases "nxt < k \<and> nxt < length series \<and> fst (series ! nxt) \<le> left")
    case True
    from "1.IH" [OF True "1.prems"] True show ?thesis
      by (subst (1 2) advance_eff.simps) (simp add: at)
  next
    case False
    then show ?thesis
      using "1.prems" by (subst (1 2) advance_eff.simps) (auto simp: at)
  qed
qed

lemma value_at_shift: "e < length series \<Longrightarrow> value_at (pre @ series @ post) (e + length pre) = value_at series e"
  by (simp add: value_at_def nth_append)

lemma drop_step_shift:
  assumes "k \<le> length series" and "eff_below k (ds_eff st)"
    and "drop_step series i w k s st = (st', out)"
  shows "drop_step (pre @ series @ post) i w (k + length pre) s (shift_state (length pre) st) =
      (shift_state (length pre) st', out) \<and> eff_below (Suc k) (ds_eff st')"
proof (cases s)
  case (Pair t v)
  show ?thesis
  proof (cases v)
    case None
    with assms(3) Pair show ?thesis
      by (auto simp: drop_step_def shift_state_def eff_below_def)
  next
    case (Some x)
    let ?left = "sat_i64 (t - w)" and ?n = "length pre"
    let ?nxt = "case ds_eff st of None \<Rightarrow> ds_seg st | Some e \<Rightarrow> Suc e"
    define eff where "eff = advance_eff series k ?left ?nxt (ds_eff st)"
    have nxt: "(case ds_eff (shift_state ?n st) of None \<Rightarrow> ds_seg (shift_state ?n st) | Some e \<Rightarrow> Suc e) = ?nxt + ?n"
      by (simp add: shift_state_def split: option.split)
    have eff: "advance_eff (pre @ series @ post) (k + ?n) ?left (?nxt + ?n) (ds_eff (shift_state ?n st)) =
        map_option (\<lambda>e. e + ?n) eff"
      using advance_eff_shift [OF assms(1)] by (simp add: shift_state_def eff_def)
    have below: "eff_below k eff"
      unfolding eff_def using assms(2) by (rule advance_eff_below)
    then have bind: "Option.bind (map_option (\<lambda>e. e + ?n) eff) (value_at (pre @ series @ post)) = Option.bind eff (value_at series)"
      using assms(1) by (cases eff) (auto simp: eff_below_def value_at_shift)
    have "ds_dq (shift_state ?n st) = ds_dq st" "ds_seg (shift_state ?n st) = ds_seg st + ?n"
      by (simp_all add: shift_state_def)
    with assms(3) show ?thesis
      unfolding Pair Some drop_step_Some Let_def nxt eff bind eff_def [symmetric]
      using below by (auto simp: shift_state_def eff_below_def less_Suc_eq)
  qed
qed

lemma drop_loop_shift:
  assumes "k + length rest \<le> length series" and "eff_below k (ds_eff st)"
  shows "drop_loop (pre @ series @ post) i w (k + length pre) (shift_state (length pre) st) rest =
    drop_loop series i w k st rest"
  using assms
proof (induction rest arbitrary: k st)
  case (Cons s rest)
  obtain st' out where step: "drop_step series i w k s st = (st', out)"
    by fastforce
  from drop_step_shift [OF _ Cons.prems(2) this, of pre post] Cons.prems(1)
    Cons.IH [of "Suc k" st']
  show ?case
    by (simp add: step)
qed simp

text \<open>Only the state of a run matters after a break, and a break leaves the initial state shifted there.\<close>

lemma drop_loop_break:
  "drop_loop series i w k st (xs @ (t, None) # ys) =
     drop_loop series i w k st xs @
     drop_loop series i w (Suc (k + length xs)) \<lparr>ds_dq = [], ds_seg = Suc (k + length xs), ds_eff = None\<rparr> ys"
  by (induction xs arbitrary: k st) (auto simp: drop_step_def split: prod.splits)

lemma drop_events_break: "drop_events (xs @ (t, None) # ys) i w = drop_events xs i w @ drop_events ys i w"
proof -
  let ?init = "\<lparr>ds_dq = [], ds_seg = 0, ds_eff = None\<rparr>"
  have "drop_loop (xs @ (t, None) # ys) i w 0 ?init xs = drop_loop xs i w 0 ?init xs"
    using drop_loop_shift [of 0 xs xs ?init "[]" "(t, None) # ys" i w] by (simp add: shift_state_def eff_below_def)
  moreover have "drop_loop (xs @ (t, None) # ys) i w (Suc (length xs)) \<lparr>ds_dq = [], ds_seg = Suc (length xs), ds_eff = None\<rparr> ys =
      drop_loop ys i w 0 ?init ys"
    using drop_loop_shift [of 0 ys ys ?init "xs @ [(t, None)]" "[]" i w] by (simp add: shift_state_def eff_below_def)
  ultimately show ?thesis
    by (simp add: drop_events_def drop_loop_break)
qed

lemma drop_step_out: "snd (drop_step series i w k s st) = [] \<or> snd s \<noteq> None \<and> snd (drop_step series i w k s st) = [fst s]"
  by (cases s; cases "snd s") (auto simp: drop_step_def drop_step_Some Let_def split: option.split)

lemma drop_loop_subseq: "subseq (drop_loop series i w k st rest) (map fst (defined_samples rest))"
proof (induction rest arbitrary: k st)
  case (Cons s rest)
  show ?case
    using drop_step_out [of series i w k s st] Cons.IH [of "Suc k" "fst (drop_step series i w k s st)"]
    by (auto simp: split_beta)
qed simp

lemma drop_events_subseq: "subseq (drop_events s i w) (map fst (defined_samples s))"
  unfolding drop_events_def by (rule drop_loop_subseq)

interpretation drop_gen: event_generator "\<lambda>s. drop_events s i w" for i w
  by unfold_locales (rule drop_events_subseq, rule drop_events_break)

end
