(* ===== verification/Scam_Series.thy ===== *)
theory Scam_Series
  imports Scam_Drop
begin

text \<open>
  Metric series of a pool history and the coverage of a window (\<open>scam-filter/src/series.rs\<close>). The
  precision of \<open>f64::powi\<close> is not specified by Rust, so the powers of ten are the parameter
  \<open>pw\<close>; \<open>positive_powers pw\<close> states that they are positive finite numbers.
\<close>

section \<open>Operations\<close>

definition parse_amount :: "(nat \<Rightarrow> f64) \<Rightarrow> string \<Rightarrow> nat \<Rightarrow> algorithm_error + f64" where
  "parse_amount pw s decimals =
     (if s = [] \<or> \<not> list_all is_ascii_digit s then Err (InvalidInput (ReserveNotDecimal s))
      else Ok (f64_div (f64_of_nat (undigits 10 s)) (pw decimals)))"

definition overlaps :: "time_range \<Rightarrow> int \<Rightarrow> int \<Rightarrow> bool" where
  "overlaps r from_exclusive to_exclusive \<longleftrightarrow> tr_from_ms r < to_exclusive \<and> tr_to_ms r > from_exclusive"

definition metric_value :: "(nat \<Rightarrow> f64) \<Rightarrow> metric \<Rightarrow> pool_point \<Rightarrow> algorithm_error + f64 option" where
  "metric_value pw metric p =
     bind_result (parse_amount pw (pt_reserve_quote p) (pt_decimals_quote p)) (\<lambda>quote.
       case metric of
         Liquidity \<Rightarrow> Ok (Some quote)
       | Price \<Rightarrow>
           bind_result (parse_amount pw (pt_reserve_token p) (pt_decimals_token p)) (\<lambda>token.
             Ok (if f64_lt (Fin 0) token then Some (f64_div quote token) else None)))"

text \<open>The break pushed between two points when a missing range overlaps the time between them.\<close>

definition gap_break :: "time_range list \<Rightarrow> int \<Rightarrow> int \<Rightarrow> sample list" where
  "gap_break missing prev t =
     (case find (\<lambda>r. overlaps r prev t) missing of None \<Rightarrow> [] | Some gap \<Rightarrow> [(max (tr_from_ms gap) prev, None)])"

fun metric_series_loop ::
  "(nat \<Rightarrow> f64) \<Rightarrow> time_range list \<Rightarrow> metric \<Rightarrow> int \<Rightarrow> int option \<Rightarrow> pool_point list \<Rightarrow> algorithm_error + sample list" where
  "metric_series_loop pw missing metric as_of_ms last_t [] = Ok []"
| "metric_series_loop pw missing metric as_of_ms last_t (p # ps) =
     (let t = pt_t_ms p in
      if (case last_t of None \<Rightarrow> False | Some prev \<Rightarrow> t \<le> prev) then Err (InvalidInput PointsNotIncreasing)
      else if t > as_of_ms then Err (InvalidInput PointAfterAsOf)
      else bind_result (metric_value pw metric p) (\<lambda>value.
        bind_result (metric_series_loop pw missing metric as_of_ms (Some t) ps) (\<lambda>rest.
          Ok ((case last_t of None \<Rightarrow> [] | Some prev \<Rightarrow> gap_break missing prev t) @ (t, value) # rest))))"

definition metric_series :: "(nat \<Rightarrow> f64) \<Rightarrow> pool_history \<Rightarrow> metric \<Rightarrow> int \<Rightarrow> algorithm_error + sample list" where
  "metric_series pw h metric as_of_ms = metric_series_loop pw (ph_missing h) metric as_of_ms None (ph_points h)"

text \<open>\<open>clip_gap\<close> is the body of the loop over the missing ranges, \<open>gap_sweep\<close> the merging sweep.\<close>

definition clip_gap :: "int \<Rightarrow> int \<Rightarrow> time_range \<Rightarrow> (int \<times> int) list" where
  "clip_gap start end_ms r =
     (let a = max (tr_from_ms r) start; b = min (tr_to_ms r) end_ms in if b > a then [(a, b)] else [])"

fun gap_sweep :: "(int \<times> int) option \<Rightarrow> int \<Rightarrow> (int \<times> int) list \<Rightarrow> int" where
  "gap_sweep None uncovered [] = uncovered"
| "gap_sweep (Some (ca, cb)) uncovered [] = sat_i64 (uncovered + sat_i64 (cb - ca))"
| "gap_sweep None uncovered ((a, b) # gaps) = gap_sweep (Some (a, b)) uncovered gaps"
| "gap_sweep (Some (ca, cb)) uncovered ((a, b) # gaps) =
     (if a \<le> cb then gap_sweep (Some (ca, max cb b)) uncovered gaps
      else gap_sweep (Some (a, b)) (sat_i64 (uncovered + sat_i64 (cb - ca))) gaps)"

definition coverage_bps :: "int \<Rightarrow> int \<Rightarrow> int option \<Rightarrow> time_range list \<Rightarrow> nat" where
  "coverage_bps start end_ms first_obs missing =
     (let len = sat_i64 (end_ms - start) in
      if len \<le> 0 then 10000
      else case first_obs of
        None \<Rightarrow> 0
      | Some f \<Rightarrow>
          let gaps = (if f > start then [(start, min f end_ms)] else []) @ concat (map (clip_gap start end_ms) missing);
              uncovered = gap_sweep None 0 (sort gaps);
              covered = max (sat_i64 (len - uncovered)) 0
          in nat (min (max (covered * 10000 div len) 0) 10000))"

section \<open>The sweep measures the union of the gaps\<close>

definition gap_points :: "(int \<times> int) list \<Rightarrow> int set" where
  "gap_points gaps = (\<Union>(a, b)\<in>set gaps. {a..<b})"

lemma gap_points_simps [simp]:
  "gap_points [] = {}" "gap_points ((a, b) # gaps) = {a..<b} \<union> gap_points gaps"
  "gap_points (xs @ ys) = gap_points xs \<union> gap_points ys"
  by (auto simp: gap_points_def)

lemma finite_gap_points [simp]: "finite (gap_points gaps)"
  by (auto simp: gap_points_def)

lemma gap_points_sort [simp]: "gap_points (sort gaps) = gap_points gaps"
  by (simp add: gap_points_def)

lemma gap_points_ge: "\<forall>(a, b)\<in>set gaps. c \<le> a \<Longrightarrow> x \<in> gap_points gaps \<Longrightarrow> c \<le> x"
  by (fastforce simp: gap_points_def)

lemma sorted_gaps_Cons:
  assumes "sorted ((a, b) # gaps)"
  shows "sorted gaps" and "\<forall>(a', b')\<in>set gaps. a \<le> a'"
proof -
  show "sorted gaps"
    using assms by simp
  have "\<forall>g\<in>set gaps. (a, b) \<le> g"
    using assms by simp
  then show "\<forall>(a', b')\<in>set gaps. a \<le> a'"
    by (auto simp: less_eq_prod_def)
qed

lemma gap_sweep_Some:
  assumes "sorted gaps" and "\<forall>(a, b)\<in>set gaps. a < b \<and> ca \<le> a" and "ca < cb" and "0 \<le> u"
    and "u + int (card ({ca..<cb} \<union> gap_points gaps)) \<le> i64_max"
  shows "gap_sweep (Some (ca, cb)) u gaps = u + int (card ({ca..<cb} \<union> gap_points gaps))"
  using assms
proof (induction gaps arbitrary: ca cb u)
  case Nil
  then have "u + (cb - ca) \<le> i64_max" "0 \<le> cb - ca" "cb - ca \<le> i64_max"
    by simp_all
  then have "sat_i64 (cb - ca) = cb - ca" "sat_i64 (u + (cb - ca)) = u + (cb - ca)"
    using Nil.prems(4) by (simp_all add: sat_i64_nonneg_id)
  then show ?case
    using Nil.prems(3) by simp
next
  case (Cons g gaps)
  obtain a b where g: "g = (a, b)"
    by fastforce
  have ab: "a < b" "ca \<le> a" and later: "\<forall>(a', b')\<in>set gaps. a' < b' \<and> a \<le> a'" and sorted: "sorted gaps"
    using sorted_gaps_Cons [of a b gaps] Cons.prems(1,2) g by auto
  show ?case
  proof (cases "a \<le> cb")
    case True
    have merge: "{ca..<cb} \<union> gap_points (g # gaps) = {ca..<max cb b} \<union> gap_points gaps"
      using True ab Cons.prems(3) by (auto simp: g)
    have "gap_sweep (Some (ca, cb)) u (g # gaps) = gap_sweep (Some (ca, max cb b)) u gaps"
      using True by (simp add: g)
    also have "\<dots> = u + int (card ({ca..<max cb b} \<union> gap_points gaps))"
      using later ab sorted Cons.prems(3,4,5) unfolding merge by (intro Cons.IH) auto
    finally show ?thesis
      unfolding merge .
  next
    case False
    have "{ca..<cb} \<inter> ({a..<b} \<union> gap_points gaps) = {}"
      using False gap_points_ge [of gaps a] later by fastforce
    then have card: "card ({ca..<cb} \<union> gap_points (g # gaps)) = nat (cb - ca) + card ({a..<b} \<union> gap_points gaps)"
      by (simp add: g card_Un_disjoint)
    with Cons.prems(3,5) have le: "u + (cb - ca) + int (card ({a..<b} \<union> gap_points gaps)) \<le> i64_max"
      by simp
    with Cons.prems(3,4) have sat: "sat_i64 (cb - ca) = cb - ca" "sat_i64 (u + (cb - ca)) = u + (cb - ca)"
      by (auto intro!: sat_i64_nonneg_id)
    have "gap_sweep (Some (ca, cb)) u (g # gaps) = gap_sweep (Some (a, b)) (u + (cb - ca)) gaps"
      using False sat by (simp add: g)
    also have "\<dots> = u + (cb - ca) + int (card ({a..<b} \<union> gap_points gaps))"
      using later ab sorted Cons.prems(3,4) le by (intro Cons.IH) auto
    finally show ?thesis
      using card Cons.prems(3) by simp
  qed
qed

lemma gap_sweep_card:
  assumes "\<forall>(a, b)\<in>set gaps. a < b" and "int (card (gap_points gaps)) \<le> i64_max"
  shows "gap_sweep None 0 (sort gaps) = int (card (gap_points gaps))"
proof (cases "sort gaps")
  case Nil
  then have "set gaps = {}"
    using set_sort [of "\<lambda>x. x" gaps] by simp
  then show ?thesis
    by simp
next
  case (Cons g rest)
  obtain a b where g: "g = (a, b)"
    by fastforce
  have set: "set gaps = insert (a, b) (set rest)"
    using set_sort [of "\<lambda>x. x" gaps] by (simp add: Cons g)
  then have points: "gap_points gaps = {a..<b} \<union> gap_points rest"
    by (simp add: gap_points_def)
  have "sorted ((a, b) # rest)"
    unfolding g [symmetric] Cons [symmetric] by (rule sorted_sort)
  then have "sorted rest" "\<forall>(a', b')\<in>set rest. a' < b' \<and> a \<le> a'" "a < b"
    using assms(1) set sorted_gaps_Cons [of a b rest] by auto
  then show ?thesis
    using gap_sweep_Some [of rest a b 0] assms(2) by (simp add: Cons g points)
qed

section \<open>Coverage\<close>

text \<open>An instant that is neither before the first observation nor inside a missing range, and those of \<open>[start, end)\<close>.\<close>

definition observed_at :: "int \<Rightarrow> time_range list \<Rightarrow> int \<Rightarrow> bool" where
  "observed_at f missing x \<longleftrightarrow> f \<le> x \<and> (\<forall>r\<in>set missing. \<not> (tr_from_ms r \<le> x \<and> x < tr_to_ms r))"

definition observed_instants :: "int \<Rightarrow> int \<Rightarrow> int \<Rightarrow> time_range list \<Rightarrow> int set" where
  "observed_instants start end_ms f missing = {x. start \<le> x \<and> x < end_ms \<and> observed_at f missing x}"

lemma clip_gap_single: "gap_points (clip_gap start end_ms r) =
    {x. start \<le> x \<and> x < end_ms \<and> tr_from_ms r \<le> x \<and> x < tr_to_ms r}"
  by (auto simp: clip_gap_def Let_def)

lemma clip_gap_points: "gap_points (concat (map (clip_gap start end_ms) missing)) =
    {x. start \<le> x \<and> x < end_ms \<and> (\<exists>r\<in>set missing. tr_from_ms r \<le> x \<and> x < tr_to_ms r)}"
proof (induction missing)
  case (Cons r missing)
  show ?case
    unfolding list.map concat.simps gap_points_simps clip_gap_single Cons.IH by auto
qed simp

lemma clip_gap_proper: "\<forall>(a, b)\<in>set (concat (map (clip_gap start end_ms) missing)). a < b"
  by (auto simp: clip_gap_def Let_def split: if_splits)

lemma div_full_iff:
  fixes c len :: int
  assumes "c \<le> len" and "0 < len"
  shows "c * 10000 div len = 10000 \<longleftrightarrow> c = len"
proof
  assume "c * 10000 div len = 10000"
  then have "10000 * len \<le> c * 10000"
    using assms(2) by (metis div_mult_mod_eq add_increasing2 order_refl mod_int_pos_iff pos_mod_sign mult.commute)
  with assms(1) show "c = len"
    by simp
qed (use assms(2) in simp)

lemma coverage_bps_card:
  assumes "start < end_ms" and "end_ms - start \<le> i64_max"
  shows "int (coverage_bps start end_ms (Some f) missing) =
    int (card (observed_instants start end_ms f missing)) * 10000 div (end_ms - start)"
proof -
  let ?len = "end_ms - start" and ?obs = "observed_instants start end_ms f missing"
  define gaps where
    "gaps = (if f > start then [(start, min f end_ms)] else []) @ concat (map (clip_gap start end_ms) missing)"
  have len: "sat_i64 ?len = ?len"
    using assms by (intro sat_i64_nonneg_id) auto
  have points: "gap_points gaps = {start..<end_ms} - ?obs"
  proof -
    have first: "gap_points (if f > start then [(start, min f end_ms)] else []) = {x. start \<le> x \<and> x < end_ms \<and> \<not> f \<le> x}"
      by auto
    show ?thesis
      unfolding gaps_def gap_points_simps(3) clip_gap_points observed_instants_def observed_at_def first
      by (simp only: set_eq_iff Un_iff mem_Collect_eq Diff_iff atLeastLessThan_iff) blast
  qed
  have sub: "?obs \<subseteq> {start..<end_ms}"
    by (auto simp: observed_instants_def)
  then have fin: "finite ?obs"
    by (rule finite_subset) simp
  have le: "int (card ?obs) \<le> ?len"
    using card_mono [OF _ sub] assms(1) by simp
  have card: "int (card (gap_points gaps)) = ?len - int (card ?obs)"
    unfolding points using card_Diff_subset [OF fin sub] le assms(1) by simp
  have "\<forall>(a, b)\<in>set gaps. a < b"
    unfolding gaps_def set_append using assms(1) by (intro ball_Un [THEN iffD2] conjI clip_gap_proper) simp
  then have sweep: "gap_sweep None 0 (sort gaps) = ?len - int (card ?obs)"
    using gap_sweep_card [of gaps] card assms(2) by simp
  have "sat_i64 (?len - (?len - int (card ?obs))) = int (card ?obs)"
    using le assms by (simp add: sat_i64_nonneg_id)
  then have "coverage_bps start end_ms (Some f) missing = nat (min (max (int (card ?obs) * 10000 div ?len) 0) 10000)"
    using assms(1) unfolding coverage_bps_def option.case gaps_def [symmetric] Let_def len sweep by simp
  moreover have "int (card ?obs) * 10000 div ?len \<le> 10000"
  proof -
    have "int (card ?obs) * 10000 div ?len \<le> ?len * 10000 div ?len"
      using le assms(1) by (intro zdiv_mono1) auto
    also have "?len * 10000 div ?len = 10000"
      using assms(1) by (intro nonzero_mult_div_cancel_left) simp
    finally show ?thesis .
  qed
  moreover have "0 \<le> int (card ?obs) * 10000 div ?len"
    using assms(1) by (simp add: pos_imp_zdiv_nonneg_iff)
  ultimately show ?thesis
    by simp
qed

lemma coverage_bps_full:
  assumes "start < end_ms" and "end_ms - start \<le> i64_max"
  shows "coverage_bps start end_ms (Some f) missing = 10000 \<longleftrightarrow>
      (\<forall>x. start \<le> x \<and> x < end_ms \<longrightarrow> observed_at f missing x)"
proof -
  let ?obs = "observed_instants start end_ms f missing" and ?len = "end_ms - start"
  have sub: "?obs \<subseteq> {start..<end_ms}"
    by (auto simp: observed_instants_def)
  have "coverage_bps start end_ms (Some f) missing = 10000 \<longleftrightarrow> int (card ?obs) * 10000 div ?len = 10000"
    unfolding coverage_bps_card [OF assms, symmetric] by simp
  also have "\<dots> \<longleftrightarrow> int (card ?obs) = ?len"
    by (rule div_full_iff) (use assms(1) card_mono [OF _ sub] in simp_all)
  also have "\<dots> \<longleftrightarrow> ?obs = {start..<end_ms}"
    using card_subset_eq [OF _ sub] assms(1) by auto
  also have "\<dots> \<longleftrightarrow> (\<forall>x. start \<le> x \<and> x < end_ms \<longrightarrow> observed_at f missing x)"
    unfolding observed_instants_def by (simp only: set_eq_iff mem_Collect_eq atLeastLessThan_iff) blast
  finally show ?thesis .
qed

text \<open>Moving from \<open>[start, end)\<close> to \<open>(start, end]\<close> exchanges the two end points.\<close>

lemma observed_shift:
  assumes "start < end_ms"
  shows "int (card {x. start < x \<and> x \<le> end_ms \<and> observed_at f missing x}) =
    int (card (observed_instants start end_ms f missing)) - of_bool (observed_at f missing start) + of_bool (observed_at f missing end_ms)"
proof -
  let ?inner = "{x. start < x \<and> x < end_ms \<and> observed_at f missing x}"
  have fin: "finite ?inner"
    by (rule finite_subset [of _ "{start..end_ms}"]) auto
  have "observed_instants start end_ms f missing = (if observed_at f missing start then insert start ?inner else ?inner)"
    using assms by (auto simp: observed_instants_def order_le_less)
  moreover have "{x. start < x \<and> x \<le> end_ms \<and> observed_at f missing x} =
      (if observed_at f missing end_ms then insert end_ms ?inner else ?inner)"
    using assms by (auto simp: order_le_less)
  ultimately show ?thesis
    using fin by simp
qed

text \<open>
  C14. What \<open>coverage_bps\<close> measures. For a window whose length fits an \<open>i64\<close> and a known first observation, clipping,
  sorting and merging the gaps gives the share of the instants of \<open>[start, end)\<close> that are observed (neither before
  the first observation nor inside a missing range) in basis points, rounded down; overlapping and nested ranges are
  not counted twice. The value is 10000 exactly when every instant of \<open>[start, end)\<close> is observed. The comment
  speaks of \<open>(start, end]\<close>: the number of observed instants there differs by exactly the two end points, so a full coverage
  leaves the instant \<open>end\<close> open.
\<close>

theorem coverage_bps_exact:
  assumes "start < end_ms" and "end_ms - start \<le> i64_max"
  shows "int (coverage_bps start end_ms (Some f) missing) =
      int (card (observed_instants start end_ms f missing)) * 10000 div (end_ms - start) \<and>
    (coverage_bps start end_ms (Some f) missing = 10000 \<longleftrightarrow> (\<forall>x. start \<le> x \<and> x < end_ms \<longrightarrow> observed_at f missing x)) \<and>
    int (card {x. start < x \<and> x \<le> end_ms \<and> observed_at f missing x}) =
      int (card (observed_instants start end_ms f missing)) - of_bool (observed_at f missing start) + of_bool (observed_at f missing end_ms)"
  using coverage_bps_card [OF assms] coverage_bps_full [OF assms] observed_shift [OF assms(1)] by blast

theorem coverage_bps_exact_witness:
  "coverage_bps 100 200 (Some 90) [TimeRange 150 160, TimeRange 155 170, TimeRange 10 20] = 8000 \<and>
   int (card (observed_instants 100 200 90 [TimeRange 150 160, TimeRange 155 170, TimeRange 10 20])) * 10000 div 100 = 8000"
proof -
  have "coverage_bps 100 200 (Some 90) [TimeRange 150 160, TimeRange 155 170, TimeRange 10 20] = 8000"
    by code_simp
  with coverage_bps_exact [of 100 200 90 "[TimeRange 150 160, TimeRange 155 170, TimeRange 10 20]"] show ?thesis
    by (simp add: i64_max_def)
qed

section \<open>Metric series\<close>

definition positive_powers :: "(nat \<Rightarrow> f64) \<Rightarrow> bool" where
  "positive_powers pw \<longleftrightarrow> (\<forall>d. \<exists>q>0. pw d = Fin q)"

definition is_decimal :: "string \<Rightarrow> bool" where
  "is_decimal s \<longleftrightarrow> s \<noteq> [] \<and> list_all is_ascii_digit s"

definition valid_point :: "metric \<Rightarrow> int \<Rightarrow> pool_point \<Rightarrow> bool" where
  "valid_point m as_of_ms p \<longleftrightarrow>
     pt_t_ms p \<le> as_of_ms \<and> is_decimal (pt_reserve_quote p) \<and> (m = Price \<longrightarrow> is_decimal (pt_reserve_token p))"

lemma parse_amount_ok: "is_ok (parse_amount pw s d) \<longleftrightarrow> is_decimal s"
  by (auto simp: parse_amount_def is_decimal_def)

lemma metric_value_ok: "is_ok (metric_value pw m p) \<longleftrightarrow>
    is_decimal (pt_reserve_quote p) \<and> (m = Price \<longrightarrow> is_decimal (pt_reserve_token p))"
proof -
  note ok = parse_amount_ok [of pw "pt_reserve_quote p" "pt_decimals_quote p"]
    parse_amount_ok [of pw "pt_reserve_token p" "pt_decimals_token p"]
  show ?thesis
    unfolding ok [symmetric]
    by (cases m; cases "parse_amount pw (pt_reserve_quote p) (pt_decimals_quote p)";
        cases "parse_amount pw (pt_reserve_token p) (pt_decimals_token p)") (auto simp: metric_value_def)
qed

lemma gap_break_none: "snd p = None" if "p \<in> set (gap_break missing prev t)"
  using that by (auto simp: gap_break_def split: option.splits)

lemma gap_break_time:
  assumes "p \<in> set (gap_break missing prev t)" and "prev < t"
  shows "prev \<le> fst p \<and> fst p < t"
proof (cases "find (\<lambda>r. overlaps r prev t) missing")
  case None
  with assms(1) show ?thesis
    by (simp add: gap_break_def)
next
  case (Some gap)
  then have "overlaps gap prev t"
    by (auto simp: find_Some_iff)
  with assms Some show ?thesis
    by (simp add: gap_break_def overlaps_def)
qed

lemma gap_break_empty: "gap_break missing prev t = [] \<longleftrightarrow> (\<forall>r\<in>set missing. \<not> overlaps r prev t)"
proof -
  have "gap_break missing prev t = [] \<longleftrightarrow> find (\<lambda>r. overlaps r prev t) missing = None"
    by (simp add: gap_break_def split: option.split)
  then show ?thesis
    by (auto simp: find_None_iff)
qed

lemma f64_div_not_NaN: "0 < q \<Longrightarrow> a \<noteq> NaN \<Longrightarrow> f64_div a (Fin q) \<noteq> NaN"
  by (cases a) (auto simp: f64_round_def Let_def)

lemma f64_of_nat_not_NaN: "f64_of_nat n \<noteq> NaN"
  by (auto simp: f64_of_nat_def f64_round_def Let_def)

lemma liquidity_not_NaN:
  assumes "positive_powers pw" and "metric_value pw Liquidity p = Ok v"
  shows "v \<noteq> Some NaN"
proof -
  obtain q where "0 < q" "pw (pt_decimals_quote p) = Fin q"
    using assms(1) by (auto simp: positive_powers_def)
  with assms(2) f64_div_not_NaN [of q] f64_of_nat_not_NaN show ?thesis
    by (auto simp: metric_value_def parse_amount_def split: if_splits)
qed

lemma metric_series_loop_ok:
  "is_ok (metric_series_loop pw missing m as_of_ms last_t ps) \<longleftrightarrow>
     sorted_wrt (<) (case_option [] (\<lambda>t. [t]) last_t @ map pt_t_ms ps) \<and> (\<forall>p\<in>set ps. valid_point m as_of_ms p)"
proof (induction ps arbitrary: last_t)
  case Nil
  then show ?case by (simp split: option.split)
next
  case (Cons p ps)
  have "is_ok (metric_series_loop pw missing m as_of_ms last_t (p # ps)) \<longleftrightarrow>
      \<not> (case last_t of None \<Rightarrow> False | Some prev \<Rightarrow> pt_t_ms p \<le> prev) \<and> pt_t_ms p \<le> as_of_ms \<and>
      is_ok (metric_value pw m p) \<and> is_ok (metric_series_loop pw missing m as_of_ms (Some (pt_t_ms p)) ps)"
    by (cases "metric_value pw m p"; cases "metric_series_loop pw missing m as_of_ms (Some (pt_t_ms p)) ps")
      (simp_all add: Let_def not_le)
  also have "\<dots> \<longleftrightarrow> sorted_wrt (<) (case_option [] (\<lambda>t. [t]) last_t @ map pt_t_ms (p # ps)) \<and>
      (\<forall>p\<in>set (p # ps). valid_point m as_of_ms p)"
    unfolding Cons.IH metric_value_ok by (cases last_t) (auto simp: valid_point_def)
  finally show ?case .
qed

text \<open>Two samples that follow each other without a break have no missing range between them.\<close>

fun unbroken :: "time_range list \<Rightarrow> sample list \<Rightarrow> bool" where
  "unbroken missing (a # b # s) \<longleftrightarrow>
     (snd a \<noteq> None \<and> snd b \<noteq> None \<longrightarrow> (\<forall>r\<in>set missing. \<not> overlaps r (fst a) (fst b))) \<and> unbroken missing (b # s)"
| "unbroken missing s \<longleftrightarrow> True"

definition head_unbroken :: "time_range list \<Rightarrow> int option \<Rightarrow> sample list \<Rightarrow> bool" where
  "head_unbroken missing last_t s \<longleftrightarrow>
     (case (last_t, s) of
        (Some prev, a # _) \<Rightarrow> snd a \<noteq> None \<longrightarrow> (\<forall>r\<in>set missing. \<not> overlaps r prev (fst a))
      | _ \<Rightarrow> True)"

lemma unbroken_break: "snd a = None \<Longrightarrow> unbroken missing (a # s) \<longleftrightarrow> unbroken missing s"
  by (cases s) auto

lemma unbroken_point: "unbroken missing ((t, v) # s) \<longleftrightarrow> (v \<noteq> None \<longrightarrow> head_unbroken missing (Some t) s) \<and> unbroken missing s"
  by (cases s) (auto simp: head_unbroken_def)

lemma gap_break_cases:
  obtains "gap_break missing prev t = []" "\<forall>r\<in>set missing. \<not> overlaps r prev t"
  | a where "gap_break missing prev t = [(a, None)]" "prev < t \<Longrightarrow> prev \<le> a \<and> a < t"
proof (cases "find (\<lambda>r. overlaps r prev t) missing")
  case None
  then have "gap_break missing prev t = []"
    by (simp add: gap_break_def)
  with that(1) gap_break_empty show ?thesis
    by blast
next
  case (Some gap)
  then have "gap_break missing prev t = [(max (tr_from_ms gap) prev, None)]"
    by (simp add: gap_break_def)
  with that(2) gap_break_time [of "(max (tr_from_ms gap) prev, None)" missing prev t] show ?thesis
    by auto
qed

lemma metric_series_loop_unbroken:
  "metric_series_loop pw missing m as_of_ms last_t ps = Ok s \<Longrightarrow>
     head_unbroken missing last_t s \<and> unbroken missing s \<and> (\<forall>p\<in>set s. fst p \<le> as_of_ms)"
proof (induction ps arbitrary: last_t s)
  case Nil
  then show ?case by (simp add: head_unbroken_def split: option.split)
next
  case (Cons p ps)
  let ?t = "pt_t_ms p"
  from Cons.prems obtain v rest where
    rest: "metric_series_loop pw missing m as_of_ms (Some ?t) ps = Ok rest" and t: "?t \<le> as_of_ms"
    and last: "case last_t of None \<Rightarrow> True | Some prev \<Rightarrow> prev < ?t"
    and s: "s = (case last_t of None \<Rightarrow> [] | Some prev \<Rightarrow> gap_break missing prev ?t) @ (?t, v) # rest"
    by (auto simp: Let_def split: if_splits option.splits)
  have IH: "head_unbroken missing (Some ?t) rest" "unbroken missing rest" "\<forall>p\<in>set rest. fst p \<le> as_of_ms"
    using Cons.IH [OF rest] by simp_all
  then have point: "unbroken missing ((?t, v) # rest)"
    by (simp add: unbroken_point)
  show ?case
  proof (cases last_t)
    case None
    with point IH t show ?thesis
      by (simp add: s head_unbroken_def)
  next
    case (Some prev)
    show ?thesis
      by (rule gap_break_cases [of missing prev ?t])
        (use point IH t last in \<open>auto simp: s Some head_unbroken_def unbroken_break\<close>)
  qed
qed

lemma metric_series_loop_times:
  "metric_series_loop pw missing m as_of_ms last_t ps = Ok s \<Longrightarrow>
     subseq (map fst (defined_samples s)) (map pt_t_ms ps)"
proof (induction ps arbitrary: last_t s)
  case (Cons p ps)
  from Cons.prems obtain v rest where
    rest: "metric_series_loop pw missing m as_of_ms (Some (pt_t_ms p)) ps = Ok rest"
    and s: "s = (case last_t of None \<Rightarrow> [] | Some prev \<Rightarrow> gap_break missing prev (pt_t_ms p)) @ (pt_t_ms p, v) # rest"
    by (auto simp: Let_def split: if_splits option.splits)
  have "defined_samples (case last_t of None \<Rightarrow> [] | Some prev \<Rightarrow> gap_break missing prev (pt_t_ms p)) = []"
    by (auto simp: gap_break_def split: option.splits)
  with Cons.IH [OF rest] show ?case
    by (simp add: s list_emb_Cons)
qed simp

text \<open>
  \<open>metric_series\<close> accepts a history exactly when its points have strictly increasing times, none
  after the as-of time, and decimal reserves (of the quote token, and of the token itself for the
  price). The series it then returns has strictly increasing times at its defined samples, nothing
  after the as-of time, and a break between any two neighbouring values that a missing range overlaps, so no
  generator compares values across unobserved time.
\<close>

lemma metric_series_sound:
  "(is_ok (metric_series pw h m as_of_ms) \<longleftrightarrow>
      sorted_wrt (<) (map pt_t_ms (ph_points h)) \<and> (\<forall>p\<in>set (ph_points h). valid_point m as_of_ms p)) \<and>
   (\<forall>s. metric_series pw h m as_of_ms = Ok s \<longrightarrow>
      sorted_wrt (<) (map fst (defined_samples s)) \<and> (\<forall>p\<in>set s. fst p \<le> as_of_ms) \<and> unbroken (ph_missing h) s)"
proof (intro conjI allI impI)
  show ok: "is_ok (metric_series pw h m as_of_ms) \<longleftrightarrow>
      sorted_wrt (<) (map pt_t_ms (ph_points h)) \<and> (\<forall>p\<in>set (ph_points h). valid_point m as_of_ms p)"
    unfolding metric_series_def metric_series_loop_ok by simp
  fix s
  assume s: "metric_series pw h m as_of_ms = Ok s"
  with ok show "sorted_wrt (<) (map fst (defined_samples s))"
    unfolding metric_series_def using sorted_wrt_subseq [OF metric_series_loop_times] by auto
  show "\<forall>p\<in>set s. fst p \<le> as_of_ms" "unbroken (ph_missing h) s"
    using s metric_series_loop_unbroken unfolding metric_series_def by blast+
qed

definition unit_powers :: "nat \<Rightarrow> f64" where
  "unit_powers d = Fin (10 ^ d)"

definition point_at :: "int \<Rightarrow> nat \<Rightarrow> pool_point" where
  "point_at t reserve = \<lparr>pt_t_ms = t, pt_reserve_quote = dec_string reserve, pt_reserve_token = ''1'',
     pt_decimals_quote = 0, pt_decimals_token = 0\<rparr>"

definition sample_history :: pool_history where
  "sample_history = \<lparr>ph_schema = ''pool'', ph_builder_version = ''1'', ph_from_ms = 0, ph_bucket_ms = 1000,
     ph_points = [point_at 0 100, point_at 1000 80, point_at 5000 90, point_at 9000 30],
     ph_missing = [TimeRange 2000 3000], ph_warmup = \<lparr>wu_from_ms = 0, wu_complete = True\<rparr>\<rparr>"

end
