(* ===== verification/Scam_Rules.thy ===== *)
theory Scam_Rules
  imports Scam_Series "HOL-Library.Code_Target_Nat"
begin

text \<open>
  Evaluation of the window rules (\<open>scam-filter/src/rules.rs\<close>). \<open>eval_rule\<close> is the method \<open>eval\<close>, with one
  definition for each of its branches, and \<open>analyze\<close> the entry point of the port. The
  powers of ten of the series are the parameter \<open>pw\<close>.
\<close>

section \<open>Helpers\<close>

definition MAX_LOOKBACK_SEC :: nat where
  "MAX_LOOKBACK_SEC = 86400"

definition WARMUP_SEC :: nat where
  "WARMUP_SEC = 86400"

definition CONTRACT_VERSION :: nat where
  "CONTRACT_VERSION = 2"

definition frac_bps :: "nat \<Rightarrow> f64" where
  "frac_bps bps = f64_div (f64_of_nat bps) (Fin 10000)"

definition secs_to_ms :: "nat \<Rightarrow> algorithm_error + int" where
  "secs_to_ms s =
     (if int s \<le> i64_max \<and> int s * 1000 \<le> i64_max then Ok (int s * 1000)
      else Err (InvalidInput DurationOutOfRange))"

definition in_window :: "int list \<Rightarrow> int \<Rightarrow> int \<Rightarrow> int list" where
  "in_window events lo hi = filter (\<lambda>e. e > lo \<and> e \<le> hi) events"

definition r2_step :: "int list \<Rightarrow> int \<Rightarrow> int \<Rightarrow> (nat \<times> int \<times> int) option \<Rightarrow> int \<Rightarrow> (nat \<times> int \<times> int) option" where
  "r2_step s window_ms b best end_ms =
     (let lo = max b (sat_i64 (end_ms - window_ms)); c = length (filter (\<lambda>x. x > lo \<and> x \<le> end_ms) s) in
      if (case best of None \<Rightarrow> True | Some (bc, _) \<Rightarrow> c \<ge> bc) then Some (c, lo, end_ms) else best)"

definition r2_evidence :: "int list \<Rightarrow> int \<Rightarrow> int \<Rightarrow> int \<Rightarrow> (nat \<times> int \<times> int) option" where
  "r2_evidence switches window_ms b t = (let s = in_window switches b t in foldl (r2_step s window_ms b) None s)"

definition resolution_need :: "int \<Rightarrow> nat \<Rightarrow> int \<Rightarrow> bool" where
  "resolution_need dt_ms k len_ms \<longleftrightarrow> sat_i64 (int (k - 1) * dt_ms) < len_ms"

definition resolution_ok :: "rule_spec \<Rightarrow> int \<Rightarrow> algorithm_error + bool" where
  "resolution_ok rule dt_ms =
     (case rule of
        ChangeCount _ _ lookback _ _ _ count \<Rightarrow> bind_result (secs_to_ms lookback) (\<lambda>len. Ok (resolution_need dt_ms count len))
      | SwitchDensity _ _ _ window _ _ count \<Rightarrow> bind_result (secs_to_ms window) (\<lambda>len. Ok (resolution_need dt_ms count len))
      | WindowDrop _ _ window _ \<Rightarrow> bind_result (secs_to_ms window) (\<lambda>len. Ok (len \<ge> dt_ms))
      | EventCount _ _ _ _ \<Rightarrow> Ok True)"

definition evidence :: "int list \<Rightarrow> string \<Rightarrow> nat \<Rightarrow> evidence_event list" where
  "evidence events kind cap = map (\<lambda>t_ms. EvidenceEvent t_ms kind) (drop (length events - cap) events)"

record finding =
  fi_fired :: bool
  fi_observed :: nat
  fi_threshold :: nat
  fi_window :: "evidence_window option"
  fi_events :: "evidence_event list"
  fi_coverage :: "nat \<times> bool"
  fi_warm :: "reason option"

record rule_ctx =
  cx_req :: analysis_request
  cx_limits :: limits
  cx_t :: int

definition window_floor :: "rule_ctx \<Rightarrow> int \<Rightarrow> int" where
  "window_floor cx t = (case tp_pool_created_ms (ar_token_profile (cx_req cx)) of Some c \<Rightarrow> max t c | None \<Rightarrow> t)"

definition window_start :: "rule_ctx \<Rightarrow> int \<Rightarrow> int" where
  "window_start cx lookback_ms = window_floor cx (sat_i64 (cx_t cx - lookback_ms))"

definition ctx_series :: "(nat \<Rightarrow> f64) \<Rightarrow> rule_ctx \<Rightarrow> metric \<Rightarrow> algorithm_error + sample list" where
  "ctx_series pw cx metric = metric_series pw (ar_pool_history (cx_req cx)) metric (cx_t cx)"

definition first_time :: "sample list \<Rightarrow> int option" where
  "first_time series = (case series of [] \<Rightarrow> None | s # _ \<Rightarrow> Some (fst s))"

definition pool_coverage :: "rule_ctx \<Rightarrow> sample list \<Rightarrow> int \<Rightarrow> nat \<times> bool" where
  "pool_coverage cx series b =
     (coverage_bps b (cx_t cx) (first_time series) (ph_missing (ar_pool_history (cx_req cx))),
      list_ex (\<lambda>(ts, v). v = None \<and> ts > b \<and> ts \<le> cx_t cx) series)"

definition warm :: "rule_ctx \<Rightarrow> sample list \<Rightarrow> int \<Rightarrow> int \<Rightarrow> reason option" where
  "warm cx series b need_ms =
     (let h = ar_pool_history (cx_req cx) in
      if \<not> wu_complete (ph_warmup h) then Some HistoryUnverified
      else let start = window_floor cx (sat_i64 (b - need_ms)) in
        if need_ms > 0 \<and> coverage_bps start b (first_time series) (ph_missing h) < 10000
        then Some WarmupIncomplete else None)"

definition finding_outcome :: "finding \<Rightarrow> outcome \<times> reason option" where
  "finding_outcome f =
     (let (cov, undefined_inside) = fi_coverage f; full = (cov = 10000 \<and> \<not> undefined_inside) in
      if fi_fired f then (Fired, None)
      else if \<not> full then (Incomplete, Some PartialCoverage)
      else case fi_warm f of Some r \<Rightarrow> (Incomplete, Some r) | None \<Rightarrow> (Clear, None))"

definition rule_result_of :: "rule_spec \<Rightarrow> finding \<Rightarrow> rule_result" where
  "rule_result_of rule f =
     \<lparr>rr_rule_id = rule_id rule, rr_outcome = fst (finding_outcome f), rr_reason = snd (finding_outcome f),
      rr_observed = Some (fi_observed f), rr_threshold = fi_threshold f, rr_window = fi_window f,
      rr_events = fi_events f, rr_coverage_bps = fst (fi_coverage f), rr_warmup_complete = (fi_warm f = None)\<rparr>"

definition not_evaluable :: "rule_ctx \<Rightarrow> rule_spec \<Rightarrow> nat \<Rightarrow> reason \<Rightarrow> rule_result" where
  "not_evaluable cx rule threshold r =
     \<lparr>rr_rule_id = rule_id rule, rr_outcome = NotEvaluable, rr_reason = Some r, rr_observed = None,
      rr_threshold = threshold, rr_window = None, rr_events = [], rr_coverage_bps = 0,
      rr_warmup_complete = wu_complete (ph_warmup (ar_pool_history (cx_req cx)))\<rparr>"

section \<open>Evaluation\<close>

definition rule_threshold :: "rule_spec \<Rightarrow> nat" where
  "rule_threshold rule =
     (case rule of
        ChangeCount _ _ _ _ _ _ count \<Rightarrow> count
      | SwitchDensity _ _ _ _ _ _ count \<Rightarrow> count
      | EventCount _ _ _ count \<Rightarrow> count
      | WindowDrop _ _ _ _ \<Rightarrow> 1)"

definition eval_event_count :: "rule_ctx \<Rightarrow> int \<Rightarrow> admin_event_kind list \<Rightarrow> nat \<Rightarrow> finding" where
  "eval_event_count cx b kinds threshold =
     (let profile = ar_token_profile (cx_req cx);
          ev = map ae_t_ms (filter (\<lambda>e. ae_kind e \<in> set kinds \<and> ae_t_ms e > b \<and> ae_t_ms e \<le> cx_t cx) (tp_admin_events profile));
          n = length ev
      in \<lparr>fi_fired = (n \<ge> threshold), fi_observed = n, fi_threshold = threshold,
          fi_window = Some (EvidenceWindow b (cx_t cx)),
          fi_events = evidence ev ''admin_event'' (lim_max_evidence_events (cx_limits cx)),
          fi_coverage = (coverage_bps b (cx_t cx) (Some b) (tp_missing profile), False), fi_warm = None\<rparr>)"

definition rule_metric :: "rule_spec \<Rightarrow> metric" where
  "rule_metric rule =
     (case rule of
        ChangeCount _ m _ _ _ _ _ \<Rightarrow> m
      | SwitchDensity _ m _ _ _ _ _ \<Rightarrow> m
      | _ \<Rightarrow> Liquidity)"

definition eval_change_count ::
  "rule_ctx \<Rightarrow> sample list \<Rightarrow> int \<Rightarrow> nat \<Rightarrow> direction \<Rightarrow> change_mode \<Rightarrow> nat \<Rightarrow> algorithm_error + finding" where
  "eval_change_count cx series b change_bps direction mode threshold =
     bind_result (case mode of Step \<Rightarrow> Ok 0 | Cumulative \<Rightarrow> secs_to_ms WARMUP_SEC) (\<lambda>need.
       let i = frac_bps change_bps;
           all_ev = (case mode of Step \<Rightarrow> step_events series i direction | Cumulative \<Rightarrow> cumulative_events series i direction);
           ev = in_window all_ev b (cx_t cx);
           n = length ev
       in Ok \<lparr>fi_fired = (n \<ge> threshold), fi_observed = n, fi_threshold = threshold,
              fi_window = Some (EvidenceWindow b (cx_t cx)),
              fi_events = evidence ev ''change'' (lim_max_evidence_events (cx_limits cx)),
              fi_coverage = pool_coverage cx series b, fi_warm = warm cx series b need\<rparr>)"

definition eval_switch_density ::
  "rule_ctx \<Rightarrow> sample list \<Rightarrow> int \<Rightarrow> nat \<Rightarrow> nat \<Rightarrow> switch_kind \<Rightarrow> nat \<Rightarrow> algorithm_error + finding" where
  "eval_switch_density cx series b window reversal kind threshold =
     (let all_ev = zigzag_switches series (frac_bps reversal) kind in
      bind_result (secs_to_ms window) (\<lambda>x2.
      bind_result (secs_to_ms WARMUP_SEC) (\<lambda>need.
        let wm = warm cx series b need in
        case r2_evidence all_ev x2 b (cx_t cx) of
          Some (n, lo, end_ms) \<Rightarrow>
            Ok \<lparr>fi_fired = (n \<ge> threshold), fi_observed = n, fi_threshold = threshold,
                fi_window = Some (EvidenceWindow lo end_ms),
                fi_events = evidence (in_window all_ev lo end_ms) ''switch'' (lim_max_evidence_events (cx_limits cx)),
                fi_coverage = pool_coverage cx series b, fi_warm = wm\<rparr>
        | None \<Rightarrow>
            Ok \<lparr>fi_fired = False, fi_observed = 0, fi_threshold = threshold,
                fi_window = Some (EvidenceWindow b (cx_t cx)), fi_events = [],
                fi_coverage = pool_coverage cx series b, fi_warm = wm\<rparr>)))"

definition eval_window_drop :: "rule_ctx \<Rightarrow> sample list \<Rightarrow> int \<Rightarrow> nat \<Rightarrow> nat \<Rightarrow> nat \<Rightarrow> algorithm_error + finding" where
  "eval_window_drop cx series b window drop_bps threshold =
     bind_result (secs_to_ms window) (\<lambda>x2.
       let ev = in_window (drop_events series (frac_bps drop_bps) x2) b (cx_t cx);
           n = length ev;
           w = (if ev = [] then None else Some (EvidenceWindow (sat_i64 (last ev - x2)) (last ev)))
       in Ok \<lparr>fi_fired = (n \<ge> 1), fi_observed = n, fi_threshold = threshold,
              fi_window = (case w of Some e \<Rightarrow> Some e | None \<Rightarrow> Some (EvidenceWindow b (cx_t cx))),
              fi_events = evidence ev ''drop'' (lim_max_evidence_events (cx_limits cx)),
              fi_coverage = pool_coverage cx series b, fi_warm = warm cx series b x2\<rparr>)"

definition eval_pool_rule :: "rule_ctx \<Rightarrow> sample list \<Rightarrow> int \<Rightarrow> rule_spec \<Rightarrow> algorithm_error + rule_result" where
  "eval_pool_rule cx series b rule =
     (case rule of
        ChangeCount _ _ _ change_bps direction mode _ \<Rightarrow>
          bind_result (eval_change_count cx series b change_bps direction mode (rule_threshold rule)) (\<lambda>f. Ok (rule_result_of rule f))
      | SwitchDensity _ _ _ window reversal kind _ \<Rightarrow>
          bind_result (eval_switch_density cx series b window reversal kind (rule_threshold rule)) (\<lambda>f. Ok (rule_result_of rule f))
      | WindowDrop _ _ window drop_bps \<Rightarrow>
          bind_result (eval_window_drop cx series b window drop_bps (rule_threshold rule)) (\<lambda>f. Ok (rule_result_of rule f))
      | EventCount _ _ _ _ \<Rightarrow> Ok (not_evaluable cx rule (rule_threshold rule) MetricUnavailable))"

definition eval_rule :: "(nat \<Rightarrow> f64) \<Rightarrow> rule_ctx \<Rightarrow> rule_spec \<Rightarrow> algorithm_error + rule_result" where
  "eval_rule pw cx rule =
     (let threshold = rule_threshold rule in
      bind_result (resolution_ok rule (ph_bucket_ms (ar_pool_history (cx_req cx)))) (\<lambda>ok.
        if \<not> ok then Ok (not_evaluable cx rule threshold ResolutionTooCoarse)
        else bind_result (secs_to_ms (rule_lookback_sec rule)) (\<lambda>lookback.
          let b = window_start cx lookback in
          case rule of
            EventCount _ kinds _ _ \<Rightarrow> Ok (rule_result_of rule (eval_event_count cx b kinds threshold))
          | _ \<Rightarrow>
              bind_result (ctx_series pw cx (rule_metric rule)) (\<lambda>series.
                if \<not> list_ex (\<lambda>(ts, v). v \<noteq> None \<and> ts \<le> cx_t cx) series
                then Ok (not_evaluable cx rule threshold NoUsableSegment)
                else eval_pool_rule cx series b rule))))"

section \<open>The port\<close>

definition check_bps :: "nat \<Rightarrow> nat option \<Rightarrow> string \<Rightarrow> string + unit" where
  "check_bps v mx what =
     (if v = 0 then Err (what @ '' must be > 0'')
      else case mx of
        Some m \<Rightarrow> if v > m then Err (what @ '' must be <= '' @ dec_string m) else Ok ()
      | None \<Rightarrow> Ok ())"

definition check_count :: "nat \<Rightarrow> string + unit" where
  "check_count n = (if n = 0 then Err ''minCount must be > 0'' else Ok ())"

definition check_window :: "nat \<Rightarrow> nat \<Rightarrow> string + unit" where
  "check_window window lookback =
     (if window = 0 \<or> window > lookback then Err ''windowSec must satisfy 0 < windowSec <= lookbackSec'' else Ok ())"

definition check_rule :: "rule_spec \<Rightarrow> string + unit" where
  "check_rule rule =
     (let lb = rule_lookback_sec rule in
      if lb = 0 \<or> lb > MAX_LOOKBACK_SEC
      then Err (''lookbackSec must be in 1..='' @ dec_string MAX_LOOKBACK_SEC)
      else case rule of
        ChangeCount _ _ _ change_bps direction _ count \<Rightarrow>
          bind_result (check_bps change_bps (if direction \<noteq> DirUp then Some 10000 else None) ''minChangeBps'')
            (\<lambda>_. check_count count)
      | SwitchDensity _ _ lookback window reversal kind count \<Rightarrow>
          bind_result (check_window window lookback) (\<lambda>_.
          bind_result (check_bps reversal (if kind \<noteq> SwTrough then Some 10000 else None) ''reversalBps'')
            (\<lambda>_. check_count count))
      | WindowDrop _ lookback window drop_bps \<Rightarrow>
          bind_result (check_window window lookback) (\<lambda>_. check_bps drop_bps (Some 10000) ''minDropBps'')
      | EventCount _ kinds _ count \<Rightarrow>
          (if kinds = [] then Err ''kinds must not be empty'' else check_count count))"

definition supports :: "rule_spec \<Rightarrow> support" where
  "supports rule = (case check_rule rule of Ok _ \<Rightarrow> Supported | Err e \<Rightarrow> Unsupported e)"

fun check_rules :: "rule_spec list \<Rightarrow> algorithm_error + unit" where
  "check_rules [] = Ok ()"
| "check_rules (rule # rules) =
     (case check_rule rule of Err r \<Rightarrow> Err (UnsupportedRule (rule_id rule) r) | Ok _ \<Rightarrow> check_rules rules)"

definition analyze :: "(nat \<Rightarrow> f64) \<Rightarrow> analysis_request \<Rightarrow> limits \<Rightarrow> algorithm_error + scam_analysis" where
  "analyze pw req lims =
     (if length (ar_rules req) > lim_max_rules lims then Err (LimitExceeded ''rules'')
      else if length (ph_points (ar_pool_history req)) > lim_max_points lims then Err (LimitExceeded ''points'')
      else if length (tp_admin_events (ar_token_profile req)) > lim_max_admin_events lims then Err (LimitExceeded ''adminEvents'')
      else if ph_bucket_ms (ar_pool_history req) \<le> 0 then Err (InvalidInput BucketNotPositive)
      else bind_result (check_rules (ar_rules req)) (\<lambda>_.
        let cx = \<lparr>cx_req = req, cx_limits = lims, cx_t = ao_t_ms (ar_as_of req)\<rparr> in
        bind_result (try_map (eval_rule pw cx) (ar_rules req)) (\<lambda>rules.
          Ok \<lparr>sa_algorithm_id = ''dambi.scam.window-rules'', sa_algorithm_version = ''0.2.0'',
              sa_contract_version = CONTRACT_VERSION, sa_analysis_mode = Real,
              sa_binding = \<lparr>bi_chain_id = sub_chain_id (ar_subject req), bi_pool = sub_pool (ar_subject req),
                bi_as_of_block = ao_block (ar_as_of req), bi_as_of_block_hash = ao_block_hash (ar_as_of req),
                bi_rules_hash = ar_rules_hash req\<rparr>,
              sa_rules = rules\<rparr>)))"

section \<open>The densest window\<close>

abbreviation window_lo :: "int \<Rightarrow> int \<Rightarrow> int \<Rightarrow> int" where
  "window_lo w b e \<equiv> max b (sat_i64 (e - w))"

abbreviation window_count :: "int list \<Rightarrow> int \<Rightarrow> int \<Rightarrow> int \<Rightarrow> nat" where
  "window_count s w b e \<equiv> length (in_window s (window_lo w b e) e)"

lemma r2_step_eq:
  "r2_step s w b best e =
     (if (case best of None \<Rightarrow> True | Some (bc, _) \<Rightarrow> window_count s w b e \<ge> bc)
      then Some (window_count s w b e, window_lo w b e, e) else best)"
  unfolding r2_step_def in_window_def Let_def by (rule refl)

lemma r2_fold:
  assumes "es \<noteq> []"
  shows "\<exists>us e vs. es = us @ e # vs \<and> foldl (r2_step s w b) None es = Some (window_count s w b e, window_lo w b e, e) \<and>
    (\<forall>u\<in>set us. window_count s w b u \<le> window_count s w b e) \<and> (\<forall>v\<in>set vs. window_count s w b v < window_count s w b e)"
  using assms
proof (induction es rule: rev_nonempty_induct)
  case (single x)
  show ?case
    by (rule exI [of _ "[]"], rule exI [of _ x], rule exI [of _ "[]"]) (simp add: r2_step_eq)
next
  case (snoc x xs)
  then obtain us e vs where IH: "xs = us @ e # vs"
    "foldl (r2_step s w b) None xs = Some (window_count s w b e, window_lo w b e, e)"
    "\<forall>u\<in>set us. window_count s w b u \<le> window_count s w b e" "\<forall>v\<in>set vs. window_count s w b v < window_count s w b e"
    by blast
  have step: "foldl (r2_step s w b) None (xs @ [x]) = r2_step s w b (Some (window_count s w b e, window_lo w b e, e)) x"
    using IH(2) by simp
  have all: "\<forall>u\<in>set xs. window_count s w b u \<le> window_count s w b e"
    using IH(3,4) unfolding IH(1) by (auto intro: less_imp_le)
  show ?case
  proof (cases "window_count s w b e \<le> window_count s w b x")
    case True
    then have "foldl (r2_step s w b) None (xs @ [x]) = Some (window_count s w b x, window_lo w b x, x)"
      unfolding step r2_step_eq by simp
    moreover have "\<forall>u\<in>set xs. window_count s w b u \<le> window_count s w b x"
      using all True by (auto intro: order_trans)
    ultimately show ?thesis
      by (intro exI [of _ xs] exI [of _ x] exI [of _ "[]"]) simp
  next
    case False
    then have "foldl (r2_step s w b) None (xs @ [x]) = Some (window_count s w b e, window_lo w b e, e)"
      unfolding step r2_step_eq by simp
    moreover have "\<forall>v\<in>set (vs @ [x]). window_count s w b v < window_count s w b e"
      using IH(4) False by auto
    ultimately show ?thesis
      using IH(1,3) by (intro exI [of _ us] exI [of _ e] exI [of _ "vs @ [x]"]) simp
  qed
qed

lemma length_filter_mono:
  assumes "\<And>x. x \<in> set xs \<Longrightarrow> P x \<Longrightarrow> Q x"
  shows "length (filter P xs) \<le> length (filter Q xs)"
  using assms by (induction xs) auto

lemma window_count_slide:
  assumes "sorted_wrt (<) s" and "0 < window_count s w b e"
  obtains x where "x \<in> set s" "x \<le> e" "b < x" "window_count s w b e \<le> window_count s w b x"
proof -
  define ins where "ins = in_window s (window_lo w b e) e"
  have "ins \<noteq> []"
    using assms(2) by (auto simp: ins_def)
  then have "last ins \<in> set ins"
    by (rule last_in_set)
  then have bounds: "last ins \<le> e" "window_lo w b e < last ins" "last ins \<in> set s"
    by (auto simp: ins_def in_window_def)
  have "sorted_wrt (<) ins"
    using assms(1) by (simp add: ins_def in_window_def sorted_wrt_filter)
  then have le: "y \<le> last ins" if "y \<in> set ins" for y
    using \<open>ins \<noteq> []\<close> that by (cases ins rule: rev_cases) (auto simp: sorted_wrt_append)
  have lo: "window_lo w b (last ins) \<le> window_lo w b e"
    using bounds(1) sat_i64_mono [of "last ins - w" "e - w"] by auto
  have "window_count s w b e \<le> window_count s w b (last ins)"
    unfolding in_window_def
  proof (rule length_filter_mono)
    fix x
    assume "x \<in> set s" "window_lo w b e < x \<and> x \<le> e"
    moreover from this have "x \<in> set ins"
      by (simp add: ins_def in_window_def)
    ultimately show "window_lo w b (last ins) < x \<and> x \<le> last ins"
      using le lo by auto
  qed
  with bounds that show thesis
    by auto
qed

lemma in_window_twice: "b \<le> lo \<Longrightarrow> hi \<le> t \<Longrightarrow> in_window (in_window s b t) lo hi = in_window s lo hi"
  by (auto simp: in_window_def intro!: filter_cong)

text \<open>
  C28. \<open>r2_evidence\<close> finds the densest window. For increasing switch times it returns \<open>None\<close> exactly
  when there is no switch in \<open>(b, t]\<close>; otherwise its window \<open>(lo, end]\<close> ends at a switch, \<open>lo\<close> is
  \<open>end - window\<close> cut at \<open>b\<close>, the count is the number of switches inside, no window of the same
  length ending anywhere up to \<open>t\<close> holds more, and every later switch ends a window with fewer.
\<close>

theorem r2_evidence_maximal:
  assumes "sorted_wrt (<) switches"
  shows "case r2_evidence switches w b t of
      None \<Rightarrow> in_window switches b t = []
    | Some (n, lo, e) \<Rightarrow>
        e \<in> set (in_window switches b t) \<and> lo = max b (sat_i64 (e - w)) \<and> n = length (in_window switches lo e) \<and>
        (\<forall>e'\<le>t. length (in_window switches (max b (sat_i64 (e' - w))) e') \<le> n) \<and>
        (\<forall>e'\<in>set (in_window switches b t). e < e' \<longrightarrow> length (in_window switches (max b (sat_i64 (e' - w))) e') < n)"
proof (cases "in_window switches b t = []")
  case True
  then show ?thesis by (simp add: r2_evidence_def)
next
  case False
  let ?s = "in_window switches b t"
  have sorted: "sorted_wrt (<) ?s"
    using assms by (simp add: in_window_def sorted_wrt_filter)
  obtain us e vs where fold: "?s = us @ e # vs"
    "r2_evidence switches w b t = Some (window_count ?s w b e, window_lo w b e, e)"
    "\<forall>u\<in>set us. window_count ?s w b u \<le> window_count ?s w b e" "\<forall>v\<in>set vs. window_count ?s w b v < window_count ?s w b e"
    using r2_fold [OF False, of ?s w b] by (auto simp: r2_evidence_def)
  have count: "window_count ?s w b e' = window_count switches w b e'" if "e' \<le> t" for e'
    using that by (simp add: in_window_twice)
  have e: "e \<in> set ?s"
    unfolding fold(1) by simp
  then have "e \<le> t"
    by (simp add: in_window_def)
  have best: "window_count ?s w b x \<le> window_count ?s w b e" if "x \<in> set ?s" for x
    using that fold(3,4) unfolding fold(1) by (auto intro: less_imp_le)
  have "window_count switches w b e' \<le> window_count switches w b e" if "e' \<le> t" for e'
  proof (cases "window_count switches w b e' = 0")
    case False
    then obtain x where x: "x \<in> set switches" "x \<le> e'" "b < x" "window_count switches w b e' \<le> window_count switches w b x"
      using window_count_slide [OF assms, of b e' w] by auto
    with that best [of x] have "window_count switches w b x \<le> window_count switches w b e"
      using count [of x] count [OF \<open>e \<le> t\<close>] by (auto simp: in_window_def)
    with x(4) show ?thesis by simp
  qed simp
  moreover have "window_count switches w b e' < window_count switches w b e" if "e' \<in> set ?s" "e < e'" for e'
  proof -
    have "e' \<in> set vs"
      using that sorted unfolding fold(1) by (auto simp: sorted_wrt_append)
    with fold(4) that(1) show ?thesis
      using count [of e'] count [OF \<open>e \<le> t\<close>] by (auto simp: in_window_def)
  qed
  ultimately show ?thesis
    using fold(2) e count [OF \<open>e \<le> t\<close>] by simp
qed

theorem r2_evidence_maximal_witness:
  "r2_evidence [10, 20, 25, 40, 100, 110, 112] 20 5 115 = Some (3, 92, 112) \<and>
   length (in_window [10, 20, 25, 40, 100, 110, 112] (max 5 (sat_i64 (40 - 20))) 40) \<le> 3"
proof -
  have r2: "r2_evidence [10, 20, 25, 40, 100, 110, 112] 20 5 115 = Some (3, 92, 112)"
    by code_simp
  have "sorted_wrt (<) [10, 20, 25, 40, 100, 110, 112 :: int]"
    by simp
  from r2_evidence_maximal [OF this, of 5 115 20] r2
  have "\<forall>e'\<le>115. length (in_window [10, 20, 25, 40, 100, 110, 112] (max 5 (sat_i64 (e' - 20))) e') \<le> 3"
    by simp
  from this [rule_format, of 40] r2 show ?thesis
    by simp
qed

section \<open>What a result says\<close>

definition rule_start :: "rule_ctx \<Rightarrow> rule_spec \<Rightarrow> int" where
  "rule_start cx rule = window_start cx (int (rule_lookback_sec rule) * 1000)"

text \<open>How much history before the window start a rule needs, in milliseconds.\<close>

definition rule_need :: "rule_spec \<Rightarrow> int" where
  "rule_need rule =
     (case rule of
        ChangeCount _ _ _ _ _ mode _ \<Rightarrow> (case mode of Step \<Rightarrow> 0 | Cumulative \<Rightarrow> int WARMUP_SEC * 1000)
      | SwitchDensity _ _ _ _ _ _ _ \<Rightarrow> int WARMUP_SEC * 1000
      | WindowDrop _ _ window _ \<Rightarrow> int window * 1000
      | EventCount _ _ _ _ \<Rightarrow> 0)"

definition is_event_count :: "rule_spec \<Rightarrow> bool" where
  "is_event_count rule \<longleftrightarrow> (\<exists>i ks lb n. rule = EventCount i ks lb n)"

text \<open>The events of a rule before they are cut to its window.\<close>

definition rule_events :: "rule_ctx \<Rightarrow> sample list \<Rightarrow> rule_spec \<Rightarrow> int list" where
  "rule_events cx series rule =
     (case rule of
        ChangeCount _ _ _ change_bps direction mode _ \<Rightarrow>
          (case mode of Step \<Rightarrow> step_events series (frac_bps change_bps) direction
           | Cumulative \<Rightarrow> cumulative_events series (frac_bps change_bps) direction)
      | SwitchDensity _ _ _ _ reversal kind _ \<Rightarrow> zigzag_switches series (frac_bps reversal) kind
      | WindowDrop _ _ window drop_bps \<Rightarrow> drop_events series (frac_bps drop_bps) (int window * 1000)
      | EventCount _ kinds _ _ \<Rightarrow> map ae_t_ms (filter (\<lambda>e. ae_kind e \<in> set kinds) (tp_admin_events (ar_token_profile (cx_req cx)))))"

definition finding_ok :: "rule_ctx \<Rightarrow> rule_spec \<Rightarrow> finding \<Rightarrow> bool" where
  "finding_ok cx rule f \<longleftrightarrow>
     fi_threshold f = rule_threshold rule \<and> (fi_fired f \<longleftrightarrow> rule_threshold rule \<le> fi_observed f) \<and>
     length (fi_events f) \<le> lim_max_evidence_events (cx_limits cx) \<and>
     (\<forall>e\<in>set (fi_events f). rule_start cx rule < ee_t_ms e \<and> ee_t_ms e \<le> cx_t cx)"

lemma secs_to_ms_eq_Ok [simp]: "secs_to_ms s = Ok ms \<longleftrightarrow> int s * 1000 \<le> i64_max \<and> ms = int s * 1000"
  by (auto simp: secs_to_ms_def)

lemma secs_to_ms_day: "s \<le> 86400 \<Longrightarrow> secs_to_ms s = Ok (int s * 1000)"
  by (simp add: i64_max_def)

lemma evidence_bounds:
  assumes "set ev \<subseteq> {x. b < x \<and> x \<le> t}"
  shows "length (evidence ev kind cap) \<le> cap \<and> (\<forall>e\<in>set (evidence ev kind cap). b < ee_t_ms e \<and> ee_t_ms e \<le> t)"
  using assms by (auto simp: evidence_def dest!: in_set_dropD)

lemma set_in_window [simp]: "set (in_window ev b t) = {x \<in> set ev. b < x \<and> x \<le> t}"
  by (auto simp: in_window_def)

lemma evidence_in_window:
  "length (evidence (in_window ev b t) kind cap) \<le> cap"
  "\<forall>e\<in>set (evidence (in_window ev b t) kind cap). b < ee_t_ms e \<and> ee_t_ms e \<le> t"
  using evidence_bounds [of "in_window ev b t" b t kind cap] by auto

lemma r2_evidence_window:
  assumes "r2_evidence ev w b t = Some (n, lo, e)"
  shows "b \<le> lo \<and> e \<le> t"
proof -
  have "in_window ev b t \<noteq> []"
    using assms by (auto simp: r2_evidence_def)
  from r2_fold [OF this, of "in_window ev b t" w b] assms obtain us vs where
    split: "in_window ev b t = us @ e # vs" and lo: "lo = window_lo w b e"
    by (auto simp: r2_evidence_def)
  have "e \<in> set (in_window ev b t)"
    unfolding split by simp
  then have "e \<le> t"
    by (simp only: set_in_window mem_Collect_eq)
  with lo show ?thesis
    by simp
qed

text \<open>
  A rule that passed \<open>check_rule\<close> is either not evaluable or its result is that of a finding;
  for the pool rules the finding carries the coverage and the warm-up check of the series.
\<close>

definition pool_finding :: "rule_ctx \<Rightarrow> sample list \<Rightarrow> rule_spec \<Rightarrow> finding \<Rightarrow> bool" where
  "pool_finding cx series rule f \<longleftrightarrow>
     finding_ok cx rule f \<and> fi_coverage f = pool_coverage cx series (rule_start cx rule) \<and>
     fi_warm f = warm cx series (rule_start cx rule) (rule_need rule)"

lemmas finding_simps = finding_ok_def pool_finding_def rule_threshold_def rule_start_def rule_need_def Let_def

lemma change_count_finding:
  assumes "rule = ChangeCount i m lb bps dir mode n" and "0 < n"
  shows "\<exists>f. eval_change_count cx series (rule_start cx rule) bps dir mode n = Ok f \<and> pool_finding cx series rule f"
proof -
  have "is_ok (case mode of Step \<Rightarrow> Ok 0 | Cumulative \<Rightarrow> secs_to_ms WARMUP_SEC)"
    by (cases mode) (simp_all add: secs_to_ms_day WARMUP_SEC_def)
  moreover have "(case mode of Step \<Rightarrow> Ok 0 | Cumulative \<Rightarrow> secs_to_ms WARMUP_SEC) = Ok need \<Longrightarrow> need = rule_need rule" for need
    by (cases mode) (auto simp: rule_need_def assms)
  ultimately show ?thesis
    unfolding is_ok_iff eval_change_count_def pool_finding_def finding_ok_def
    using evidence_bounds [of "in_window _ (rule_start cx rule) (cx_t cx)" "rule_start cx rule" "cx_t cx"]
    by (fastforce simp: Let_def rule_threshold_def assms)
qed

lemma switch_density_finding:
  assumes "rule = SwitchDensity i m lb window bps kind n" and "0 < n" and "window \<le> 86400"
  shows "\<exists>f. eval_switch_density cx series (rule_start cx rule) window bps kind n = Ok f \<and> pool_finding cx series rule f"
proof -
  let ?ev = "zigzag_switches series (frac_bps bps) kind" and ?b = "rule_start cx rule"
  have ms: "secs_to_ms window = Ok (int window * 1000)" "secs_to_ms WARMUP_SEC = Ok (int WARMUP_SEC * 1000)"
    using assms(3) by (simp_all add: i64_max_def WARMUP_SEC_def)
  show ?thesis
  proof (cases "r2_evidence ?ev (int window * 1000) ?b (cx_t cx)")
    case None
    then show ?thesis
      using assms(2)
      by (simp add: eval_switch_density_def ms pool_finding_def finding_ok_def rule_threshold_def rule_need_def assms(1) Let_def)
  next
    case (Some r)
    obtain c lo e where r: "r = (c, lo, e)"
      by (cases r) auto
    then have "?b \<le> lo" "e \<le> cx_t cx"
      using r2_evidence_window Some by blast+
    then have "length (evidence (in_window ?ev lo e) ''switch'' cap) \<le> cap \<and>
        (\<forall>x\<in>set (evidence (in_window ?ev lo e) ''switch'' cap). ?b < ee_t_ms x \<and> ee_t_ms x \<le> cx_t cx)" for cap
      by (intro evidence_bounds) auto
    with Some r show ?thesis
      by (simp add: eval_switch_density_def ms pool_finding_def finding_ok_def rule_threshold_def rule_need_def assms(1) Let_def)
  qed
qed

lemma window_drop_finding:
  assumes "rule = WindowDrop i lb window bps" and "window \<le> 86400"
  shows "\<exists>f. eval_window_drop cx series (rule_start cx rule) window bps 1 = Ok f \<and> pool_finding cx series rule f \<and>
    fi_observed f = length (in_window (drop_events series (frac_bps bps) (int window * 1000)) (rule_start cx rule) (cx_t cx))"
proof -
  have ms: "secs_to_ms window = Ok (int window * 1000)"
    using assms(2) by (simp add: i64_max_def)
  show ?thesis
    using evidence_in_window
    by (simp add: eval_window_drop_def ms pool_finding_def finding_ok_def rule_threshold_def rule_need_def assms(1) Let_def)
qed

lemma event_count_finding:
  assumes "rule = EventCount i kinds lb n"
  shows "finding_ok cx rule (eval_event_count cx (rule_start cx rule) kinds n)"
proof -
  let ?ev = "map ae_t_ms (filter (\<lambda>e. ae_kind e \<in> set kinds \<and> ae_t_ms e > rule_start cx rule \<and> ae_t_ms e \<le> cx_t cx)
    (tp_admin_events (ar_token_profile (cx_req cx))))"
  have "set ?ev \<subseteq> {x. rule_start cx rule < x \<and> x \<le> cx_t cx}"
    by auto
  from evidence_bounds [OF this] show ?thesis
    by (simp add: eval_event_count_def finding_ok_def rule_threshold_def assms Let_def)
qed

lemma check_rule_bounds:
  assumes "check_rule rule = Ok u"
  shows "0 < rule_lookback_sec rule" "rule_lookback_sec rule \<le> 86400"
    and "rule_threshold rule > 0"
    and "\<And>i m lb w r k n. rule = SwitchDensity i m lb w r k n \<Longrightarrow> 0 < w \<and> w \<le> 86400"
    and "\<And>i lb w d. rule = WindowDrop i lb w d \<Longrightarrow> 0 < w \<and> w \<le> 86400"
  using assms
  by (auto simp: check_rule_def check_count_def check_window_def MAX_LOOKBACK_SEC_def rule_threshold_def Let_def
    split: if_splits rule_spec.splits)

text \<open>The pool rules share their tail: series, usable segment, finding.\<close>

lemma eval_pool_rule_finding:
  assumes "check_rule rule = Ok u" and "\<not> is_event_count rule"
  shows "\<exists>f. eval_pool_rule cx series (rule_start cx rule) rule = Ok (rule_result_of rule f) \<and> pool_finding cx series rule f"
proof (cases rule)
  case (ChangeCount i m lb bps dir mode n)
  moreover from this obtain f where
    "eval_change_count cx series (rule_start cx rule) bps dir mode n = Ok f" "pool_finding cx series rule f"
    using check_rule_bounds(3) [OF assms(1)] change_count_finding [OF ChangeCount] by (auto simp: rule_threshold_def)
  ultimately show ?thesis
    by (intro exI [of _ f]) (simp add: eval_pool_rule_def rule_threshold_def)
next
  case (SwitchDensity i m lb w bps kind n)
  moreover from this obtain f where
    "eval_switch_density cx series (rule_start cx rule) w bps kind n = Ok f" "pool_finding cx series rule f"
    using check_rule_bounds(3,4) [OF assms(1)] switch_density_finding [OF SwitchDensity] by (auto simp: rule_threshold_def)
  ultimately show ?thesis
    by (intro exI [of _ f]) (simp add: eval_pool_rule_def rule_threshold_def)
next
  case (WindowDrop i lb w bps)
  moreover from this obtain f where
    "eval_window_drop cx series (rule_start cx rule) w bps 1 = Ok f" "pool_finding cx series rule f"
    using check_rule_bounds(5) [OF assms(1)] window_drop_finding [OF WindowDrop] by blast
  ultimately show ?thesis
    by (intro exI [of _ f]) (simp add: eval_pool_rule_def rule_threshold_def)
qed (use assms(2) in \<open>simp add: is_event_count_def\<close>)

lemma resolution_total: "check_rule rule = Ok u \<Longrightarrow> \<exists>ok. resolution_ok rule dt = Ok ok"
  using check_rule_bounds [of rule u] by (cases rule) (auto simp: resolution_ok_def secs_to_ms_day)

lemma eval_rule_checked:
  assumes "check_rule rule = Ok u"
  shows "eval_rule pw cx rule =
    bind_result (resolution_ok rule (ph_bucket_ms (ar_pool_history (cx_req cx)))) (\<lambda>ok.
      if \<not> ok then Ok (not_evaluable cx rule (rule_threshold rule) ResolutionTooCoarse)
      else if is_event_count rule then
        Ok (rule_result_of rule (eval_event_count cx (rule_start cx rule) (rs_kinds rule) (rule_threshold rule)))
      else bind_result (ctx_series pw cx (rule_metric rule)) (\<lambda>series.
        if \<not> list_ex (\<lambda>(ts, v). v \<noteq> None \<and> ts \<le> cx_t cx) series
        then Ok (not_evaluable cx rule (rule_threshold rule) NoUsableSegment)
        else eval_pool_rule cx series (rule_start cx rule) rule))"
proof -
  have ms: "secs_to_ms (rule_lookback_sec rule) = Ok (int (rule_lookback_sec rule) * 1000)"
    using check_rule_bounds(2) [OF assms] by (rule secs_to_ms_day)
  show ?thesis
    unfolding eval_rule_def Let_def ms bind_result_simps rule_start_def [symmetric]
    by (cases rule) (simp_all add: is_event_count_def cong: if_cong)
qed

text \<open>Every result of a checked rule: not evaluable, or that of a finding.\<close>

lemma eval_rule_cases:
  assumes "check_rule rule = Ok u" and "eval_rule pw cx rule = Ok r"
  obtains (none) why where "r = not_evaluable cx rule (rule_threshold rule) why"
  | (events) "is_event_count rule" "finding_ok cx rule (eval_event_count cx (rule_start cx rule) (rs_kinds rule) (rule_threshold rule))"
      "r = rule_result_of rule (eval_event_count cx (rule_start cx rule) (rs_kinds rule) (rule_threshold rule))"
  | (pool) series f where "\<not> is_event_count rule" "ctx_series pw cx (rule_metric rule) = Ok series"
      "r = rule_result_of rule f" "pool_finding cx series rule f"
      "eval_pool_rule cx series (rule_start cx rule) rule = Ok r"
proof (cases "is_event_count rule")
  case True
  then obtain i ks lb n where rule: "rule = EventCount i ks lb n"
    by (auto simp: is_event_count_def)
  from assms(2) True have "r = rule_result_of rule (eval_event_count cx (rule_start cx rule) (rs_kinds rule) (rule_threshold rule))"
    unfolding eval_rule_checked [OF assms(1)] by (simp add: rule resolution_ok_def)
  with events True event_count_finding [OF rule] show ?thesis
    by (simp add: rule rule_threshold_def)
next
  case False
  obtain ok where res: "resolution_ok rule (ph_bucket_ms (ar_pool_history (cx_req cx))) = Ok ok"
    using resolution_total [OF assms(1)] by blast
  show ?thesis
  proof (cases ok)
    case False
    with assms(2) res have "r = not_evaluable cx rule (rule_threshold rule) ResolutionTooCoarse"
      unfolding eval_rule_checked [OF assms(1)] by simp
    then show ?thesis
      by (rule none)
  next
    case ok: True
    with assms(2) res False obtain series where series: "ctx_series pw cx (rule_metric rule) = Ok series"
      and tail: "(if \<not> list_ex (\<lambda>(ts, v). v \<noteq> None \<and> ts \<le> cx_t cx) series
        then Ok (not_evaluable cx rule (rule_threshold rule) NoUsableSegment)
        else eval_pool_rule cx series (rule_start cx rule) rule) = Ok r"
      unfolding eval_rule_checked [OF assms(1)] by (cases "ctx_series pw cx (rule_metric rule)") simp_all
    obtain f where f: "eval_pool_rule cx series (rule_start cx rule) rule = Ok (rule_result_of rule f)" "pool_finding cx series rule f"
      using eval_pool_rule_finding [OF assms(1) False] by blast
    show ?thesis
    proof (cases "list_ex (\<lambda>(ts, v). v \<noteq> None \<and> ts \<le> cx_t cx) series")
      case True
      with tail f have "r = rule_result_of rule f"
        by simp
      with pool [OF False series] f show ?thesis
        by simp
    next
      case no: False
      with tail have "r = not_evaluable cx rule (rule_threshold rule) NoUsableSegment"
        by simp
      then show ?thesis
        by (rule none)
    qed
  qed
qed

definition outcome_ok :: "rule_ctx \<Rightarrow> rule_spec \<Rightarrow> rule_result \<Rightarrow> bool" where
  "outcome_ok cx rule r \<longleftrightarrow>
     rr_rule_id r = rule_id rule \<and> rr_threshold r = rule_threshold rule \<and>
     (rr_outcome r = NotEvaluable \<longleftrightarrow> rr_observed r = None) \<and>
     (rr_outcome r = Fired \<longleftrightarrow> (\<exists>n. rr_observed r = Some n \<and> rule_threshold rule \<le> n)) \<and>
     length (rr_events r) \<le> lim_max_evidence_events (cx_limits cx) \<and>
     (\<forall>e\<in>set (rr_events r). rule_start cx rule < ee_t_ms e \<and> ee_t_ms e \<le> cx_t cx)"

lemma outcome_of_finding: "finding_ok cx rule f \<Longrightarrow> outcome_ok cx rule (rule_result_of rule f)"
  by (auto simp: finding_ok_def outcome_ok_def rule_result_of_def finding_outcome_def Let_def split: option.splits prod.splits)

lemma outcome_not_evaluable: "outcome_ok cx rule (not_evaluable cx rule (rule_threshold rule) why)"
  by (simp add: outcome_ok_def not_evaluable_def)

lemma eval_rule_outcome:
  assumes "check_rule rule = Ok u" and "eval_rule pw cx rule = Ok r"
  shows "outcome_ok cx rule r"
  using assms
  by (cases rule: eval_rule_cases) (auto simp: outcome_of_finding outcome_not_evaluable pool_finding_def)

lemma check_rules_ok: "check_rules rules = Ok u \<longleftrightarrow> (\<forall>rule\<in>set rules. check_rule rule = Ok ())"
  by (induction rules) (auto split: sum.splits)

section \<open>Soundness of clear\<close>

text \<open>
  Every instant from \<open>b\<close> up to but not including \<open>t\<close> is observed: not before the first sample, not in a missing range. The
  end of the window is left out, as \<open>coverage_bps\<close> leaves it out.
\<close>

definition window_observed :: "int \<Rightarrow> int \<Rightarrow> int option \<Rightarrow> time_range list \<Rightarrow> bool" where
  "window_observed b t first missing \<longleftrightarrow>
     (\<forall>x. b \<le> x \<and> x < t \<longrightarrow> (\<exists>f. first = Some f \<and> observed_at f missing x))"

definition times_fit :: "rule_ctx \<Rightarrow> bool" where
  "times_fit cx \<longleftrightarrow> is_i64 (cx_t cx) \<and> (\<forall>c. tp_pool_created_ms (ar_token_profile (cx_req cx)) = Some c \<longrightarrow> is_i64 c)"

lemma coverage_observed:
  assumes "coverage_bps b t first missing = 10000" and "t - b \<le> i64_max"
  shows "window_observed b t first missing"
proof (cases "b < t")
  case True
  then have "0 < sat_i64 (t - b)"
    using assms(2) by (simp add: sat_i64_nonneg_id)
  have "first \<noteq> None"
  proof
    assume "first = None"
    with \<open>0 < sat_i64 (t - b)\<close> have "coverage_bps b t first missing = 0"
      by (simp add: coverage_bps_def)
    with assms(1) show False
      by simp
  qed
  then obtain f where f: "first = Some f"
    by blast
  have "\<forall>x. b \<le> x \<and> x < t \<longrightarrow> observed_at f missing x"
    using assms(1) coverage_bps_full [OF True assms(2), of f missing] unfolding f by (rule iffD1 [rotated])
  then show ?thesis
    unfolding window_observed_def f by blast
next
  case False
  then show ?thesis
    unfolding window_observed_def by (meson le_less_trans)
qed

lemma sat_i64_ge: "x \<le> i64_max \<Longrightarrow> x \<le> sat_i64 x"
  by (simp add: sat_i64_def)

lemma window_floor_ge: "t \<le> window_floor cx t"
  by (simp add: window_floor_def split: option.split)

lemma window_floor_i64: "times_fit cx \<Longrightarrow> is_i64 t \<Longrightarrow> is_i64 (window_floor cx t)"
  by (auto simp: window_floor_def times_fit_def max_def split: option.split)

lemma window_length:
  assumes "is_i64 t" and "0 \<le> len"
  shows "t - window_floor cx (sat_i64 (t - len)) \<le> len"
proof -
  have "t - len \<le> sat_i64 (t - len)"
    using assms by (intro sat_i64_ge) (simp add: is_i64_def)
  with window_floor_ge [of "sat_i64 (t - len)" cx] show ?thesis
    by simp
qed

lemma rule_need_bounds: "check_rule rule = Ok u \<Longrightarrow> 0 \<le> rule_need rule \<and> rule_need rule \<le> i64_max"
  using check_rule_bounds(5) [of rule u]
  by (cases rule) (auto simp: rule_need_def WARMUP_SEC_def i64_max_def split: change_mode.split)

lemma rule_start_window:
  assumes "check_rule rule = Ok u" and "times_fit cx"
  shows "cx_t cx - rule_start cx rule \<le> i64_max" and "is_i64 (rule_start cx rule)"
proof -
  have "cx_t cx - rule_start cx rule \<le> int (rule_lookback_sec rule) * 1000"
    unfolding rule_start_def window_start_def using assms(2) by (intro window_length) (simp_all add: times_fit_def)
  also have "\<dots> \<le> i64_max"
    using check_rule_bounds(2) [OF assms(1)] by (simp add: i64_max_def)
  finally show "cx_t cx - rule_start cx rule \<le> i64_max" .
  show "is_i64 (rule_start cx rule)"
    unfolding rule_start_def window_start_def using assms(2) by (rule window_floor_i64) simp
qed

lemma clear_finding:
  assumes "rr_outcome (rule_result_of rule f) = Clear" and "finding_ok cx rule f"
  shows "fi_observed f < rule_threshold rule" "fst (fi_coverage f) = 10000" "\<not> snd (fi_coverage f)" "fi_warm f = None"
  using assms
  by (auto simp: rule_result_of_def finding_outcome_def finding_ok_def Let_def split: if_splits prod.splits option.splits)

lemma coverage_bps_le: "coverage_bps b t first missing \<le> 10000"
  unfolding coverage_bps_def Let_def by (simp add: nat_le_iff split: option.split)

lemma warm_observed:
  assumes "warm cx series b need = None" and "is_i64 b" and "0 \<le> need" and "need \<le> i64_max"
  shows "wu_complete (ph_warmup (ar_pool_history (cx_req cx)))"
    and "0 < need \<longrightarrow> window_observed (window_floor cx (sat_i64 (b - need))) b (first_time series) (ph_missing (ar_pool_history (cx_req cx)))"
proof -
  show "wu_complete (ph_warmup (ar_pool_history (cx_req cx)))"
    using assms(1) by (auto simp: warm_def Let_def split: if_splits)
  show "0 < need \<longrightarrow> window_observed (window_floor cx (sat_i64 (b - need))) b (first_time series) (ph_missing (ar_pool_history (cx_req cx)))"
  proof
    assume "0 < need"
    then have "coverage_bps (window_floor cx (sat_i64 (b - need))) b (first_time series) (ph_missing (ar_pool_history (cx_req cx))) = 10000"
      using assms(1) coverage_bps_le [of "window_floor cx (sat_i64 (b - need))" b "first_time series" "ph_missing (ar_pool_history (cx_req cx))"]
      unfolding warm_def Let_def by (simp split: if_splits)
    moreover have "b - window_floor cx (sat_i64 (b - need)) \<le> i64_max"
      using window_length [OF assms(2,3), of cx] assms(4) by simp
    ultimately show "window_observed (window_floor cx (sat_i64 (b - need))) b (first_time series) (ph_missing (ar_pool_history (cx_req cx)))"
      by (rule coverage_observed)
  qed
qed

text \<open>
  C3. A \<open>clear\<close> verdict is backed by data. When a checked rule evaluates to \<open>clear\<close>, the observed
  count is below the threshold and every instant of the rule's window \<open>(B, T]\<close> before its end \<open>T\<close> is observed. For an
  event-count rule that is the token profile's missing ranges; for a pool rule the samples start early enough, no missing
  range before \<open>T\<close> and no undefined sample up to \<open>T\<close> lies in the window, the host vouched for the history, and the
  warm-up before the window that the rule needs is observed too. The instant \<open>T\<close> itself is not checked against the
  missing ranges (\<open>clear_end_unobserved\<close>).
\<close>

theorem clear_sound:
  assumes "check_rule rule = Ok ()" and "eval_rule pw cx rule = Ok r" and "rr_outcome r = Clear" and "times_fit cx"
  shows "(\<exists>n. rr_observed r = Some n \<and> n < rr_threshold r) \<and>
    (if is_event_count rule
     then window_observed (rule_start cx rule) (cx_t cx) (Some (rule_start cx rule)) (tp_missing (ar_token_profile (cx_req cx)))
     else \<exists>series. ctx_series pw cx (rule_metric rule) = Ok series \<and>
       window_observed (rule_start cx rule) (cx_t cx) (first_time series) (ph_missing (ar_pool_history (cx_req cx))) \<and>
       (\<forall>(ts, v)\<in>set series. rule_start cx rule < ts \<and> ts \<le> cx_t cx \<longrightarrow> v \<noteq> None) \<and>
       wu_complete (ph_warmup (ar_pool_history (cx_req cx))) \<and>
       (0 < rule_need rule \<longrightarrow>
         window_observed (window_floor cx (sat_i64 (rule_start cx rule - rule_need rule))) (rule_start cx rule)
           (first_time series) (ph_missing (ar_pool_history (cx_req cx)))))"
  using assms(1,2)
proof (cases rule: eval_rule_cases)
  case none
  with assms(3) show ?thesis
    by (simp add: not_evaluable_def)
next
  case events
  note clear = clear_finding [OF assms(3) [unfolded events(3)] events(2)]
  have "window_observed (rule_start cx rule) (cx_t cx) (Some (rule_start cx rule)) (tp_missing (ar_token_profile (cx_req cx)))"
    using clear(2) rule_start_window(1) [OF assms(1,4)]
    by (intro coverage_observed) (simp_all add: eval_event_count_def Let_def)
  with clear(1) events show ?thesis
    by (simp add: rule_result_of_def finding_ok_def)
next
  case (pool series f)
  have f: "finding_ok cx rule f" "fi_coverage f = pool_coverage cx series (rule_start cx rule)"
    "fi_warm f = warm cx series (rule_start cx rule) (rule_need rule)"
    using pool(4) by (simp_all add: pool_finding_def)
  note clear = clear_finding [OF assms(3) [unfolded pool(3)] f(1)]
  have "window_observed (rule_start cx rule) (cx_t cx) (first_time series) (ph_missing (ar_pool_history (cx_req cx)))"
    using clear(2) rule_start_window(1) [OF assms(1,4)] f(2)
    by (intro coverage_observed) (simp_all add: pool_coverage_def)
  moreover have "\<forall>(ts, v)\<in>set series. rule_start cx rule < ts \<and> ts \<le> cx_t cx \<longrightarrow> v \<noteq> None"
    using clear(3) f(2) by (auto simp: pool_coverage_def list_ex_iff)
  moreover note warm_observed [OF clear(4) [unfolded f(3)] rule_start_window(2) [OF assms(1,4)]]
  ultimately show ?thesis
    using pool clear(1) f(1) rule_need_bounds [OF assms(1)] by (auto simp: rule_result_of_def finding_ok_def)
qed

definition sample_request :: "rule_spec list \<Rightarrow> analysis_request" where
  "sample_request rules =
     \<lparr>ar_subject = \<lparr>sub_chain_id = 1, sub_pool = ''0xpool'', sub_token = ''0xtoken'', sub_quote = ''0xquote'', sub_venue = ''v2''\<rparr>,
      ar_as_of = \<lparr>ao_block = ''100'', ao_block_hash = ''0xhash'', ao_t_ms = 9000\<rparr>, ar_rules = rules, ar_rules_hash = ''0xrules'',
      ar_pool_history = sample_history,
      ar_token_profile = \<lparr>tp_schema = ''profile'', tp_pool_created_ms = Some 0, tp_age_lower_bound_ms = None,
        tp_admin_events = [AdminEvent 8000 OwnerChanged], tp_missing = []\<rparr>\<rparr>"

definition sample_rule_ctx :: rule_ctx where
  "sample_rule_ctx = \<lparr>cx_req = sample_request [], cx_limits = limits_default, cx_t = 9000\<rparr>"

definition drop_rule :: "nat \<Rightarrow> rule_spec" where
  "drop_rule bps = WindowDrop ''drop'' 4 1 bps"

lemma sample_times_fit: "times_fit sample_rule_ctx"
  by (simp add: times_fit_def sample_rule_ctx_def sample_request_def is_i64_def i64_min_def i64_max_def)

lemma unit_powers_positive: "positive_powers unit_powers"
  by (simp add: positive_powers_def unit_powers_def)

theorem clear_sound_witness:
  "\<exists>r. eval_rule unit_powers sample_rule_ctx (drop_rule 7500) = Ok r \<and> rr_outcome r = Clear \<and>
     (\<exists>series. ctx_series unit_powers sample_rule_ctx Liquidity = Ok series \<and>
       window_observed 5000 9000 (first_time series) [TimeRange 2000 3000])"
proof -
  have check: "check_rule (drop_rule 7500) = Ok ()"
    by code_simp
  have "(case eval_rule unit_powers sample_rule_ctx (drop_rule 7500) of Err _ \<Rightarrow> False | Ok r \<Rightarrow> rr_outcome r = Clear)"
    by code_simp
  then obtain r where r: "eval_rule unit_powers sample_rule_ctx (drop_rule 7500) = Ok r" "rr_outcome r = Clear"
    by (auto split: sum.splits)
  have eqs: "rule_start sample_rule_ctx (drop_rule 7500) = 5000" "rule_metric (drop_rule 7500) = Liquidity"
    "cx_t sample_rule_ctx = 9000" "ph_missing (ar_pool_history (cx_req sample_rule_ctx)) = [TimeRange 2000 3000]"
    by code_simp+
  have "\<not> is_event_count (drop_rule 7500)"
    by (simp add: is_event_count_def drop_rule_def)
  with clear_sound [OF check r sample_times_fit] r eqs show ?thesis
    by auto
qed

text \<open>
  The end of the window escapes the check: with a missing range that holds exactly the last instant of the window,
  the event-count rule is still \<open>clear\<close>, although the range could hide an event of that instant, which the rule would count.
\<close>

definition blind_ctx :: rule_ctx where
  "blind_ctx = sample_rule_ctx\<lparr>cx_req := (sample_request [])
     \<lparr>ar_token_profile := (ar_token_profile (sample_request []))\<lparr>tp_admin_events := [], tp_missing := [TimeRange 9000 9001]\<rparr>\<rparr>\<rparr>"

lemma clear_end_unobserved:
  "(case eval_rule unit_powers blind_ctx (EventCount ''owner'' [OwnerChanged] 4 1) of Ok r \<Rightarrow> rr_outcome r = Clear | Err _ \<Rightarrow> False) \<and>
   \<not> observed_at 5000 (tp_missing (ar_token_profile (cx_req blind_ctx))) (cx_t blind_ctx) \<and>
   in_window [cx_t blind_ctx] (rule_start blind_ctx (EventCount ''owner'' [OwnerChanged] 4 1)) (cx_t blind_ctx) = [cx_t blind_ctx]"
proof -
  have "case eval_rule unit_powers blind_ctx (EventCount ''owner'' [OwnerChanged] 4 1) of Ok r \<Rightarrow> rr_outcome r = Clear | Err _ \<Rightarrow> False"
    by code_simp
  moreover have "in_window [cx_t blind_ctx] (rule_start blind_ctx (EventCount ''owner'' [OwnerChanged] 4 1)) (cx_t blind_ctx) = [cx_t blind_ctx]"
    by code_simp
  moreover have "\<not> observed_at 5000 (tp_missing (ar_token_profile (cx_req blind_ctx))) (cx_t blind_ctx)"
    by (simp add: observed_at_def blind_ctx_def sample_rule_ctx_def)
  ultimately show ?thesis
    by blast
qed

section \<open>The drop rule counts reference drops\<close>

lemma metric_series_loop_no_nan:
  assumes "positive_powers pw"
  shows "metric_series_loop pw missing Liquidity as_of_ms last_t ps = Ok s \<Longrightarrow> no_nan s"
proof (induction ps arbitrary: last_t s)
  case Nil
  then show ?case by (simp add: no_nan_def)
next
  case (Cons p ps)
  from Cons.prems obtain v rest where
    rest: "metric_series_loop pw missing Liquidity as_of_ms (Some (pt_t_ms p)) ps = Ok rest"
    and v: "metric_value pw Liquidity p = Ok v"
    and s: "s = (case last_t of None \<Rightarrow> [] | Some prev \<Rightarrow> gap_break missing prev (pt_t_ms p)) @ (pt_t_ms p, v) # rest"
    by (auto simp: Let_def split: if_splits option.splits)
  have "no_nan (case last_t of None \<Rightarrow> [] | Some prev \<Rightarrow> gap_break missing prev (pt_t_ms p))"
    by (auto simp: no_nan_def gap_break_def split: option.splits)
  with Cons.IH [OF rest] liquidity_not_NaN [OF assms v] show ?case
    by (auto simp: s no_nan_def)
qed

lemma liquidity_drop_events:
  assumes "positive_powers pw" and "ctx_series pw cx Liquidity = Ok series"
  shows "drop_events series i w = drop_reference i w [] series"
proof -
  note loop = assms(2) [unfolded ctx_series_def metric_series_def]
  have "is_ok (metric_series_loop pw (ph_missing (ar_pool_history (cx_req cx))) Liquidity (cx_t cx) None
      (ph_points (ar_pool_history (cx_req cx))))"
    using loop by simp
  then have "sorted_wrt (<) (map pt_t_ms (ph_points (ar_pool_history (cx_req cx))))"
    unfolding metric_series_loop_ok by simp
  then have "sorted_wrt (<) (map fst (defined_samples series))"
    by (rule sorted_wrt_subseq [OF metric_series_loop_times [OF loop]])
  moreover have "no_nan series"
    using assms(1) loop by (rule metric_series_loop_no_nan)
  ultimately show ?thesis
    using drop_loop_reference [of series w 0 "\<lparr>ds_dq = [], ds_seg = 0, ds_eff = None\<rparr>" "[]" series i]
    by (simp add: drop_events_def drop_inv_def segment_at_def)
qed

text \<open>
  C13. The window-drop rule reports exactly the drops of the reference definition. When a checked
  \<open>window_drop\<close> rule is evaluable, the observed count is the number of reference drops of the liquidity series
  inside the rule's window \<open>(b, t]\<close>, and the rule fires exactly when there is one. The chain from the
  reserve strings over the series and the deque to the outcome loses nothing and adds nothing, as
  long as the powers of ten are positive finite numbers.
\<close>

theorem window_drop_reference:
  assumes "positive_powers pw" and "rule = WindowDrop i lookback window bps" and "check_rule rule = Ok ()"
    and "eval_rule pw cx rule = Ok r" and "rr_outcome r \<noteq> NotEvaluable"
  shows "\<exists>series. ctx_series pw cx Liquidity = Ok series \<and>
    rr_observed r = Some (length (in_window (drop_reference (frac_bps bps) (int window * 1000) [] series) (rule_start cx rule) (cx_t cx))) \<and>
    (rr_outcome r = Fired \<longleftrightarrow>
      (\<exists>e\<in>set (drop_reference (frac_bps bps) (int window * 1000) [] series). rule_start cx rule < e \<and> e \<le> cx_t cx))"
  using assms(3,4)
proof (cases rule: eval_rule_cases)
  case none
  with assms(5) show ?thesis
    by (simp add: not_evaluable_def)
next
  case events
  with assms(2) show ?thesis
    by (simp add: is_event_count_def)
next
  case (pool series f)
  let ?ev = "in_window (drop_events series (frac_bps bps) (int window * 1000)) (rule_start cx rule) (cx_t cx)"
  have series: "ctx_series pw cx Liquidity = Ok series"
    using pool(2) assms(2) by (simp add: rule_metric_def)
  obtain g where g: "eval_window_drop cx series (rule_start cx rule) window bps 1 = Ok g" "pool_finding cx series rule g" "fi_observed g = length ?ev"
    using window_drop_finding [OF assms(2), of cx series] check_rule_bounds(5) [OF assms(3,2)] by blast
  then have r: "r = rule_result_of rule g"
    using pool(5) by (simp add: assms(2) eval_pool_rule_def rule_threshold_def)
  then have "rr_observed r = Some (length ?ev)"
    using g(3) by (simp add: rule_result_of_def)
  moreover have "rr_outcome r = Fired \<longleftrightarrow> ?ev \<noteq> []"
    using outcome_of_finding [of cx rule g] g(2,3) assms(2)
    by (auto simp: r pool_finding_def outcome_ok_def rule_threshold_def rule_result_of_def Suc_le_eq)
  moreover have "?ev \<noteq> [] \<longleftrightarrow> set ?ev \<noteq> {}"
    by (simp only: set_empty)
  ultimately show ?thesis
    using series unfolding liquidity_drop_events [OF assms(1) series] by auto
qed

theorem window_drop_reference_witness:
  "\<exists>r. eval_rule unit_powers sample_rule_ctx (drop_rule 5000) = Ok r \<and> rr_outcome r = Fired \<and>
     (\<exists>series. ctx_series unit_powers sample_rule_ctx Liquidity = Ok series \<and>
       (\<exists>e\<in>set (drop_reference (frac_bps 5000) 1000 [] series). 5000 < e \<and> e \<le> 9000))"
proof -
  have check: "check_rule (drop_rule 5000) = Ok ()"
    by code_simp
  have "(case eval_rule unit_powers sample_rule_ctx (drop_rule 5000) of Err _ \<Rightarrow> False | Ok r \<Rightarrow> rr_outcome r = Fired)"
    by code_simp
  then obtain r where r: "eval_rule unit_powers sample_rule_ctx (drop_rule 5000) = Ok r" "rr_outcome r = Fired"
    by (auto split: sum.splits)
  have eqs: "rule_start sample_rule_ctx (drop_rule 5000) = 5000" "cx_t sample_rule_ctx = 9000"
    by code_simp+
  from r(2) have "rr_outcome r \<noteq> NotEvaluable"
    by simp
  from window_drop_reference [OF unit_powers_positive drop_rule_def check r(1) this] r eqs show ?thesis
    by (simp only: of_nat_1 mult_1) blast
qed

section \<open>The whole analysis\<close>

abbreviation request_ctx :: "analysis_request \<Rightarrow> limits \<Rightarrow> rule_ctx" where
  "request_ctx req lims \<equiv> \<lparr>cx_req = req, cx_limits = lims, cx_t = ao_t_ms (ar_as_of req)\<rparr>"

definition within_limits :: "analysis_request \<Rightarrow> limits \<Rightarrow> bool" where
  "within_limits req lims \<longleftrightarrow>
     length (ar_rules req) \<le> lim_max_rules lims \<and> length (ph_points (ar_pool_history req)) \<le> lim_max_points lims \<and>
     length (tp_admin_events (ar_token_profile req)) \<le> lim_max_admin_events lims \<and> 0 < ph_bucket_ms (ar_pool_history req)"

definition valid_history :: "analysis_request \<Rightarrow> metric \<Rightarrow> bool" where
  "valid_history req m \<longleftrightarrow>
     sorted_wrt (<) (map pt_t_ms (ph_points (ar_pool_history req))) \<and>
     (\<forall>p\<in>set (ph_points (ar_pool_history req)). valid_point m (ao_t_ms (ar_as_of req)) p)"

lemma analyze_eq:
  "analyze pw req lims = Ok a \<longleftrightarrow>
     within_limits req lims \<and> (\<forall>rule\<in>set (ar_rules req). check_rule rule = Ok ()) \<and>
     (\<exists>rs. list_all2 (\<lambda>rule r. eval_rule pw (request_ctx req lims) rule = Ok r) (ar_rules req) rs \<and>
       a = \<lparr>sa_algorithm_id = ''dambi.scam.window-rules'', sa_algorithm_version = ''0.2.0'',
              sa_contract_version = CONTRACT_VERSION, sa_analysis_mode = Real,
              sa_binding = \<lparr>bi_chain_id = sub_chain_id (ar_subject req), bi_pool = sub_pool (ar_subject req),
                bi_as_of_block = ao_block (ar_as_of req), bi_as_of_block_hash = ao_block_hash (ar_as_of req),
                bi_rules_hash = ar_rules_hash req\<rparr>,
              sa_rules = rs\<rparr>)"
  by (auto simp: analyze_def within_limits_def check_rules_ok try_map_Ok_iff Let_def not_less not_le split: if_splits)

lemma eval_rule_ok:
  assumes "check_rule rule = Ok u"
  shows "is_ok (eval_rule pw cx rule) \<longleftrightarrow>
    is_event_count rule \<or> resolution_ok rule (ph_bucket_ms (ar_pool_history (cx_req cx))) = Ok False \<or>
    is_ok (ctx_series pw cx (rule_metric rule))"
proof -
  obtain ok where res: "resolution_ok rule (ph_bucket_ms (ar_pool_history (cx_req cx))) = Ok ok"
    using resolution_total [OF assms] by blast
  have tail: "is_ok (eval_pool_rule cx series (rule_start cx rule) rule)" if "\<not> is_event_count rule" for series
    using eval_pool_rule_finding [OF assms that] by (auto simp: is_ok_iff)
  show ?thesis
    unfolding eval_rule_checked [OF assms]
    by (cases ok; cases "is_event_count rule"; cases "ctx_series pw cx (rule_metric rule)") (simp_all add: res tail)
qed

lemma ctx_series_ok: "is_ok (ctx_series pw (request_ctx req lims) m) \<longleftrightarrow> valid_history req m"
  by (simp add: ctx_series_def metric_series_def metric_series_loop_ok valid_history_def)

lemma list_all2_ex: "(\<exists>ys. list_all2 (\<lambda>x y. f x = Ok y) xs ys) \<longleftrightarrow> (\<forall>x\<in>set xs. is_ok (f x))"
proof (induction xs)
  case (Cons x xs)
  then show ?case
    by (cases "f x") (auto simp: list_all2_Cons1)
qed simp

text \<open>
  C30. \<open>analyze\<close> fails only for the documented reasons. It returns an analysis exactly when the rules, points
  and admin events are within the limits, the bucket size is positive, every rule is supported, and
  for every pool rule that the resolution admits the history is valid for the rule's metric. In particular no
  duration computed from a supported rule overflows.
\<close>

theorem analyze_ok_iff:
  "is_ok (analyze pw req lims) \<longleftrightarrow>
     within_limits req lims \<and> list_all (\<lambda>rule. supports rule = Supported) (ar_rules req) \<and>
     list_all (\<lambda>rule. is_event_count rule \<or> resolution_ok rule (ph_bucket_ms (ar_pool_history req)) = Ok False \<or>
       valid_history req (rule_metric rule)) (ar_rules req)"
proof -
  have supported: "supports rule = Supported \<longleftrightarrow> check_rule rule = Ok ()" for rule
    by (cases "check_rule rule") (simp_all add: supports_def)
  have "is_ok (analyze pw req lims) \<longleftrightarrow>
      within_limits req lims \<and> (\<forall>rule\<in>set (ar_rules req). check_rule rule = Ok ()) \<and>
      (\<forall>rule\<in>set (ar_rules req). is_ok (eval_rule pw (request_ctx req lims) rule))"
    unfolding is_ok_iff [of "analyze pw req lims"] analyze_eq list_all2_ex [symmetric] by blast
  then show ?thesis
    unfolding list_all_iff supported using eval_rule_ok [of _ "()" pw "request_ctx req lims"] ctx_series_ok by auto
qed

text \<open>
  C31. What a successful analysis contains: one result per rule, in order, with the rule's id and
  threshold. A result is \<open>fired\<close> exactly when the observed count reaches the threshold and
  \<open>not_evaluable\<close> exactly when nothing was observed; its evidence respects the cap of the limits and lies
  inside the rule's window. The binding repeats the chain, pool, block and rules hash of the request.
\<close>

theorem analyze_results:
  assumes "analyze pw req lims = Ok a"
  shows "list_all2 (outcome_ok (request_ctx req lims)) (ar_rules req) (sa_rules a) \<and>
    bi_chain_id (sa_binding a) = sub_chain_id (ar_subject req) \<and> bi_pool (sa_binding a) = sub_pool (ar_subject req) \<and>
    bi_as_of_block (sa_binding a) = ao_block (ar_as_of req) \<and> bi_as_of_block_hash (sa_binding a) = ao_block_hash (ar_as_of req) \<and>
    bi_rules_hash (sa_binding a) = ar_rules_hash req"
proof -
  from assms obtain rs where
    rs: "list_all2 (\<lambda>rule r. eval_rule pw (request_ctx req lims) rule = Ok r) (ar_rules req) rs"
    and check: "\<forall>rule\<in>set (ar_rules req). check_rule rule = Ok ()" and "sa_rules a = rs"
    and "sa_binding a = \<lparr>bi_chain_id = sub_chain_id (ar_subject req), bi_pool = sub_pool (ar_subject req),
      bi_as_of_block = ao_block (ar_as_of req), bi_as_of_block_hash = ao_block_hash (ar_as_of req), bi_rules_hash = ar_rules_hash req\<rparr>"
    unfolding analyze_eq by auto
  moreover have "list_all2 (outcome_ok (request_ctx req lims)) (ar_rules req) rs"
    using rs by (rule list.rel_mono_strong) (use check eval_rule_outcome in blast)
  ultimately show ?thesis
    by simp
qed

theorem analyze_results_witness:
  "\<exists>a. analyze unit_powers (sample_request [drop_rule 5000, EventCount ''admin'' [OwnerChanged] 4 2]) limits_default = Ok a \<and>
     map rr_outcome (sa_rules a) = [Fired, Clear] \<and>
     list_all2 (outcome_ok (request_ctx (sample_request [drop_rule 5000, EventCount ''admin'' [OwnerChanged] 4 2]) limits_default))
       [drop_rule 5000, EventCount ''admin'' [OwnerChanged] 4 2] (sa_rules a)"
proof -
  let ?req = "sample_request [drop_rule 5000, EventCount ''admin'' [OwnerChanged] 4 2]"
  have "(case analyze unit_powers ?req limits_default of
      Err _ \<Rightarrow> False | Ok a \<Rightarrow> map rr_outcome (sa_rules a) = [Fired, Clear])"
    by code_simp
  then obtain a where a: "analyze unit_powers ?req limits_default = Ok a" "map rr_outcome (sa_rules a) = [Fired, Clear]"
    by (auto split: sum.splits)
  from analyze_results [OF a(1)] a show ?thesis
    by (simp add: sample_request_def)
qed

end
