(* ===== verification/Policy_Manifest.thy ===== *)
theory Policy_Manifest
  imports Reducer
begin

text \<open>
  Policy manifests and their triggers (\<open>policy-engine/src/policy_rpc/manifest_v2.rs\<close>, \<open>manifest.rs\<close> and
  \<open>trigger.rs\<close>). The \<open>BTreeMap\<close>s of a manifest are only iterated, so they are association lists in key order.
  Error texts are the strings the source formats.
\<close>

section \<open>Manifests\<close>

datatype policy_rpc_error =
    InvalidManifest string
  | SelectorError string
  | RpcResult string
  | RpcSchema string
  | SystemFail (sf_call_id: string) (sf_reason: string)

fun rpc_error_text :: "policy_rpc_error \<Rightarrow> string" where
  "rpc_error_text (InvalidManifest m) = ''invalid manifest: '' @ m"
| "rpc_error_text (SelectorError m) = ''selector error: '' @ m"
| "rpc_error_text (RpcResult m) = ''rpc result error: '' @ m"
| "rpc_error_text (RpcSchema m) = ''schema error: '' @ m"
| "rpc_error_text (SystemFail c r) = ''rpc unavailable for required requirement `'' @ c @ ''`: '' @ r"

datatype projection_type = PtString | PtLong | PtBool | PtDecimal | PtUsdValuation | PtWindowStats | PtSetString

fun cedar_type :: "projection_type \<Rightarrow> string" where
  "cedar_type PtString = ''String''"
| "cedar_type PtLong = ''Long''"
| "cedar_type PtBool = ''Bool''"
| "cedar_type PtDecimal = ''decimal''"
| "cedar_type PtUsdValuation = ''UsdValuation''"
| "cedar_type PtWindowStats = ''WindowStats''"
| "cedar_type PtSetString = ''Set<String>''"

record context_projection =
  cp_kind :: string
  cp_field :: string
  cp_type_name :: projection_type
  cp_from :: string
  cp_required :: bool

record policy_rpc_call_spec =
  cs_id :: string
  cs_method :: string
  cs_params :: "(string \<times> json) list"
  cs_outputs :: "context_projection list"
  cs_optional :: bool

datatype trigger_scope = ScopeInner | ScopeOuter

datatype trigger_field = ActionDomain | ActionTag | ActionVenue | TxChainId | TxFrom | TxTo

datatype trigger_constraint = CEq string | CNe string | CIn "string list" | CNin "string list"

record trigger =
  tg_scope :: trigger_scope
  tg_where :: "(trigger_field \<times> trigger_constraint) list"

record manifest_v2 =
  mf_id :: string
  mf_schema_version :: nat
  mf_trigger :: trigger
  mf_policy_rpc :: "policy_rpc_call_spec list"
  mf_custom_context :: "(string \<times> string) list"

definition MANIFEST_V2_SCHEMA_VERSION :: nat where
  "MANIFEST_V2_SCHEMA_VERSION = 2"

definition MAX_POLICY_RPC_V2_MANIFESTS :: nat where
  "MAX_POLICY_RPC_V2_MANIFESTS = 128"

definition MAX_POLICY_RPC_V2_CALL_SPECS :: nat where
  "MAX_POLICY_RPC_V2_CALL_SPECS = 64"

definition MAX_POLICY_RPC_V2_PLANNED_CALLS :: nat where
  "MAX_POLICY_RPC_V2_PLANNED_CALLS = 64"

definition MAX_POLICY_RPC_V2_OUTPUTS_PER_CALL :: nat where
  "MAX_POLICY_RPC_V2_OUTPUTS_PER_CALL = 64"

definition MAX_POLICY_RPC_V2_CUSTOM_CONTEXT_FIELDS :: nat where
  "MAX_POLICY_RPC_V2_CUSTOM_CONTEXT_FIELDS = 64"

definition MAX_POLICY_RPC_V2_SET_STRING_ENTRIES :: nat where
  "MAX_POLICY_RPC_V2_SET_STRING_ENTRIES = 256"

section \<open>Validation\<close>

text \<open>The two hash sets of \<open>validate\<close> are lists here; the field an error names depends on their order only.\<close>

fun validate_outputs :: "string \<Rightarrow> string list \<Rightarrow> context_projection list \<Rightarrow> policy_rpc_error + string list" where
  "validate_outputs mid produced [] = Ok produced"
| "validate_outputs mid produced (out # outs) =
     (if cp_field out \<in> set produced
      then Err (InvalidManifest (''manifest `'' @ mid @ ''` produces custom_context field `'' @ cp_field out @ ''` more than once''))
      else validate_outputs mid (produced @ [cp_field out]) outs)"

fun validate_calls ::
  "string \<Rightarrow> string list \<Rightarrow> string list \<Rightarrow> policy_rpc_call_spec list \<Rightarrow> policy_rpc_error + string list" where
  "validate_calls mid call_ids produced [] = Ok produced"
| "validate_calls mid call_ids produced (call # calls) =
     (if cs_id call \<in> set call_ids
      then Err (InvalidManifest (''manifest `'' @ mid @ ''` has duplicate policy_rpc id `'' @ cs_id call @ ''`''))
      else if length (cs_outputs call) > MAX_POLICY_RPC_V2_OUTPUTS_PER_CALL
      then Err (InvalidManifest (''manifest `'' @ mid @ ''` call `'' @ cs_id call @ ''` declares '' @
        dec_string (length (cs_outputs call)) @ '' outputs (max '' @ dec_string MAX_POLICY_RPC_V2_OUTPUTS_PER_CALL @ '')''))
      else bind_result (validate_outputs mid produced (cs_outputs call)) (\<lambda>produced'.
        validate_calls mid (call_ids @ [cs_id call]) produced' calls))"

definition manifest_validate :: "manifest_v2 \<Rightarrow> policy_rpc_error + unit" where
  "manifest_validate m =
     (let mid = mf_id m; fields = map fst (mf_custom_context m) in
      if mf_schema_version m \<noteq> MANIFEST_V2_SCHEMA_VERSION
      then Err (InvalidManifest (''manifest `'' @ mid @ ''` has schema_version '' @ dec_string (mf_schema_version m) @
        '' (expected '' @ dec_string MANIFEST_V2_SCHEMA_VERSION @ '')''))
      else if length (mf_policy_rpc m) > MAX_POLICY_RPC_V2_CALL_SPECS
      then Err (InvalidManifest (''manifest `'' @ mid @ ''` declares '' @ dec_string (length (mf_policy_rpc m)) @
        '' policy_rpc call specs (max '' @ dec_string MAX_POLICY_RPC_V2_CALL_SPECS @ '')''))
      else if length fields > MAX_POLICY_RPC_V2_CUSTOM_CONTEXT_FIELDS
      then Err (InvalidManifest (''manifest `'' @ mid @ ''` declares '' @ dec_string (length fields) @
        '' custom_context fields (max '' @ dec_string MAX_POLICY_RPC_V2_CUSTOM_CONTEXT_FIELDS @ '')''))
      else bind_result (validate_calls mid [] [] (mf_policy_rpc m)) (\<lambda>produced.
        case find (\<lambda>field. field \<notin> set produced) fields of
          Some field \<Rightarrow> Err (InvalidManifest (''manifest `'' @ mid @ ''` declares custom_context field `'' @ field @
            ''` with no producing policy_rpc output''))
        | None \<Rightarrow>
            (case find (\<lambda>field. field \<notin> set fields) produced of
               Some field \<Rightarrow> Err (InvalidManifest (''manifest `'' @ mid @ ''` policy_rpc output field `'' @ field @
                 ''` is not declared in custom_context''))
             | None \<Rightarrow> Ok ())))"

section \<open>Triggers\<close>

record tx_view =
  tx_chain_id :: string
  tx_from :: string
  tx_to :: string

fun matches_present_values :: "string \<Rightarrow> string option \<Rightarrow> trigger_constraint \<Rightarrow> bool" where
  "matches_present_values prim al (CEq want) \<longleftrightarrow> prim = want \<or> al = Some want"
| "matches_present_values prim al (CNe want) \<longleftrightarrow> \<not> (prim = want \<or> al = Some want)"
| "matches_present_values prim al (CIn wants) \<longleftrightarrow> list_ex (\<lambda>v. prim = v \<or> al = Some v) wants"
| "matches_present_values prim al (CNin wants) \<longleftrightarrow> \<not> list_ex (\<lambda>v. prim = v \<or> al = Some v) wants"

definition matches_field :: "trigger_field \<Rightarrow> trigger_constraint \<Rightarrow> action_view \<Rightarrow> tx_view \<Rightarrow> bool" where
  "matches_field field con act tx =
     (if field = ActionDomain then
        matches_present_values (av_domain act)
          (if av_domain act = ''hyperliquid_core'' \<and> av_action_tag act = Some ''hl_unknown'' then Some ''unknown'' else None) con
      else
        let lhs = (case field of
            ActionTag \<Rightarrow> av_action_tag act
          | ActionVenue \<Rightarrow> av_venue_name act
          | TxChainId \<Rightarrow> Some (tx_chain_id tx)
          | TxFrom \<Rightarrow> Some (tx_from tx)
          | TxTo \<Rightarrow> Some (tx_to tx)
          | ActionDomain \<Rightarrow> None)
        in case lhs of
          None \<Rightarrow> (case con of CNe _ \<Rightarrow> True | CNin _ \<Rightarrow> True | _ \<Rightarrow> False)
        | Some have_val \<Rightarrow>
            (case con of
               CEq want \<Rightarrow> have_val = want
             | CNe want \<Rightarrow> have_val \<noteq> want
             | CIn wants \<Rightarrow> list_ex (\<lambda>v. v = have_val) wants
             | CNin wants \<Rightarrow> \<not> list_ex (\<lambda>v. v = have_val) wants))"

definition evaluate_trigger :: "trigger \<Rightarrow> action_view \<Rightarrow> tx_view \<Rightarrow> bool" where
  "evaluate_trigger tg act tx = list_all (\<lambda>(field, con). matches_field field con act tx) (tg_where tg)"

definition scope_matches_position :: "trigger_scope \<Rightarrow> action_view \<Rightarrow> bool" where
  "scope_matches_position scope act =
     (let is_multicall = (av_domain act = ''multicall'') in
      case scope of ScopeInner \<Rightarrow> \<not> is_multicall | ScopeOuter \<Rightarrow> is_multicall)"

section \<open>What validation guarantees\<close>

abbreviation output_fields :: "policy_rpc_call_spec list \<Rightarrow> string list" where
  "output_fields calls \<equiv> concat (map (\<lambda>call. map cp_field (cs_outputs call)) calls)"

lemma validate_outputs_ok:
  "validate_outputs mid produced outs = Ok p \<longleftrightarrow>
     distinct (map cp_field outs) \<and> set (map cp_field outs) \<inter> set produced = {} \<and> p = produced @ map cp_field outs"
  by (induction mid produced outs rule: validate_outputs.induct) auto

lemma validate_calls_ok:
  "validate_calls mid seen produced calls = Ok p \<longleftrightarrow>
     distinct (map cs_id calls) \<and> set (map cs_id calls) \<inter> set seen = {} \<and>
     (\<forall>call\<in>set calls. length (cs_outputs call) \<le> MAX_POLICY_RPC_V2_OUTPUTS_PER_CALL) \<and>
     distinct (output_fields calls) \<and> set (output_fields calls) \<inter> set produced = {} \<and>
     p = produced @ output_fields calls"
proof (induction calls arbitrary: seen produced)
  case (Cons call calls)
  have "validate_calls mid seen produced (call # calls) = Ok p \<longleftrightarrow>
      cs_id call \<notin> set seen \<and> length (cs_outputs call) \<le> MAX_POLICY_RPC_V2_OUTPUTS_PER_CALL \<and>
      distinct (map cp_field (cs_outputs call)) \<and> set (map cp_field (cs_outputs call)) \<inter> set produced = {} \<and>
      validate_calls mid (seen @ [cs_id call]) (produced @ map cp_field (cs_outputs call)) calls = Ok p"
    by (auto simp: validate_outputs_ok not_less)
  also have "\<dots> \<longleftrightarrow> distinct (map cs_id (call # calls)) \<and> set (map cs_id (call # calls)) \<inter> set seen = {} \<and>
     (\<forall>call\<in>set (call # calls). length (cs_outputs call) \<le> MAX_POLICY_RPC_V2_OUTPUTS_PER_CALL) \<and>
     distinct (output_fields (call # calls)) \<and> set (output_fields (call # calls)) \<inter> set produced = {} \<and>
     p = produced @ output_fields (call # calls)"
    unfolding Cons.IH by (simp only: list.map concat.simps distinct.simps distinct_append set_append list.set append_assoc) blast
  finally show ?case .
qed auto

lemma manifest_validate_ok:
  "manifest_validate m = Ok u \<longleftrightarrow>
     mf_schema_version m = MANIFEST_V2_SCHEMA_VERSION \<and> length (mf_policy_rpc m) \<le> MAX_POLICY_RPC_V2_CALL_SPECS \<and>
     length (mf_custom_context m) \<le> MAX_POLICY_RPC_V2_CUSTOM_CONTEXT_FIELDS \<and>
     distinct (map cs_id (mf_policy_rpc m)) \<and>
     (\<forall>call\<in>set (mf_policy_rpc m). length (cs_outputs call) \<le> MAX_POLICY_RPC_V2_OUTPUTS_PER_CALL) \<and>
     distinct (output_fields (mf_policy_rpc m)) \<and>
     set (output_fields (mf_policy_rpc m)) = set (map fst (mf_custom_context m))"
proof -
  have "(case find (\<lambda>field. field \<notin> set produced) fields of
          Some field \<Rightarrow> Err (a field)
        | None \<Rightarrow> (case find (\<lambda>field. field \<notin> set fields) produced of Some field \<Rightarrow> Err (b field) | None \<Rightarrow> Ok ())) = Ok u \<longleftrightarrow>
      set produced = set fields" for produced fields :: "string list" and a b :: "string \<Rightarrow> policy_rpc_error"
    by (auto split: option.splits simp: find_None_iff dest!: find_Some_iff [THEN iffD1])
  then show ?thesis
    unfolding manifest_validate_def Let_def by (auto simp: validate_calls_ok not_less)
qed

text \<open>
  \<open>validate\<close> accepts a manifest exactly when it has schema version 2, respects the three size limits,
  its call ids are distinct, no context field is produced twice, and the produced fields
  are exactly the declared ones: nothing declared is left unfed and nothing undeclared is written.
\<close>

lemma manifest_validate_exact:
  "manifest_validate m = Ok () \<longleftrightarrow>
     mf_schema_version m = 2 \<and> length (mf_policy_rpc m) \<le> 64 \<and> length (mf_custom_context m) \<le> 64 \<and>
     list_all (\<lambda>call. length (cs_outputs call) \<le> 64) (mf_policy_rpc m) \<and>
     distinct (map cs_id (mf_policy_rpc m)) \<and>
     distinct (concat (map (\<lambda>call. map cp_field (cs_outputs call)) (mf_policy_rpc m))) \<and>
     set (concat (map (\<lambda>call. map cp_field (cs_outputs call)) (mf_policy_rpc m))) = set (map fst (mf_custom_context m))"
  unfolding manifest_validate_ok MANIFEST_V2_SCHEMA_VERSION_def MAX_POLICY_RPC_V2_CALL_SPECS_def
    MAX_POLICY_RPC_V2_CUSTOM_CONTEXT_FIELDS_def MAX_POLICY_RPC_V2_OUTPUTS_PER_CALL_def list_all_iff
  by blast

section \<open>What a trigger denotes\<close>

text \<open>The values a field of a view stands for: none when absent, and two for the domain of an unknown HyperCore action.\<close>

definition field_values :: "trigger_field \<Rightarrow> action_view \<Rightarrow> tx_view \<Rightarrow> string set" where
  "field_values field act tx =
     (case field of
        ActionDomain \<Rightarrow> insert (av_domain act)
          (if av_domain act = ''hyperliquid_core'' \<and> av_action_tag act = Some ''hl_unknown'' then {''unknown''} else {})
      | ActionTag \<Rightarrow> set_option (av_action_tag act)
      | ActionVenue \<Rightarrow> set_option (av_venue_name act)
      | TxChainId \<Rightarrow> {tx_chain_id tx}
      | TxFrom \<Rightarrow> {tx_from tx}
      | TxTo \<Rightarrow> {tx_to tx})"

definition satisfies :: "trigger_constraint \<Rightarrow> string set \<Rightarrow> bool" where
  "satisfies con vals =
     (case con of
        CEq want \<Rightarrow> want \<in> vals
      | CNe want \<Rightarrow> want \<notin> vals
      | CIn wants \<Rightarrow> set wants \<inter> vals \<noteq> {}
      | CNin wants \<Rightarrow> set wants \<inter> vals = {})"

lemma matches_field_satisfies: "matches_field field con act tx \<longleftrightarrow> satisfies con (field_values field act tx)"
  by (cases field; cases con)
    (auto simp: matches_field_def satisfies_def field_values_def list_ex_iff split: option.splits)

text \<open>
  C40. A trigger is the conjunction of its constraints over the values of the fields. Every field denotes a
  set of values (empty when absent, and for an unidentified HyperCore action also \<open>unknown\<close>);
  \<open>eq\<close> and \<open>in\<close> ask for a common value, \<open>ne\<close> and \<open>nin\<close> are their exact negations. And a manifest applies at
  exactly one position: to the batch itself or to its leaf actions, by its scope.
\<close>

theorem trigger_denotation:
  "(evaluate_trigger tg act tx \<longleftrightarrow> list_all (\<lambda>(field, con). satisfies con (field_values field act tx)) (tg_where tg)) \<and>
   (satisfies (CNe w) vals \<longleftrightarrow> \<not> satisfies (CEq w) vals) \<and>
   (satisfies (CNin ws) vals \<longleftrightarrow> \<not> satisfies (CIn ws) vals) \<and>
   (scope_matches_position ScopeOuter (view tag venue body) \<longleftrightarrow> (\<exists>bs. body = Multicall bs)) \<and>
   (scope_matches_position ScopeInner (view tag venue body) \<longleftrightarrow> \<not> scope_matches_position ScopeOuter (view tag venue body))"
proof -
  have "scope_matches_position ScopeOuter (view tag venue body) \<longleftrightarrow> (\<exists>bs. body = Multicall bs)"
    by (cases body) (simp_all add: scope_matches_position_def)
  then show ?thesis
    by (simp add: evaluate_trigger_def matches_field_satisfies satisfies_def scope_matches_position_def)
qed

end
