(* ===== verification/Policy_Rpc.thy ===== *)
theory Policy_Rpc
  imports Policy_Manifest
begin

text \<open>
  Planning of the enrichment calls and replay of their results into the action context
  (\<open>policy-engine/src/policy_rpc\<close>: \<open>selector.rs\<close>, \<open>planning_v2.rs\<close>, \<open>materialize_v2.rs\<close>). The context is a JSON value that
  \<open>materialize_v2\<close> mutates in place: here it returns the context it leaves behind, also with an error.
\<close>

section \<open>Selectors\<close>

fun split_dots :: "string \<Rightarrow> string \<Rightarrow> string list" where
  "split_dots acc [] = [acc]"
| "split_dots acc (c # cs) = (if c = CHR ''.'' then acc # split_dots [] cs else split_dots (acc @ [c]) cs)"

record selector_roots =
  sr_root :: json
  sr_action :: json
  sr_context :: json
  sr_result :: json
  sr_params :: json

definition starts_with_dollar :: "string \<Rightarrow> bool" where
  "starts_with_dollar s \<longleftrightarrow> take 2 s = ''$.''"

fun walk_fields :: "string \<Rightarrow> json \<Rightarrow> string list \<Rightarrow> policy_rpc_error + json" where
  "walk_fields selector cur [] = Ok cur"
| "walk_fields selector cur (field # segs) =
     (if field = [] then Err (SelectorError (''empty selector segment in '' @ selector))
      else bind_result
        (ok_or (SelectorError (''selector field `'' @ field @ ''` not found in '' @ selector)) (json_get cur field))
        (\<lambda>next_val. walk_fields selector next_val segs))"

definition resolve_selector :: "string \<Rightarrow> selector_roots \<Rightarrow> policy_rpc_error + json" where
  "resolve_selector selector roots =
     (if \<not> starts_with_dollar selector then Err (SelectorError (''selector must start with `$.`: '' @ selector))
      else if list_ex (\<lambda>ch. ch \<in> set ''[]*()'') selector
      then Err (SelectorError (''selector uses unsupported syntax: '' @ selector))
      else case split_dots [] (drop 2 selector) of
        [] \<Rightarrow> Err (SelectorError ''selector is empty'')
      | root_name # segs \<Rightarrow>
          bind_result
            (if root_name = ''root'' then Ok (sr_root roots)
             else if root_name = ''action'' then Ok (sr_action roots)
             else if root_name = ''context'' then Ok (sr_context roots)
             else if root_name = ''result'' then Ok (sr_result roots)
             else if root_name = ''params'' then Ok (sr_params roots)
             else Err (SelectorError (''unknown selector root `'' @ root_name @ ''`'')))
            (\<lambda>cur. walk_fields selector cur segs))"

section \<open>Planning\<close>

record planned_call =
  pc_manifest_id :: string
  pc_call_id :: string
  pc_method :: string
  pc_params :: json
  pc_outputs :: "context_projection list"
  pc_optional :: bool

definition policy_rpc_call_id :: "string \<Rightarrow> string \<Rightarrow> string" where
  "policy_rpc_call_id manifest_id spec_id = manifest_id @ ''::'' @ spec_id"

abbreviation empty_object :: json where
  "empty_object \<equiv> JObject fmempty"

definition root_selector_json :: "tx_view \<Rightarrow> json" where
  "root_selector_json tx = JObject (fmap_of_list
     [(''chain_id'', JString (tx_chain_id tx)), (''from'', JString (tx_from tx)), (''to'', JString (tx_to tx))])"

definition resolve_param :: "tx_view \<Rightarrow> json \<Rightarrow> json \<Rightarrow> policy_rpc_error + json" where
  "resolve_param tx lowered template =
     (case template of
        JString selector \<Rightarrow>
          if starts_with_dollar selector then
            resolve_selector selector
              \<lparr>sr_root = root_selector_json tx, sr_action = lowered, sr_context = empty_object,
               sr_result = empty_object, sr_params = empty_object\<rparr>
          else Ok template
      | _ \<Rightarrow> Ok template)"

fun resolve_params ::
  "tx_view \<Rightarrow> json \<Rightarrow> (string, json) fmap \<Rightarrow> (string \<times> json) list \<Rightarrow> policy_rpc_error + (string, json) fmap" where
  "resolve_params tx lowered acc [] = Ok acc"
| "resolve_params tx lowered acc ((key, template) # rest) =
     bind_result (resolve_param tx lowered template) (\<lambda>v. resolve_params tx lowered (fmupd key v acc) rest)"

fun plan_specs ::
  "tx_view \<Rightarrow> json \<Rightarrow> string \<Rightarrow> planned_call list \<Rightarrow> policy_rpc_call_spec list \<Rightarrow> policy_rpc_error + planned_call list" where
  "plan_specs tx lowered mid calls [] = Ok calls"
| "plan_specs tx lowered mid calls (spec # specs) =
     (case resolve_params tx lowered fmempty (cs_params spec) of
        Err e \<Rightarrow> if cs_optional spec then plan_specs tx lowered mid calls specs else Err e
      | Ok params \<Rightarrow>
          if length calls \<ge> MAX_POLICY_RPC_V2_PLANNED_CALLS
          then Err (InvalidManifest (''planned policy-rpc call count exceeds '' @ dec_string MAX_POLICY_RPC_V2_PLANNED_CALLS))
          else plan_specs tx lowered mid
            (calls @ [\<lparr>pc_manifest_id = mid, pc_call_id = policy_rpc_call_id mid (cs_id spec), pc_method = cs_method spec,
               pc_params = JObject params, pc_outputs = cs_outputs spec, pc_optional = cs_optional spec\<rparr>]) specs)"

definition manifest_matches :: "manifest_v2 \<Rightarrow> action_view \<Rightarrow> tx_view \<Rightarrow> bool" where
  "manifest_matches m act tx \<longleftrightarrow>
     scope_matches_position (tg_scope (mf_trigger m)) act \<and> evaluate_trigger (mf_trigger m) act tx"

fun plan_manifests ::
  "action_view \<Rightarrow> json \<Rightarrow> tx_view \<Rightarrow> planned_call list \<Rightarrow> manifest_v2 list \<Rightarrow> policy_rpc_error + planned_call list" where
  "plan_manifests act lowered tx calls [] = Ok calls"
| "plan_manifests act lowered tx calls (m # ms) =
     (if \<not> manifest_matches m act tx then plan_manifests act lowered tx calls ms
      else bind_result (manifest_validate m) (\<lambda>_.
        bind_result (plan_specs tx lowered (mf_id m) calls (mf_policy_rpc m)) (\<lambda>calls'.
          plan_manifests act lowered tx calls' ms)))"

definition plan_policy_rpc ::
  "manifest_v2 list \<Rightarrow> action_view \<Rightarrow> json \<Rightarrow> tx_view \<Rightarrow> policy_rpc_error + planned_call list" where
  "plan_policy_rpc manifests act lowered tx =
     (if length manifests > MAX_POLICY_RPC_V2_MANIFESTS
      then Err (InvalidManifest (''policy-rpc manifest count '' @ dec_string (length manifests) @ '' exceeds '' @
        dec_string MAX_POLICY_RPC_V2_MANIFESTS))
      else plan_manifests act lowered tx [] manifests)"

section \<open>Materialization\<close>

definition decimal_json :: "string \<Rightarrow> json" where
  "decimal_json v = JObject (fmap_of_list
     [(''__extn'', JObject (fmap_of_list [(''fn'', JString ''decimal''), (''arg'', JString v)]))])"

definition as_i64 :: "json \<Rightarrow> int option" where
  "as_i64 v =
     (case v of
        JNumber (PosInt n) \<Rightarrow> if uint n < 2 ^ 63 then Some (uint n) else None
      | JNumber (NegInt n) \<Rightarrow> Some n
      | _ \<Rightarrow> None)"

definition json_of_i64 :: "int \<Rightarrow> json" where
  "json_of_i64 n = JNumber (if n < 0 then NegInt n else PosInt (word_of_int n))"

fun string_entries :: "json list \<Rightarrow> policy_rpc_error + json list" where
  "string_entries [] = Ok []"
| "string_entries (JString s # rest) = bind_result (string_entries rest) (\<lambda>out. Ok (JString s # out))"
| "string_entries (_ # rest) = Err (RpcResult ''expected Set<String> entry string'')"

definition materialize_value :: "json \<Rightarrow> projection_type \<Rightarrow> policy_rpc_error + json" where
  "materialize_value v ty =
     (case ty of
        PtString \<Rightarrow> (case v of JString s \<Rightarrow> Ok (JString s) | _ \<Rightarrow> Err (RpcResult ''expected String''))
      | PtLong \<Rightarrow> (case as_i64 v of Some n \<Rightarrow> Ok (json_of_i64 n) | None \<Rightarrow> Err (RpcResult ''expected Long''))
      | PtBool \<Rightarrow> (case v of JBool b \<Rightarrow> Ok (JBool b) | _ \<Rightarrow> Err (RpcResult ''expected Bool''))
      | PtDecimal \<Rightarrow> (case v of JString s \<Rightarrow> Ok (decimal_json s) | _ \<Rightarrow> Err (RpcResult ''expected Decimal string''))
      | PtSetString \<Rightarrow>
          (case v of
             JArray vs \<Rightarrow>
               if length vs > MAX_POLICY_RPC_V2_SET_STRING_ENTRIES
               then Err (RpcResult (''expected Set<String> array length <= '' @ dec_string MAX_POLICY_RPC_V2_SET_STRING_ENTRIES))
               else bind_result (string_entries vs) (\<lambda>out. Ok (JArray out))
           | _ \<Rightarrow> Err (RpcResult ''expected Set<String> array''))
      | _ \<Rightarrow> Err (RpcResult (''projection type `'' @ cedar_type ty @ ''` is not supported in v2 materialization'')))"

text \<open>A mutation of the context: the context afterwards and the result.\<close>

type_synonym 'a ctx_result = "json \<times> (policy_rpc_error + 'a)"

definition insert_custom_field :: "json \<Rightarrow> string \<Rightarrow> json \<Rightarrow> unit ctx_result" where
  "insert_custom_field context field v =
     (case context of
        JObject obj \<Rightarrow>
          (let custom = (case fmlookup obj ''custom'' of Some c \<Rightarrow> c | None \<Rightarrow> empty_object);
               obj' = fmupd ''custom'' custom obj
           in case custom of
             JObject cm \<Rightarrow>
               if fmlookup cm field \<noteq> None
               then (JObject obj', Err (InvalidManifest (''context projection `custom.'' @ field @
                 ''` would overwrite an existing context field'')))
               else (JObject (fmupd ''custom'' (JObject (fmupd field v cm)) obj'), Ok ())
           | _ \<Rightarrow> (JObject obj', Err (RpcResult ''context.custom is not an object'')))
      | _ \<Rightarrow> (context, Err (RpcResult ''lowered action context is not an object'')))"

definition project_output :: "json \<Rightarrow> context_projection \<Rightarrow> policy_rpc_error + json" where
  "project_output payload out =
     bind_result
       (resolve_selector (cp_from out)
         \<lparr>sr_root = empty_object, sr_action = empty_object, sr_context = empty_object, sr_result = payload, sr_params = empty_object\<rparr>)
       (\<lambda>selected. materialize_value selected (cp_type_name out))"

fun apply_outputs :: "json \<Rightarrow> planned_call \<Rightarrow> json \<Rightarrow> context_projection list \<Rightarrow> unit ctx_result" where
  "apply_outputs context call payload [] = (context, Ok ())"
| "apply_outputs context call payload (out # outs) =
     (if cp_kind out \<noteq> ''context''
      then (context, Err (InvalidManifest (''unsupported projection kind `'' @ cp_kind out @ ''`'')))
      else case project_output payload out of
        Err e \<Rightarrow>
          if pc_optional call then apply_outputs context call payload outs
          else (context, Err (SystemFail (pc_call_id call) (rpc_error_text e)))
      | Ok v \<Rightarrow>
          (case insert_custom_field context (cp_field out) v of
             (context', Err e) \<Rightarrow> (context', Err e)
           | (context', Ok _) \<Rightarrow> apply_outputs context' call payload outs))"

definition apply_call_outputs :: "json \<Rightarrow> planned_call \<Rightarrow> json \<Rightarrow> unit ctx_result" where
  "apply_call_outputs context call payload = apply_outputs context call payload (pc_outputs call)"

fun materialize :: "json \<Rightarrow> planned_call list \<Rightarrow> (string, json) fmap \<Rightarrow> unit ctx_result" where
  "materialize context [] results = (context, Ok ())"
| "materialize context (call # calls) results =
     (case fmlookup results (pc_call_id call) of
        None \<Rightarrow>
          if pc_optional call then materialize context calls results
          else (context, Err (SystemFail (pc_call_id call) ''missing rpc result''))
      | Some payload \<Rightarrow>
          (case apply_call_outputs context call payload of
             (context', Err e) \<Rightarrow> (context', Err e)
           | (context', Ok _) \<Rightarrow> materialize context' calls results))"

section \<open>The plan of a list of manifests\<close>

definition spec_call :: "tx_view \<Rightarrow> json \<Rightarrow> string \<Rightarrow> policy_rpc_call_spec \<Rightarrow> planned_call option" where
  "spec_call tx lowered mid spec =
     (case resolve_params tx lowered fmempty (cs_params spec) of
        Err _ \<Rightarrow> None
      | Ok params \<Rightarrow> Some \<lparr>pc_manifest_id = mid, pc_call_id = policy_rpc_call_id mid (cs_id spec), pc_method = cs_method spec,
          pc_params = JObject params, pc_outputs = cs_outputs spec, pc_optional = cs_optional spec\<rparr>)"

abbreviation manifest_calls :: "tx_view \<Rightarrow> json \<Rightarrow> manifest_v2 \<Rightarrow> planned_call list" where
  "manifest_calls tx lowered m \<equiv> List.map_filter (spec_call tx lowered (mf_id m)) (mf_policy_rpc m)"

definition specs_resolve :: "tx_view \<Rightarrow> json \<Rightarrow> manifest_v2 \<Rightarrow> bool" where
  "specs_resolve tx lowered m \<longleftrightarrow>
     (\<forall>spec\<in>set (mf_policy_rpc m). cs_optional spec \<or> spec_call tx lowered (mf_id m) spec \<noteq> None)"

lemma plan_specs_ok:
  "plan_specs tx lowered mid calls specs = Ok out \<longleftrightarrow>
     (\<forall>spec\<in>set specs. cs_optional spec \<or> spec_call tx lowered mid spec \<noteq> None) \<and>
     out = calls @ List.map_filter (spec_call tx lowered mid) specs \<and>
     (List.map_filter (spec_call tx lowered mid) specs = [] \<or> length out \<le> MAX_POLICY_RPC_V2_PLANNED_CALLS)"
proof (induction specs arbitrary: calls)
  case (Cons spec specs)
  show ?case
  proof (cases "resolve_params tx lowered fmempty (cs_params spec)")
    case (Inl e)
    then show ?thesis
      using Cons.IH [of calls] by (auto simp: spec_call_def List.map_filter_simps)
  next
    case (Inr params)
    then show ?thesis
      using Cons.IH by (auto simp: spec_call_def List.map_filter_simps not_le)
  qed
qed (auto simp: List.map_filter_simps)

lemma planned_limit:
  "A \<and> (xs = [] \<or> length (cs @ xs) \<le> k) \<and> B \<and> out = (cs @ xs) @ ys \<and> (ys = [] \<or> length out \<le> k) \<longleftrightarrow>
     (A \<and> B) \<and> out = cs @ (xs @ ys) \<and> (xs @ ys = [] \<or> length out \<le> k)"
  by (cases xs; cases ys) auto

lemma plan_manifests_ok:
  "plan_manifests act lowered tx calls ms = Ok out \<longleftrightarrow>
     (\<forall>m\<in>set ms. manifest_matches m act tx \<longrightarrow> manifest_validate m = Ok () \<and> specs_resolve tx lowered m) \<and>
     out = calls @ concat (map (manifest_calls tx lowered) (filter (\<lambda>m. manifest_matches m act tx) ms)) \<and>
     (concat (map (manifest_calls tx lowered) (filter (\<lambda>m. manifest_matches m act tx) ms)) = [] \<or>
       length out \<le> MAX_POLICY_RPC_V2_PLANNED_CALLS)"
proof (induction ms arbitrary: calls)
  case (Cons m ms)
  show ?case
  proof (cases "manifest_matches m act tx")
    case False
    then show ?thesis
      using Cons.IH [of calls] by simp
  next
    case True
    then have "plan_manifests act lowered tx calls (m # ms) = Ok out \<longleftrightarrow>
        manifest_validate m = Ok () \<and>
        (\<exists>cs. plan_specs tx lowered (mf_id m) calls (mf_policy_rpc m) = Ok cs \<and> plan_manifests act lowered tx cs ms = Ok out)"
      by auto
    also have "\<dots> \<longleftrightarrow> (manifest_validate m = Ok () \<and> specs_resolve tx lowered m) \<and>
        (manifest_calls tx lowered m = [] \<or> length (calls @ manifest_calls tx lowered m) \<le> MAX_POLICY_RPC_V2_PLANNED_CALLS) \<and>
        plan_manifests act lowered tx (calls @ manifest_calls tx lowered m) ms = Ok out"
      unfolding plan_specs_ok specs_resolve_def by blast
    finally show ?thesis
      unfolding Cons.IH planned_limit using True by simp
  qed
qed auto

section \<open>Replay of the results\<close>

definition custom_map :: "(string, json) fmap \<Rightarrow> (string, json) fmap option" where
  "custom_map obj = (case fmlookup obj ''custom'' of None \<Rightarrow> Some fmempty | Some (JObject cm) \<Rightarrow> Some cm | Some _ \<Rightarrow> None)"

definition add_custom :: "string \<times> json \<Rightarrow> (string, json) fmap \<Rightarrow> (string, json) fmap" where
  "add_custom w obj = fmupd ''custom'' (JObject (fmupd (fst w) (snd w) (the (custom_map obj)))) obj"

lemma custom_map_add [simp]: "custom_map (add_custom w obj) = Some (fmupd (fst w) (snd w) (the (custom_map obj)))"
  by (simp add: custom_map_def [of "add_custom w obj"]) (simp add: add_custom_def)

lemma fmupd_twice: "fmupd k a (fmupd k b m) = fmupd k a m"
  by (rule fmap_ext) simp

lemma insert_custom_field_fresh:
  assumes "custom_map obj = Some cm" and "fmlookup cm field = None"
  shows "insert_custom_field (JObject obj) field v = (JObject (add_custom (field, v) obj), Ok ())"
  using assms
  by (auto simp: insert_custom_field_def custom_map_def add_custom_def Let_def fmupd_twice split: option.splits json.splits)

text \<open>What the outputs of one call write, and whether the call is served.\<close>

definition call_writes :: "json \<Rightarrow> context_projection list \<Rightarrow> (string \<times> json) list" where
  "call_writes payload outs =
     List.map_filter (\<lambda>out. case project_output payload out of Ok v \<Rightarrow> Some (cp_field out, v) | Err _ \<Rightarrow> None) outs"

definition result_writes :: "(string, json) fmap \<Rightarrow> planned_call \<Rightarrow> (string \<times> json) list" where
  "result_writes results call =
     (case fmlookup results (pc_call_id call) of None \<Rightarrow> [] | Some payload \<Rightarrow> call_writes payload (pc_outputs call))"

definition call_served :: "(string, json) fmap \<Rightarrow> planned_call \<Rightarrow> bool" where
  "call_served results call \<longleftrightarrow>
     pc_optional call \<or>
     (case fmlookup results (pc_call_id call) of
        None \<Rightarrow> False
      | Some payload \<Rightarrow> (\<forall>out\<in>set (pc_outputs call). is_ok (project_output payload out)))"

lemma call_writes_fields: "fst ` set (call_writes payload outs) \<subseteq> cp_field ` set outs"
  by (induction outs) (auto simp: call_writes_def List.map_filter_simps split: sum.splits)

lemma custom_map_fold:
  "custom_map obj = Some cm \<Longrightarrow>
     \<exists>cm'. custom_map (fold add_custom ws obj) = Some cm' \<and> fmdom' cm' = fmdom' cm \<union> fst ` set ws"
proof (induction ws arbitrary: obj cm)
  case (Cons w ws)
  from Cons.IH [of "add_custom w obj" "fmupd (fst w) (snd w) cm"] Cons.prems show ?case
    by auto
qed simp

abbreviation context_outputs :: "context_projection list \<Rightarrow> bool" where
  "context_outputs outs \<equiv> list_all (\<lambda>out. cp_kind out = ''context'') outs"

lemma apply_outputs_exact:
  assumes "custom_map obj = Some cm" and "context_outputs outs" and "distinct (map cp_field outs)"
    and "set (map cp_field outs) \<inter> fmdom' cm = {}"
  shows "if pc_optional call \<or> (\<forall>out\<in>set outs. is_ok (project_output payload out))
    then apply_outputs (JObject obj) call payload outs = (JObject (fold add_custom (call_writes payload outs) obj), Ok ())
    else \<exists>context' r. apply_outputs (JObject obj) call payload outs = (context', Err (SystemFail (pc_call_id call) r))"
  using assms
proof (induction outs arbitrary: obj cm)
  case Nil
  then show ?case by (simp add: call_writes_def List.map_filter_simps)
next
  case (Cons out outs)
  show ?case
  proof (cases "project_output payload out")
    case (Inl e)
    with Cons show ?thesis
      by (auto simp: call_writes_def List.map_filter_simps)
  next
    case (Inr v)
    have "fmlookup cm (cp_field out) = None"
      using Cons.prems(4) by (auto simp: fmlookup_dom'_iff)
    then have ins: "insert_custom_field (JObject obj) (cp_field out) v = (JObject (add_custom (cp_field out, v) obj), Ok ())"
      by (rule insert_custom_field_fresh [OF Cons.prems(1)])
    have cm: "custom_map (add_custom (cp_field out, v) obj) = Some (fmupd (cp_field out) v cm)"
      using Cons.prems(1) by simp
    have step: "apply_outputs (JObject obj) call payload (out # outs) =
        apply_outputs (JObject (add_custom (cp_field out, v) obj)) call payload outs"
      using Cons.prems(2) Inr ins by simp
    have writes: "call_writes payload (out # outs) = (cp_field out, v) # call_writes payload outs"
      using Inr by (simp add: call_writes_def List.map_filter_simps)
    have "context_outputs outs" "distinct (map cp_field outs)" "set (map cp_field outs) \<inter> fmdom' (fmupd (cp_field out) v cm) = {}"
      using Cons.prems by auto
    from Cons.IH [OF cm this] show ?thesis
      unfolding step writes using Inr by simp
  qed
qed

abbreviation planned_fields :: "planned_call list \<Rightarrow> string list" where
  "planned_fields calls \<equiv> concat (map (\<lambda>call. map cp_field (pc_outputs call)) calls)"

lemma materialize_exact:
  assumes "custom_map obj = Some cm" and "\<forall>call\<in>set calls. context_outputs (pc_outputs call)"
    and "distinct (planned_fields calls)" and "set (planned_fields calls) \<inter> fmdom' cm = {}"
  shows "if \<forall>call\<in>set calls. call_served results call
    then materialize (JObject obj) calls results = (JObject (fold add_custom (concat (map (result_writes results) calls)) obj), Ok ())
    else \<exists>context' c r. materialize (JObject obj) calls results = (context', Err (SystemFail c r))"
  using assms
proof (induction calls arbitrary: obj cm)
  case (Cons call calls)
  have rest: "\<forall>call\<in>set calls. context_outputs (pc_outputs call)" "distinct (planned_fields calls)"
    "set (planned_fields calls) \<inter> fmdom' cm = {}"
    using Cons.prems by auto
  show ?case
  proof (cases "fmlookup results (pc_call_id call)")
    case None
    with Cons.IH [OF Cons.prems(1) rest] show ?thesis
      by (auto simp: call_served_def result_writes_def)
  next
    case (Some payload)
    let ?ws = "call_writes payload (pc_outputs call)"
    have out: "if pc_optional call \<or> (\<forall>out\<in>set (pc_outputs call). is_ok (project_output payload out))
        then apply_outputs (JObject obj) call payload (pc_outputs call) = (JObject (fold add_custom ?ws obj), Ok ())
        else \<exists>context' r. apply_outputs (JObject obj) call payload (pc_outputs call) = (context', Err (SystemFail (pc_call_id call) r))"
      using Cons.prems by (intro apply_outputs_exact) auto
    show ?thesis
    proof (cases "call_served results call")
      case False
      with out Some obtain context' r where
        "apply_outputs (JObject obj) call payload (pc_outputs call) = (context', Err (SystemFail (pc_call_id call) r))"
        by (auto simp: call_served_def split: if_splits)
      with False Some show ?thesis
        by (auto simp: apply_call_outputs_def)
    next
      case True
      with out Some have step: "materialize (JObject obj) (call # calls) results = materialize (JObject (fold add_custom ?ws obj)) calls results"
        by (simp add: call_served_def apply_call_outputs_def)
      obtain cm' where cm': "custom_map (fold add_custom ?ws obj) = Some cm'" "fmdom' cm' = fmdom' cm \<union> fst ` set ?ws"
        using custom_map_fold [OF Cons.prems(1)] by blast
      have "set (planned_fields calls) \<inter> fmdom' cm' = {}"
      proof -
        have "cp_field ` set (pc_outputs call) \<inter> set (planned_fields calls) = {}"
          using Cons.prems(3) by (simp only: list.map concat.simps distinct_append set_map)
        with call_writes_fields [of payload "pc_outputs call"] rest(3) show ?thesis
          unfolding cm'(2) by blast
      qed
      from Cons.IH [OF cm'(1) rest(1,2) this] True show ?thesis
        unfolding step by (simp add: result_writes_def Some)
    qed
  qed
qed simp

lemma apply_outputs_served:
  "apply_outputs ctx call payload outs = (ctx', Ok ()) \<Longrightarrow> \<not> pc_optional call \<Longrightarrow>
     \<forall>out\<in>set outs. is_ok (project_output payload out)"
  by (induction ctx call payload outs rule: apply_outputs.induct)
    (auto simp: is_ok_iff split: if_splits sum.splits prod.splits)

lemma materialize_served:
  "materialize ctx calls results = (ctx', Ok ()) \<Longrightarrow> \<forall>call\<in>set calls. call_served results call"
proof (induction calls arbitrary: ctx)
  case (Cons call calls)
  show ?case
  proof (cases "fmlookup results (pc_call_id call)")
    case None
    with Cons show ?thesis
      by (auto simp: call_served_def split: if_splits)
  next
    case (Some payload)
    with Cons.prems obtain ctx1 where
      one: "apply_outputs ctx call payload (pc_outputs call) = (ctx1, Ok ())"
      and rest: "materialize ctx1 calls results = (ctx', Ok ())"
      by (auto simp: apply_call_outputs_def split: prod.splits sum.splits)
    have "call_served results call"
      using apply_outputs_served [OF one] Some by (auto simp: call_served_def)
    with Cons.IH [OF rest] show ?thesis by simp
  qed
qed simp

text \<open>The writes of a list of outputs, read back.\<close>

lemma custom_map_fold_eq:
  "custom_map obj = Some cm \<Longrightarrow>
     custom_map (fold add_custom ws obj) = Some (fold (\<lambda>w. fmupd (fst w) (snd w)) ws cm)"
  by (induction ws arbitrary: obj cm) auto

lemma fold_add_custom_frame: "k \<noteq> ''custom'' \<Longrightarrow> fmlookup (fold add_custom ws obj) k = fmlookup obj k"
  by (induction ws arbitrary: obj) (auto simp: add_custom_def)

lemma fold_fmupd_lookup:
  assumes "distinct (map fst ws)"
  shows "fmlookup (fold (\<lambda>w. fmupd (fst w) (snd w)) ws cm) k = (case map_of ws k of Some v \<Rightarrow> Some v | None \<Rightarrow> fmlookup cm k)"
  using assms
proof (induction ws arbitrary: cm)
  case (Cons w ws)
  then have "map_of ws (fst w) = None"
    by (simp add: map_of_eq_None_iff)
  with Cons show ?case
    by (cases w) (auto split: option.split)
qed simp

lemma distinct_call_writes: "distinct (map cp_field outs) \<Longrightarrow> distinct (map fst (call_writes payload outs))"
proof (induction outs)
  case (Cons out outs)
  have "cp_field out \<notin> fst ` set (call_writes payload outs)"
    using Cons.prems call_writes_fields [of payload outs] by auto
  with Cons show ?case
    by (auto simp: call_writes_def List.map_filter_simps split: sum.splits)
qed (simp add: call_writes_def List.map_filter_simps)

lemma result_writes_fields: "fst ` set (result_writes results call) \<subseteq> cp_field ` set (pc_outputs call)"
  by (cases "fmlookup results (pc_call_id call)") (simp_all add: result_writes_def call_writes_fields)

lemma distinct_result_writes:
  "distinct (planned_fields calls) \<Longrightarrow> distinct (map fst (concat (map (result_writes results) calls)))"
proof (induction calls)
  case (Cons call calls)
  have sub: "fst ` set (concat (map (result_writes results) calls)) \<subseteq> set (planned_fields calls)"
  proof
    fix x
    assume "x \<in> fst ` set (concat (map (result_writes results) calls))"
    then obtain call' where "call' \<in> set calls" "x \<in> fst ` set (result_writes results call')" by auto
    with result_writes_fields [of results call'] have "call' \<in> set calls" "x \<in> cp_field ` set (pc_outputs call')"
      by blast+
    then show "x \<in> set (planned_fields calls)" by auto
  qed
  have dist: "distinct (map cp_field (pc_outputs call))" "distinct (planned_fields calls)"
    "cp_field ` set (pc_outputs call) \<inter> set (planned_fields calls) = {}"
    using Cons.prems by (simp_all only: list.map concat.simps distinct_append set_map)
  have "distinct (map fst (result_writes results call))"
    using distinct_call_writes [OF dist(1)] by (simp add: result_writes_def split: option.split)
  with Cons.IH [OF dist(2)] sub result_writes_fields [of results call] dist(3) show ?case
    by (simp only: list.map concat.simps map_append distinct_append set_map) blast
qed simp

lemma call_writes_member:
  "out \<in> set outs \<Longrightarrow> project_output payload out = Ok v \<Longrightarrow> (cp_field out, v) \<in> set (call_writes payload outs)"
  by (induction outs) (auto simp: call_writes_def List.map_filter_simps split: sum.splits)

text \<open>The calls of a valid manifest write distinct fields.\<close>

lemma spec_call_outputs: "spec_call tx lowered mid spec = Some call \<Longrightarrow> pc_outputs call = cs_outputs spec"
  by (auto simp: spec_call_def split: sum.splits)

lemma planned_fields_subset:
  "set (planned_fields (List.map_filter (spec_call tx lowered mid) specs)) \<subseteq> set (output_fields specs)"
  by (induction specs) (auto simp: List.map_filter_simps spec_call_outputs split: option.splits)

lemma planned_fields_distinct:
  "distinct (output_fields specs) \<Longrightarrow> distinct (planned_fields (List.map_filter (spec_call tx lowered mid) specs))"
proof (induction specs)
  case (Cons spec specs)
  have dist: "distinct (map cp_field (cs_outputs spec))" "distinct (output_fields specs)"
    "set (map cp_field (cs_outputs spec)) \<inter> set (output_fields specs) = {}"
    using Cons.prems by (simp_all only: list.map concat.simps distinct_append)
  show ?case
  proof (cases "spec_call tx lowered mid spec")
    case None
    with Cons.IH [OF dist(2)] show ?thesis by (simp add: List.map_filter_simps)
  next
    case (Some call)
    then have calls: "List.map_filter (spec_call tx lowered mid) (spec # specs) =
        call # List.map_filter (spec_call tx lowered mid) specs"
      by (simp add: List.map_filter_simps)
    from Cons.IH [OF dist(2)] dist(1,3) planned_fields_subset [of tx lowered mid specs] show ?thesis
      unfolding calls by (simp only: list.map concat.simps distinct_append spec_call_outputs [OF Some]) blast
  qed
qed (simp add: List.map_filter_simps)

definition context_manifest :: "manifest_v2 \<Rightarrow> bool" where
  "context_manifest m \<longleftrightarrow> list_all (\<lambda>spec. context_outputs (cs_outputs spec)) (mf_policy_rpc m)"

lemma context_manifest_calls:
  "context_manifest m \<Longrightarrow> call \<in> set (manifest_calls tx lowered m) \<Longrightarrow> context_outputs (pc_outputs call)"
  by (auto simp: context_manifest_def List.map_filter_def list_all_iff spec_call_outputs)

text \<open>A context with no foreign field under \<open>custom\<close> that the manifest would write.\<close>

definition custom_free :: "manifest_v2 \<Rightarrow> (string, json) fmap \<Rightarrow> bool" where
  "custom_free m obj =
     (case custom_map obj of None \<Rightarrow> False | Some cm \<Rightarrow> list_all (\<lambda>field. fmlookup cm field = None) (output_fields (mf_policy_rpc m)))"

lemma materialize_manifest:
  assumes "manifest_validate m = Ok ()" and "context_manifest m" and "custom_free m obj"
  shows "if \<forall>call\<in>set (manifest_calls tx lowered m). call_served results call
    then materialize (JObject obj) (manifest_calls tx lowered m) results =
      (JObject (fold add_custom (concat (map (result_writes results) (manifest_calls tx lowered m))) obj), Ok ())
    else \<exists>ctx' c r. materialize (JObject obj) (manifest_calls tx lowered m) results = (ctx', Err (SystemFail c r))"
proof -
  from assms(3) obtain cm where cm: "custom_map obj = Some cm"
    and free: "\<forall>field\<in>set (output_fields (mf_policy_rpc m)). fmlookup cm field = None"
    by (auto simp: custom_free_def list_all_iff split: option.splits)
  have "distinct (output_fields (mf_policy_rpc m))"
    using assms(1) manifest_validate_ok by blast
  note dist = planned_fields_distinct [OF this]
  have "set (planned_fields (manifest_calls tx lowered m)) \<inter> fmdom' cm = {}"
  proof (rule Int_emptyI)
    fix x
    assume "x \<in> set (planned_fields (manifest_calls tx lowered m))" and dom: "x \<in> fmdom' cm"
    then have "x \<in> set (output_fields (mf_policy_rpc m))"
      using planned_fields_subset by blast
    with free have "fmlookup cm x = None" by blast
    with dom show False
      by (simp add: fmlookup_dom'_iff)
  qed
  from materialize_exact [OF cm _ dist this] context_manifest_calls [OF assms(2)] show ?thesis
    by blast
qed

lemma result_writes_served:
  assumes "call \<in> set calls" and "out \<in> set (pc_outputs call)" and "fmlookup results (pc_call_id call) = Some payload"
    and "project_output payload out = Ok v"
  shows "(cp_field out, v) \<in> set (concat (map (result_writes results) calls))"
proof -
  have "(cp_field out, v) \<in> set (result_writes results call)"
    using call_writes_member [OF assms(2,4)] assms(3) by (simp add: result_writes_def)
  with assms(1) show ?thesis by auto
qed

lemma result_writes_subset:
  "fst ` set (concat (map (result_writes results) (manifest_calls tx lowered m))) \<subseteq> set (output_fields (mf_policy_rpc m))"
proof
  fix x
  assume "x \<in> fst ` set (concat (map (result_writes results) (manifest_calls tx lowered m)))"
  then obtain call where call: "call \<in> set (manifest_calls tx lowered m)" "x \<in> fst ` set (result_writes results call)" by auto
  with result_writes_fields [of results call] have "x \<in> cp_field ` set (pc_outputs call)" by blast
  with call(1) have "x \<in> set (planned_fields (manifest_calls tx lowered m))" by auto
  then show "x \<in> set (output_fields (mf_policy_rpc m))"
    using planned_fields_subset by blast
qed

text \<open>
  C29. The replay of a valid manifest succeeds and is exact when all its calls are served, all its outputs are of kind
  \<open>context\<close> (which the validation does not check) and \<open>custom\<close> is absent or an object that has none of its fields yet. It
  changes nothing of the context outside \<open>custom\<close>, nothing of \<open>custom\<close> outside the fields the manifest produces, and every output whose
  value the result of its call has (which is every output of a required call) is found under its field.
\<close>

theorem materialize_replays:
  assumes "manifest_validate m = Ok ()" and "context_manifest m" and "custom_free m obj"
    and "\<forall>call\<in>set (manifest_calls tx lowered m). call_served results call"
  shows "\<exists>obj' cm'. materialize (JObject obj) (manifest_calls tx lowered m) results = (JObject obj', Ok ()) \<and>
    custom_map obj' = Some cm' \<and>
    (\<forall>k. k \<noteq> ''custom'' \<longrightarrow> fmlookup obj' k = fmlookup obj k) \<and>
    (\<forall>field. field \<notin> set (output_fields (mf_policy_rpc m)) \<longrightarrow> fmlookup cm' field = fmlookup (the (custom_map obj)) field) \<and>
    (\<forall>call\<in>set (manifest_calls tx lowered m). \<forall>out\<in>set (pc_outputs call). \<forall>payload v.
       fmlookup results (pc_call_id call) = Some payload \<longrightarrow> project_output payload out = Ok v \<longrightarrow>
       fmlookup cm' (cp_field out) = Some v)"
proof -
  let ?calls = "manifest_calls tx lowered m"
  let ?ws = "concat (map (result_writes results) ?calls)"
  from assms(3) obtain cm where cm: "custom_map obj = Some cm"
    by (auto simp: custom_free_def split: option.splits)
  have "distinct (output_fields (mf_policy_rpc m))"
    using assms(1) manifest_validate_ok by blast
  note dist = distinct_result_writes [OF planned_fields_distinct [OF this], of results]
  define cm' where "cm' = fold (\<lambda>w. fmupd (fst w) (snd w)) ?ws cm"
  have lookup: "fmlookup cm' k = (case map_of ?ws k of Some v \<Rightarrow> Some v | None \<Rightarrow> fmlookup cm k)" for k
    unfolding cm'_def by (rule fold_fmupd_lookup [OF dist])
  have kept: "fmlookup cm' k = fmlookup (the (custom_map obj)) k" if "k \<notin> set (output_fields (mf_policy_rpc m))" for k
  proof -
    have "map_of ?ws k = None"
      using that result_writes_subset [of results tx lowered m] by (simp only: map_of_eq_None_iff) blast
    then show ?thesis by (simp add: lookup cm)
  qed
  have written: "fmlookup cm' (cp_field out) = Some v"
    if "call \<in> set ?calls" "out \<in> set (pc_outputs call)" "fmlookup results (pc_call_id call) = Some payload"
      "project_output payload out = Ok v" for call out payload v
    using map_of_is_SomeI [OF dist result_writes_served [OF that]] by (simp add: lookup)
  have "materialize (JObject obj) ?calls results = (JObject (fold add_custom ?ws obj), Ok ())"
    using materialize_manifest [OF assms(1-3), of tx lowered results] assms(4) by (simp only: if_True simp_thms)
  moreover have "custom_map (fold add_custom ?ws obj) = Some cm'"
    unfolding cm'_def by (rule custom_map_fold_eq [OF cm])
  ultimately show ?thesis
    using kept written fold_add_custom_frame by blast
qed

text \<open>A manifest with one required call for a score, a transaction, a context and the result of the call.\<close>

definition score_spec :: policy_rpc_call_spec where
  "score_spec = \<lparr>cs_id = ''score'', cs_method = ''risk.score'', cs_params = [],
     cs_outputs = [\<lparr>cp_kind = ''context'', cp_field = ''score'', cp_type_name = PtLong, cp_from = ''$.result.score'', cp_required = True\<rparr>],
     cs_optional = False\<rparr>"

definition score_manifest :: manifest_v2 where
  "score_manifest = \<lparr>mf_id = ''risk'', mf_schema_version = 2, mf_trigger = \<lparr>tg_scope = ScopeOuter, tg_where = []\<rparr>,
     mf_policy_rpc = [score_spec], mf_custom_context = [(''score'', ''Long'')]\<rparr>"

definition score_tx :: tx_view where
  "score_tx = \<lparr>tx_chain_id = ''eip155:1'', tx_from = ''0xa'', tx_to = ''0xb''\<rparr>"

definition score_context :: "(string, json) fmap" where
  "score_context = fmap_of_list [(''live'', JBool True)]"

definition score_results :: "(string, json) fmap" where
  "score_results = fmap_of_list [(''risk::score'', JObject (fmap_of_list [(''score'', JNumber (PosInt 7))]))]"

lemma score_facts:
  "manifest_validate score_manifest = Ok ()" "context_manifest score_manifest" "custom_free score_manifest score_context"
  by code_simp+

lemma score_calls: "manifest_calls tx lowered score_manifest =
    [\<lparr>pc_manifest_id = ''risk'', pc_call_id = ''risk::score'', pc_method = ''risk.score'', pc_params = empty_object,
      pc_outputs = cs_outputs score_spec, pc_optional = False\<rparr>]"
  by (simp add: score_manifest_def score_spec_def List.map_filter_simps spec_call_def policy_rpc_call_id_def)

lemma score_output:
  "project_output (JObject (fmap_of_list [(''score'', JNumber (PosInt 7))])) (hd (cs_outputs score_spec)) = Ok (JNumber (PosInt 7))"
  by code_simp

lemma score_served: "\<forall>call\<in>set (manifest_calls tx lowered score_manifest). call_served score_results call"
  unfolding score_calls using score_output
  by (simp add: call_served_def score_results_def score_spec_def is_ok_iff)

theorem materialize_replays_witness:
  "\<exists>obj' cm'. materialize (JObject score_context) (manifest_calls score_tx (JObject score_context) score_manifest) score_results =
      (JObject obj', Ok ()) \<and> custom_map obj' = Some cm' \<and>
    fmlookup obj' ''live'' = Some (JBool True) \<and> fmlookup cm' ''score'' = Some (JNumber (PosInt 7))"
proof -
  from materialize_replays [OF score_facts score_served, of score_tx "JObject score_context"] obtain obj' cm' where
    r: "materialize (JObject score_context) (manifest_calls score_tx (JObject score_context) score_manifest) score_results = (JObject obj', Ok ())"
      "custom_map obj' = Some cm'" "\<forall>k. k \<noteq> ''custom'' \<longrightarrow> fmlookup obj' k = fmlookup score_context k"
    and w: "\<forall>call\<in>set (manifest_calls score_tx (JObject score_context) score_manifest). \<forall>out\<in>set (pc_outputs call). \<forall>payload v.
       fmlookup score_results (pc_call_id call) = Some payload \<longrightarrow> project_output payload out = Ok v \<longrightarrow>
       fmlookup cm' (cp_field out) = Some v"
    by blast
  from r(3) have "fmlookup obj' ''live'' = Some (JBool True)"
    by (simp add: score_context_def)
  moreover have "fmlookup cm' ''score'' = Some (JNumber (PosInt 7))"
    using w score_output unfolding score_calls by (simp add: score_results_def score_spec_def)
  ultimately show ?thesis using r by blast
qed

end
