(* ===== verification/Policy_Verdict.thy ===== *)
theory Policy_Verdict
  imports Dambi_Prelude
begin

text \<open>
  Verdicts of the policy engine (\<open>policy-engine/src/policy/verdict.rs\<close>): the tri-state outcome and the
  deny-overrides aggregation over the verdicts of several requests or bundles.
\<close>

datatype severity = SevDeny | SevWarn

datatype policy_request_origin = OriginAction | OriginTx

record matched_policy =
  mp_policy_id :: string
  mp_reason :: "string option"
  mp_severity :: severity
  mp_origin :: policy_request_origin

datatype verdict = Pass | Warn "matched_policy list" | Fail "matched_policy list"

definition is_failure :: "verdict \<Rightarrow> bool" where
  "is_failure v = (case v of Fail _ \<Rightarrow> True | _ \<Rightarrow> False)"

definition matched :: "verdict \<Rightarrow> matched_policy list" where
  "matched v = (case v of Pass \<Rightarrow> [] | Warn ms \<Rightarrow> ms | Fail ms \<Rightarrow> ms)"

definition has_warnings :: "verdict \<Rightarrow> bool" where
  "has_warnings v = list_ex (\<lambda>m. mp_severity m = SevWarn) (matched v)"

text \<open>The loop of \<open>aggregate\<close>: the collected matches and the two flags.\<close>

fun aggregate_loop :: "matched_policy list \<Rightarrow> bool \<Rightarrow> bool \<Rightarrow> verdict list \<Rightarrow> verdict" where
  "aggregate_loop ms any_deny any_warn [] = (if any_deny then Fail ms else if any_warn then Warn ms else Pass)"
| "aggregate_loop ms any_deny any_warn (Pass # vs) = aggregate_loop ms any_deny any_warn vs"
| "aggregate_loop ms any_deny any_warn (Warn v # vs) = aggregate_loop (ms @ v) any_deny True vs"
| "aggregate_loop ms any_deny any_warn (Fail v # vs) =
     aggregate_loop (ms @ v) True (any_warn \<or> list_ex (\<lambda>m. mp_severity m = SevWarn) v) vs"

definition aggregate :: "verdict list \<Rightarrow> verdict" where
  "aggregate vs = aggregate_loop [] False False vs"

section \<open>Deny overrides\<close>

lemma is_failure_simps [simp]: "\<not> is_failure Pass" "\<not> is_failure (Warn ms)" "is_failure (Fail ms)"
  by (simp_all add: is_failure_def)

lemma matched_simps [simp]: "matched Pass = []" "matched (Warn ms) = ms" "matched (Fail ms) = ms"
  by (simp_all add: matched_def)

lemma is_failure_iff: "is_failure v \<longleftrightarrow> (\<exists>ms. v = Fail ms)"
  by (cases v) auto

lemma aggregate_loop_eq:
  "aggregate_loop ms d w vs =
     (if d \<or> list_ex is_failure vs then Fail (ms @ concat (map matched vs))
      else if w \<or> list_ex (\<lambda>v. v \<noteq> Pass) vs then Warn (ms @ concat (map matched vs)) else Pass)"
  by (induction ms d w vs rule: aggregate_loop.induct) auto

lemma aggregate_eq:
  "aggregate vs =
     (if list_ex is_failure vs then Fail (concat (map matched vs))
      else if list_ex (\<lambda>v. v \<noteq> Pass) vs then Warn (concat (map matched vs)) else Pass)"
  by (simp add: aggregate_def aggregate_loop_eq)

lemma aggregate_single [simp]: "aggregate [v] = v"
  by (cases v) (simp_all add: aggregate_eq)

lemma aggregate_Nil [simp]: "aggregate [] = Pass"
  by (simp add: aggregate_def)

lemma is_failure_aggregate: "is_failure (aggregate vs) \<longleftrightarrow> (\<exists>v\<in>set vs. is_failure v)"
  by (simp add: aggregate_eq list_ex_iff)

lemma aggregate_Pass_iff: "aggregate vs = Pass \<longleftrightarrow> (\<forall>v\<in>set vs. v = Pass)"
  by (auto simp: aggregate_eq list_ex_iff)

lemma aggregate_skip_Pass: "aggregate (filter (\<lambda>v. v \<noteq> Pass) vs) = aggregate vs"
proof -
  have "concat (map matched (filter (\<lambda>v. v \<noteq> Pass) vs)) = concat (map matched vs)"
    by (induction vs) auto
  then show ?thesis
    by (auto simp: aggregate_eq list_ex_iff)
qed

lemma matched_aggregate: "matched (aggregate vs) = concat (map matched vs)"
proof (cases "list_ex (\<lambda>v. v \<noteq> Pass) vs")
  case True
  then show ?thesis by (simp add: aggregate_eq)
next
  case False
  then have "concat (map matched vs) = []" "\<not> list_ex is_failure vs"
    by (auto simp: list_ex_iff)
  with False show ?thesis by (simp add: aggregate_eq)
qed

lemma aggregate_concat: "aggregate (map aggregate vss) = aggregate (concat vss)"
proof -
  have "concat (map matched (map aggregate vss)) = concat (map matched (concat vss))"
    by (induction vss) (simp_all add: matched_aggregate)
  moreover have "list_ex is_failure (map aggregate vss) \<longleftrightarrow> list_ex is_failure (concat vss)"
    by (auto simp: list_ex_iff is_failure_aggregate)
  moreover have "list_ex (\<lambda>v. v \<noteq> Pass) (map aggregate vss) \<longleftrightarrow> list_ex (\<lambda>v. v \<noteq> Pass) (concat vss)"
    by (auto simp: list_ex_iff aggregate_Pass_iff)
  ultimately show ?thesis
    unfolding aggregate_eq [of "map aggregate vss"] aggregate_eq [of "concat vss"] by simp
qed

text \<open>
  Aggregation is deny-overrides and loses no match. Aggregating the verdicts of several groups is
  the same as aggregating all verdicts at once; the result fails exactly when some verdict
  fails, passes exactly when all pass, and carries the matches of every verdict in order.
\<close>

lemma aggregate_deny_overrides:
  "aggregate (map aggregate vss) = aggregate (concat vss) \<and>
   (is_failure (aggregate vs) \<longleftrightarrow> list_ex is_failure vs) \<and>
   (aggregate vs = Pass \<longleftrightarrow> list_all (\<lambda>v. v = Pass) vs) \<and>
   matched (aggregate vs) = concat (map matched vs)"
  by (simp add: aggregate_concat matched_aggregate is_failure_aggregate aggregate_Pass_iff list_ex_iff list_all_iff)

end
