(* ===== verification/Policy_Engine.thy ===== *)
theory Policy_Engine
  imports Policy_Verdict Asset_Types
begin

text \<open>
  The compiled policy engine (\<open>policy-engine/src/policy/engine.rs\<close>). Cedar itself is a third-party
  library: its parsers, validator and authorizer are the fields of the parameter record \<open>cedar\<close>,
  with an opaque type for each of its objects. The set of determining policies that an authorization
  reports is given as the list in which the engine iterates over it.
\<close>

section \<open>Cedar\<close>

datatype cedar_decision = CedarAllow | CedarDeny

record cedar_response =
  cr_decision :: cedar_decision
  cr_reason :: "string list"
  cr_errors :: "string list"

text \<open>
  Type parameters: policies \<open>'p\<close>, policy sets \<open>'ps\<close>, schemas \<open>'s\<close>, entity uids \<open>'u\<close>, entity slices \<open>'e\<close>,
  contexts \<open>'c\<close> and requests \<open>'r\<close>. Errors are the strings Cedar's errors print as.
\<close>

record ('p, 'ps, 's, 'u, 'e, 'c, 'r) cedar =
  cd_schema_from_str :: "string \<Rightarrow> string + 's"
  cd_policy_set_from_str :: "string \<Rightarrow> string + 'ps"
  cd_policies :: "'ps \<Rightarrow> 'p list"
  cd_policy_set_new :: 'ps
  cd_policy_set_add :: "'ps \<Rightarrow> 'p \<Rightarrow> string + 'ps"
  cd_policy_id :: "'p \<Rightarrow> string"
  cd_policy_new_id :: "'p \<Rightarrow> string \<Rightarrow> 'p"
  cd_annotation :: "'p \<Rightarrow> string \<Rightarrow> string option"
  cd_validate :: "'ps \<Rightarrow> 's \<Rightarrow> bool \<times> string list"
  cd_uid_parse :: "string \<Rightarrow> string + 'u"
  cd_entities :: "json \<Rightarrow> 's option \<Rightarrow> string + 'e"
  cd_context :: "json \<Rightarrow> ('s \<times> 'u) option \<Rightarrow> string + 'c"
  cd_request :: "'u \<Rightarrow> 'u \<Rightarrow> 'u \<Rightarrow> 'c \<Rightarrow> 's option \<Rightarrow> string + 'r"
  cd_is_authorized :: "'r \<Rightarrow> 'ps \<Rightarrow> 'e \<Rightarrow> cedar_response"

section \<open>Engine\<close>

datatype policy_error =
    PolicyParse string
  | PolicySchema string
  | PolicyValidation string
  | PolicyRequestErr string
  | PolicyContext string
  | PolicyEntities string
  | PolicyEntityUid string
  | PolicyLowering string

definition BASELINE_PERMIT :: string where
  "BASELINE_PERMIT = ''@id('' @ [CHR 0x22] @ ''engine/baseline-allow'' @ [CHR 0x22] @ '')'' @ [CHR 0x0A] @
     ''permit(principal, action, resource);'' @ [CHR 0x0A]"

definition BASELINE_ID :: string where
  "BASELINE_ID = ''engine/baseline-allow''"

definition SCHEMALESS_EVAL_ERROR_ID :: string where
  "SCHEMALESS_EVAL_ERROR_ID = ''__schemaless_eval_error__''"

record ('ps, 's) policy_engine =
  pe_policy_set :: 'ps
  pe_schema :: "'s option"
  pe_severities :: "string \<rightharpoonup> severity"
  pe_reasons :: "string \<rightharpoonup> string"

record policy_request =
  pr_principal :: string
  pr_action :: string
  pr_resource :: string
  pr_entities :: json
  pr_context :: json

text \<open>\<open>{:?}\<close> of a string of printable characters.\<close>

definition debug_str :: "string \<Rightarrow> string" where
  "debug_str s = [CHR 0x22] @
     concat (map (\<lambda>c. if c = CHR 0x22 \<or> c = CHR 0x5C then [CHR 0x5C, c] else [c]) s) @ [CHR 0x22]"

fun policy_error_text :: "policy_error \<Rightarrow> string" where
  "policy_error_text (PolicyParse m) = ''failed to parse Cedar policy: '' @ m"
| "policy_error_text (PolicySchema m) = ''failed to parse Cedar schema: '' @ m"
| "policy_error_text (PolicyValidation m) = ''failed to validate Cedar policy set against schema: '' @ m"
| "policy_error_text (PolicyRequestErr m) = ''failed to build Cedar request: '' @ m"
| "policy_error_text (PolicyContext m) = ''failed to build Cedar context: '' @ m"
| "policy_error_text (PolicyEntities m) = ''failed to build Cedar entities: '' @ m"
| "policy_error_text (PolicyEntityUid m) = ''invalid entity uid: '' @ m"
| "policy_error_text (PolicyLowering m) = ''lowering failed: '' @ m"

fun join_messages :: "string list \<Rightarrow> string" where
  "join_messages [] = []"
| "join_messages [m] = m"
| "join_messages (m # ms) = m @ ''; '' @ join_messages ms"

definition validation_errors_message :: "string list \<Rightarrow> string" where
  "validation_errors_message ms = (if ms = [] then ''unknown validation error'' else join_messages ms)"

definition validate_policy_set :: "('p, 'ps, 's, 'u, 'e, 'c, 'r) cedar \<Rightarrow> 'ps \<Rightarrow> 's \<Rightarrow> policy_error + unit" where
  "validate_policy_set cd ps schema =
     (case cd_validate cd ps schema of (passed, ms) \<Rightarrow>
        if passed then Ok () else Err (PolicyValidation (validation_errors_message ms)))"

type_synonym 'ps ingest_state = "'ps \<times> (string \<rightharpoonup> severity) \<times> (string \<rightharpoonup> string)"

text \<open>Parsing an id cannot fail and a policy id prints as the text it was parsed from.\<close>

definition ingest_policy ::
  "('p, 'ps, 's, 'u, 'e, 'c, 'r) cedar \<Rightarrow> 'ps ingest_state \<Rightarrow> 'p \<Rightarrow> policy_error + 'ps ingest_state" where
  "ingest_policy cd st p =
     (case st of (ps, sevs, reasons) \<Rightarrow>
       let user_id = (case cd_annotation cd p ''id'' of Some i \<Rightarrow> i | None \<Rightarrow> cd_policy_id cd p) in
       bind_result
         (case cd_annotation cd p ''severity'' of
            None \<Rightarrow> Ok sevs
          | Some sev \<Rightarrow>
              if sev = ''deny'' then Ok (sevs(user_id \<mapsto> SevDeny))
              else if sev = ''warn'' then Ok (sevs(user_id \<mapsto> SevWarn))
              else Err (PolicyParse (''policy '' @ user_id @ '': unknown @severity('' @ debug_str sev @ ''); expected '' @
                debug_str ''deny'' @ '' or '' @ debug_str ''warn'')))
         (\<lambda>sevs'.
           let reasons' = (case cd_annotation cd p ''reason'' of None \<Rightarrow> reasons | Some r \<Rightarrow> reasons(user_id \<mapsto> r)) in
           bind_result (map_err PolicyParse (cd_policy_set_add cd ps (cd_policy_new_id cd p user_id))) (\<lambda>ps'.
             Ok (ps', sevs', reasons'))))"

definition ingest_all ::
  "('p, 'ps, 's, 'u, 'e, 'c, 'r) cedar \<Rightarrow> string \<Rightarrow> policy_error + 'ps ingest_state" where
  "ingest_all cd text =
     bind_result (map_err PolicyParse (cd_policy_set_from_str cd text)) (\<lambda>initial.
       try_fold (ingest_policy cd) (cd_policy_set_new cd, Map.empty, Map.empty) (cd_policies cd initial))"

definition build_from ::
  "('p, 'ps, 's, 'u, 'e, 'c, 'r) cedar \<Rightarrow> string \<Rightarrow> 's \<Rightarrow> policy_error + ('ps, 's) policy_engine" where
  "build_from cd text_combined schema =
     bind_result (ingest_all cd text_combined) (\<lambda>(ps, sevs, reasons).
     bind_result (validate_policy_set cd ps schema) (\<lambda>_.
       Ok \<lparr>pe_policy_set = ps, pe_schema = Some schema, pe_severities = sevs, pe_reasons = reasons\<rparr>))"

definition check_bundle :: "('p, 'ps, 's, 'u, 'e, 'c, 'r) cedar \<Rightarrow> nat \<Rightarrow> string \<times> string \<Rightarrow> policy_error + nat" where
  "check_bundle cd index bundle =
     (case bundle of (policy_text, schema_text) \<Rightarrow>
       let tag = ''bundle #'' @ dec_string index @ '': '' in
       bind_result (map_err (\<lambda>e. PolicySchema (tag @ e)) (cd_schema_from_str cd schema_text)) (\<lambda>schema.
       bind_result (map_err (\<lambda>e. PolicyParse (tag @ e)) (cd_policy_set_from_str cd policy_text)) (\<lambda>pset.
       bind_result (validate_policy_set cd pset schema) (\<lambda>_. Ok (Suc index)))))"

definition build_from_per_policy ::
  "('p, 'ps, 's, 'u, 'e, 'c, 'r) cedar \<Rightarrow> (string \<times> string) list \<Rightarrow> policy_error + ('ps, 's) policy_engine" where
  "build_from_per_policy cd bundles =
     bind_result (try_fold (check_bundle cd) 0 bundles) (\<lambda>_.
     bind_result (ingest_all cd (BASELINE_PERMIT @ concat (map (\<lambda>(policy_text, _). policy_text @ [CHR 0x0A]) bundles)))
       (\<lambda>(ps, sevs, reasons).
         Ok \<lparr>pe_policy_set = ps, pe_schema = None, pe_severities = sevs, pe_reasons = reasons\<rparr>))"

section \<open>Evaluation\<close>

text \<open>The verdict chosen from a Cedar response.\<close>

definition matched_of :: "('ps, 's) policy_engine \<Rightarrow> string list \<Rightarrow> matched_policy list" where
  "matched_of eng determining =
     List.map_filter (\<lambda>pid.
       if pid = BASELINE_ID then None
       else case pe_severities eng pid of
         None \<Rightarrow> None
       | Some sev \<Rightarrow> Some \<lparr>mp_policy_id = pid, mp_reason = pe_reasons eng pid, mp_severity = sev, mp_origin = OriginAction\<rparr>)
       determining"

definition verdict_of :: "('ps, 's) policy_engine \<Rightarrow> cedar_response \<Rightarrow> verdict" where
  "verdict_of eng resp =
     (if pe_schema eng = None \<and> cr_errors resp \<noteq> [] then
        Fail [\<lparr>mp_policy_id = SCHEMALESS_EVAL_ERROR_ID,
               mp_reason = Some (''schema-less evaluation error: '' @ hd (cr_errors resp)),
               mp_severity = SevDeny, mp_origin = OriginAction\<rparr>]
      else
        let ms = matched_of eng (cr_reason resp); any_deny = list_ex (\<lambda>m. mp_severity m = SevDeny) ms in
        case cr_decision resp of
          CedarAllow \<Rightarrow> Pass
        | CedarDeny \<Rightarrow> if any_deny then Fail ms else if ms \<noteq> [] then Warn ms else Fail [])"

definition evaluate ::
  "('p, 'ps, 's, 'u, 'e, 'c, 'r) cedar \<Rightarrow> ('ps, 's) policy_engine \<Rightarrow> string \<Rightarrow> string \<Rightarrow> string \<Rightarrow> json \<Rightarrow> json \<Rightarrow>
     policy_error + verdict" where
  "evaluate cd eng principal_uid action_uid resource_uid entities_json context_json =
     bind_result (map_err PolicyEntityUid (cd_uid_parse cd principal_uid)) (\<lambda>p.
     bind_result (map_err PolicyEntityUid (cd_uid_parse cd action_uid)) (\<lambda>a.
     bind_result (map_err PolicyEntityUid (cd_uid_parse cd resource_uid)) (\<lambda>r.
     bind_result (map_err PolicyEntities (cd_entities cd entities_json (pe_schema eng))) (\<lambda>entities.
     bind_result (map_err PolicyContext (cd_context cd context_json (map_option (\<lambda>s. (s, a)) (pe_schema eng)))) (\<lambda>ctx.
     bind_result (map_err PolicyRequestErr (cd_request cd p a r ctx (pe_schema eng))) (\<lambda>request.
       Ok (verdict_of eng (cd_is_authorized cd request (pe_policy_set eng) entities))))))))"

definition set_origin :: "policy_request_origin \<Rightarrow> verdict \<Rightarrow> verdict" where
  "set_origin origin v =
     (case v of
        Pass \<Rightarrow> Pass
      | Warn ms \<Rightarrow> Warn (map (\<lambda>m. m\<lparr>mp_origin := origin\<rparr>) ms)
      | Fail ms \<Rightarrow> Fail (map (\<lambda>m. m\<lparr>mp_origin := origin\<rparr>) ms))"

definition evaluate_request_with_origin ::
  "('p, 'ps, 's, 'u, 'e, 'c, 'r) cedar \<Rightarrow> ('ps, 's) policy_engine \<Rightarrow> policy_request \<Rightarrow> policy_request_origin \<Rightarrow>
     policy_error + verdict" where
  "evaluate_request_with_origin cd eng req origin =
     bind_result (evaluate cd eng (pr_principal req) (pr_action req) (pr_resource req) (pr_entities req) (pr_context req))
       (\<lambda>v. Ok (set_origin origin v))"

definition evaluate_request ::
  "('p, 'ps, 's, 'u, 'e, 'c, 'r) cedar \<Rightarrow> ('ps, 's) policy_engine \<Rightarrow> policy_request \<Rightarrow> policy_error + verdict" where
  "evaluate_request cd eng req = evaluate_request_with_origin cd eng req OriginAction"

definition evaluate_requests ::
  "('p, 'ps, 's, 'u, 'e, 'c, 'r) cedar \<Rightarrow> ('ps, 's) policy_engine \<Rightarrow> (policy_request \<times> policy_request_origin) list \<Rightarrow>
     policy_error + verdict" where
  "evaluate_requests cd eng reqs =
     bind_result (try_map (\<lambda>(req, origin). evaluate_request_with_origin cd eng req origin) reqs) (\<lambda>vs. Ok (aggregate vs))"

section \<open>When the engine passes a request\<close>

lemma verdict_of_Pass: "verdict_of eng resp = Pass \<longleftrightarrow>
    cr_decision resp = CedarAllow \<and> (pe_schema eng = None \<longrightarrow> cr_errors resp = [])"
  by (auto simp: verdict_of_def Let_def split: cedar_decision.splits)

text \<open>The matches of a verdict are the determining policies with a severity, the baseline apart.\<close>

lemma matched_of_simps [simp]:
  "matched_of eng [] = []"
  "matched_of eng (pid # ids) =
     (if pid = BASELINE_ID then []
      else case pe_severities eng pid of
        None \<Rightarrow> []
      | Some sev \<Rightarrow> [\<lparr>mp_policy_id = pid, mp_reason = pe_reasons eng pid, mp_severity = sev, mp_origin = OriginAction\<rparr>]) @
     matched_of eng ids"
  by (simp_all add: matched_of_def List.map_filter_simps split: option.split)

lemma matched_of_deny:
  "list_ex (\<lambda>m. mp_severity m = SevDeny) (matched_of eng ids) \<longleftrightarrow>
     list_ex (\<lambda>pid. pid \<noteq> BASELINE_ID \<and> pe_severities eng pid = Some SevDeny) ids"
  by (induction ids) (auto split: option.split)

lemma matched_of_Nil:
  "matched_of eng ids = [] \<longleftrightarrow> list_all (\<lambda>pid. pid = BASELINE_ID \<or> pe_severities eng pid = None) ids"
  by (induction ids) (auto split: option.split)

text \<open>
  The verdict of one request, branch by branch. On the per-policy path an evaluation error of
  any policy fails the request. Otherwise Cedar's allow is a pass; on Cedar's deny the request fails when some
  determining policy has deny severity or when none carries a severity at all, and warns exactly when
  warnings are all there is.
\<close>

lemma verdict_of_spec:
  "(is_failure (verdict_of eng resp) \<longleftrightarrow>
      pe_schema eng = None \<and> cr_errors resp \<noteq> [] \<or>
      cr_decision resp = CedarDeny \<and>
        (list_ex (\<lambda>pid. pid \<noteq> BASELINE_ID \<and> pe_severities eng pid = Some SevDeny) (cr_reason resp) \<or>
         list_all (\<lambda>pid. pid = BASELINE_ID \<or> pe_severities eng pid = None) (cr_reason resp))) \<and>
   (verdict_of eng resp = Pass \<longleftrightarrow>
      cr_decision resp = CedarAllow \<and> \<not> (pe_schema eng = None \<and> cr_errors resp \<noteq> []))"
  unfolding verdict_of_def Let_def matched_of_deny matched_of_Nil [symmetric]
  by (cases "cr_decision resp") auto

end
