(* ===== verification/Policy_Runtime.thy ===== *)
theory Policy_Runtime
  imports Policy_Rpc Policy_Engine
begin

text \<open>
  The evaluation pipeline of an action (\<open>dambi-core/src/runtime\<close>): lower the action, plan the enrichment
  calls of the matching manifests, and for every matching bundle replay the results, build its
  engine and evaluate; the verdicts are aggregated. The lowering of the domains and the schema composition are
  parameters (\<open>runtime_env\<close>), as are the action tags and venues of the domains and Cedar.
\<close>

section \<open>Inputs\<close>

record engine_error =
  ge_kind :: string
  ge_message :: string

definition ascii_lower :: "char \<Rightarrow> char" where
  "ascii_lower c = (let n = of_char c :: nat in if 65 \<le> n \<and> n \<le> 90 then char_of (n + 32) else c)"

definition to_ascii_lowercase :: "string \<Rightarrow> string" where
  "to_ascii_lowercase s = map ascii_lower s"

record tx_input =
  ti_chain_id :: string
  ti_from :: string
  ti_to :: string

definition tx_input_new :: "string \<Rightarrow> string \<Rightarrow> string \<Rightarrow> tx_input" where
  "tx_input_new chain_id from_addr to_addr =
     \<lparr>ti_chain_id = chain_id, ti_from = to_ascii_lowercase from_addr, ti_to = to_ascii_lowercase to_addr\<rparr>"

record bundle_input =
  bu_policy :: string
  bu_manifest :: manifest_v2

record lowered_action =
  la_principal :: string
  la_action_uid :: string
  la_resource :: string
  la_context :: json

text \<open>\<open>'h\<close> is the host-injected state of the lowering (token decimals, leverage, order enrichment).\<close>

record ('d, 'h) evaluate_input =
  ei_action :: "'d action_body"
  ei_meta :: action_meta
  ei_tx :: tx_input
  ei_bundles :: "bundle_input list"
  ei_results :: "(string, json) fmap"
  ei_host :: 'h

record ('d, 'h) plan_input =
  pi_manifests :: "manifest_v2 list"
  pi_action :: "'d action_body"
  pi_meta :: action_meta
  pi_tx :: tx_input
  pi_host :: 'h

record ('d, 'h) runtime_env =
  re_tag :: "'d \<Rightarrow> string"
  re_venue :: "'d \<Rightarrow> string option"
  re_lower :: "'d action_body \<Rightarrow> action_meta \<Rightarrow> string \<Rightarrow> string \<Rightarrow> 'h \<Rightarrow> string + lowered_action"
  re_compose :: "manifest_v2 \<Rightarrow> string + string"

section \<open>Helpers\<close>

definition check_manifest_count :: "nat \<Rightarrow> string \<Rightarrow> engine_error + unit" where
  "check_manifest_count count entry =
     (if count > MAX_POLICY_RPC_V2_MANIFESTS
      then Err \<lparr>ge_kind = ''input_too_large'', ge_message = entry @ '' manifest/bundle count '' @ dec_string count @
        '' exceeds '' @ dec_string MAX_POLICY_RPC_V2_MANIFESTS @ '' item limit''\<rparr>
      else Ok ())"

definition tx_view_of :: "tx_input \<Rightarrow> tx_view" where
  "tx_view_of tx = \<lparr>tx_chain_id = ti_chain_id tx, tx_from = ti_from tx, tx_to = ti_to tx\<rparr>"

abbreviation body_view :: "('d, 'h) runtime_env \<Rightarrow> 'd action_body \<Rightarrow> action_view" where
  "body_view env body \<equiv> view (re_tag env) (re_venue env) body"

definition lower_input ::
  "('d, 'h) runtime_env \<Rightarrow> 'd action_body \<Rightarrow> action_meta \<Rightarrow> tx_input \<Rightarrow> 'h \<Rightarrow> engine_error + lowered_action" where
  "lower_input env body meta tx host =
     map_err (\<lambda>m. \<lparr>ge_kind = ''unsupported_action'', ge_message = m\<rparr>) (re_lower env body meta (ti_from tx) (ti_to tx) host)"

definition plan ::
  "('d, 'h) runtime_env \<Rightarrow> manifest_v2 list \<Rightarrow> 'd action_body \<Rightarrow> lowered_action \<Rightarrow> tx_input \<Rightarrow> engine_error + planned_call list" where
  "plan env manifests body lowered tx =
     map_err (\<lambda>e. \<lparr>ge_kind = ''plan_failed'', ge_message = rpc_error_text e\<rparr>)
       (plan_policy_rpc manifests (body_view env body) (la_context lowered) (tx_view_of tx))"

text \<open>The scope and trigger gate, with the views of the body and the transaction.\<close>

abbreviation manifest_applies :: "('d, 'h) runtime_env \<Rightarrow> 'd action_body \<Rightarrow> tx_input \<Rightarrow> manifest_v2 \<Rightarrow> bool" where
  "manifest_applies env body tx m \<equiv> manifest_matches m (body_view env body) (tx_view_of tx)"

fun matching_valid_loop ::
  "('d, 'h) runtime_env \<Rightarrow> 'd action_body \<Rightarrow> tx_input \<Rightarrow> string list \<Rightarrow> manifest_v2 list \<Rightarrow> engine_error + manifest_v2 list" where
  "matching_valid_loop env body tx seen [] = Ok []"
| "matching_valid_loop env body tx seen (m # ms) =
     (if \<not> manifest_applies env body tx m \<or> \<not> is_ok (manifest_validate m) then matching_valid_loop env body tx seen ms
      else if mf_id m \<in> set seen
      then Err \<lparr>ge_kind = ''duplicate_manifest_id'', ge_message = ''matching policy-rpc manifest id `'' @ mf_id m @
        ''` appears more than once''\<rparr>
      else bind_result (matching_valid_loop env body tx (mf_id m # seen) ms) (\<lambda>out. Ok (m # out)))"

definition matching_valid_manifests ::
  "('d, 'h) runtime_env \<Rightarrow> manifest_v2 list \<Rightarrow> 'd action_body \<Rightarrow> tx_input \<Rightarrow> engine_error + manifest_v2 list" where
  "matching_valid_manifests env ms body tx = matching_valid_loop env body tx [] ms"

definition SYSTEM_POLICY_ID :: string where
  "SYSTEM_POLICY_ID = ''__system__''"

definition system_fail_verdict :: "policy_rpc_error \<Rightarrow> verdict option" where
  "system_fail_verdict e =
     (case e of
        SystemFail c _ \<Rightarrow>
          Some (Fail [\<lparr>mp_policy_id = SYSTEM_POLICY_ID, mp_reason = Some (''rpc-unavailable: '' @ c),
            mp_severity = SevDeny, mp_origin = OriginAction\<rparr>])
      | _ \<Rightarrow> None)"

definition entity_json :: "string \<Rightarrow> string \<Rightarrow> (string \<times> json) list \<Rightarrow> json" where
  "entity_json ty ident attrs = JObject (fmap_of_list
     [(''uid'', JObject (fmap_of_list [(''type'', JString ty), (''id'', JString ident)])),
      (''attrs'', JObject (fmap_of_list attrs)), (''parents'', JArray [])])"

definition entities_for_tx :: "tx_input \<Rightarrow> json" where
  "entities_for_tx tx = JArray
     [entity_json ''Wallet'' (ti_from tx) [(''address'', JString (ti_from tx))], entity_json ''Protocol'' (ti_to tx) []]"

definition quarantine_verdict :: "engine_error \<Rightarrow> verdict" where
  "quarantine_verdict e =
     (let pid = ''__engine::quarantine::'' @ ge_kind e in
      Warn [\<lparr>mp_policy_id = pid, mp_reason = Some (if ge_message e = [] then pid else ge_message e),
        mp_severity = SevWarn, mp_origin = OriginAction\<rparr>])"

section \<open>Evaluation\<close>

text \<open>The closure evaluated for each bundle: \<open>None\<close> when the bundle does not apply.\<close>

definition evaluate_bundle ::
  "('d, 'h) runtime_env \<Rightarrow> ('p, 'ps, 's, 'u, 'e, 'c, 'r) cedar \<Rightarrow> 'd action_body \<Rightarrow> tx_input \<Rightarrow> lowered_action \<Rightarrow>
     planned_call list \<Rightarrow> (string, json) fmap \<Rightarrow> bundle_input \<Rightarrow> engine_error + verdict option" where
  "evaluate_bundle env cd body tx lowered planned results bundle =
     (let m = bu_manifest bundle in
      if \<not> manifest_applies env body tx m then Ok None
      else bind_result (map_err (\<lambda>e. \<lparr>ge_kind = ''invalid_manifest'', ge_message = rpc_error_text e\<rparr>) (manifest_validate m)) (\<lambda>_.
        case materialize (la_context lowered) (filter (\<lambda>call. pc_manifest_id call = mf_id m) planned) results of
          (_, Err e) \<Rightarrow>
            (case system_fail_verdict e of
               Some v \<Rightarrow> Ok (Some v)
             | None \<Rightarrow> Err \<lparr>ge_kind = ''projection_failed'', ge_message = rpc_error_text e\<rparr>)
        | (context, Ok _) \<Rightarrow>
            bind_result (map_err (\<lambda>e. \<lparr>ge_kind = ''schema_failed'', ge_message = e\<rparr>) (re_compose env m)) (\<lambda>schema.
            bind_result (map_err (\<lambda>e. \<lparr>ge_kind = ''install_failed'', ge_message = policy_error_text e\<rparr>)
              (build_from_per_policy cd [(bu_policy bundle, schema)])) (\<lambda>engine.
            bind_result (map_err (\<lambda>e. \<lparr>ge_kind = ''policy'', ge_message = policy_error_text e\<rparr>)
              (evaluate cd engine (la_principal lowered) (la_action_uid lowered) (la_resource lowered) (entities_for_tx tx) context))
              (\<lambda>v. Ok (Some v))))))"

definition outcome_verdicts :: "engine_error + verdict option \<Rightarrow> verdict list" where
  "outcome_verdicts r = (case r of Ok (Some v) \<Rightarrow> [v] | Ok None \<Rightarrow> [] | Err e \<Rightarrow> [quarantine_verdict e])"

definition evaluate_matching_bundles ::
  "('d, 'h) runtime_env \<Rightarrow> ('p, 'ps, 's, 'u, 'e, 'c, 'r) cedar \<Rightarrow> bundle_input list \<Rightarrow> 'd action_body \<Rightarrow> tx_input \<Rightarrow>
     lowered_action \<Rightarrow> planned_call list \<Rightarrow> (string, json) fmap \<Rightarrow> engine_error + verdict" where
  "evaluate_matching_bundles env cd bundles body tx lowered planned results =
     Ok (aggregate (concat (map (\<lambda>b. outcome_verdicts (evaluate_bundle env cd body tx lowered planned results b)) bundles)))"

definition evaluate_action ::
  "('d, 'h) runtime_env \<Rightarrow> ('p, 'ps, 's, 'u, 'e, 'c, 'r) cedar \<Rightarrow> ('d, 'h) evaluate_input \<Rightarrow> engine_error + verdict" where
  "evaluate_action env cd inp =
     bind_result (check_manifest_count (length (ei_bundles inp)) ''evaluate_action_v2_json'') (\<lambda>_.
     bind_result (lower_input env (ei_action inp) (ei_meta inp) (ei_tx inp) (ei_host inp)) (\<lambda>lowered.
     bind_result (matching_valid_manifests env (map bu_manifest (ei_bundles inp)) (ei_action inp) (ei_tx inp)) (\<lambda>manifests.
     bind_result (plan env manifests (ei_action inp) lowered (ei_tx inp)) (\<lambda>planned.
       evaluate_matching_bundles env cd (ei_bundles inp) (ei_action inp) (ei_tx inp) lowered planned (ei_results inp)))))"

text \<open>A planned call as the host receives it; its projection rules are serialized.\<close>

record planned_call_dto =
  pd_manifest_id :: string
  pd_call_id :: string
  pd_method :: string
  pd_params :: json
  pd_outputs :: "json list"
  pd_optional :: bool

fun projection_type_name :: "projection_type \<Rightarrow> string" where
  "projection_type_name PtString = ''String''"
| "projection_type_name PtLong = ''Long''"
| "projection_type_name PtBool = ''Bool''"
| "projection_type_name PtDecimal = ''Decimal''"
| "projection_type_name PtUsdValuation = ''UsdValuation''"
| "projection_type_name PtWindowStats = ''WindowStats''"
| "projection_type_name PtSetString = ''Set<String>''"

definition projection_json :: "context_projection \<Rightarrow> json" where
  "projection_json out = JObject (fmap_of_list
     [(''kind'', JString (cp_kind out)), (''field'', JString (cp_field out)),
      (''type'', JString (projection_type_name (cp_type_name out))), (''from'', JString (cp_from out)),
      (''required'', JBool (cp_required out))])"

definition planned_to_dto :: "planned_call \<Rightarrow> planned_call_dto" where
  "planned_to_dto call =
     \<lparr>pd_manifest_id = pc_manifest_id call, pd_call_id = pc_call_id call, pd_method = pc_method call,
      pd_params = pc_params call, pd_outputs = map projection_json (pc_outputs call), pd_optional = pc_optional call\<rparr>"

definition plan_action :: "('d, 'h) runtime_env \<Rightarrow> ('d, 'h) plan_input \<Rightarrow> engine_error + planned_call_dto list" where
  "plan_action env inp =
     bind_result (check_manifest_count (length (pi_manifests inp)) ''plan_action_rpc_v2_json'') (\<lambda>_.
     bind_result (lower_input env (pi_action inp) (pi_meta inp) (pi_tx inp) (pi_host inp)) (\<lambda>lowered.
     bind_result (matching_valid_manifests env (pi_manifests inp) (pi_action inp) (pi_tx inp)) (\<lambda>manifests.
     bind_result (plan env manifests (pi_action inp) lowered (pi_tx inp)) (\<lambda>planned.
       Ok (map planned_to_dto planned)))))"

definition materialized_context :: "('d, 'h) runtime_env \<Rightarrow> ('d, 'h) evaluate_input \<Rightarrow> engine_error + lowered_action \<times> json" where
  "materialized_context env inp =
     bind_result (lower_input env (ei_action inp) (ei_meta inp) (ei_tx inp) (ei_host inp)) (\<lambda>lowered.
     bind_result (matching_valid_manifests env (map bu_manifest (ei_bundles inp)) (ei_action inp) (ei_tx inp)) (\<lambda>manifests.
     bind_result (plan env manifests (ei_action inp) lowered (ei_tx inp)) (\<lambda>planned.
       case materialize (la_context lowered) planned (ei_results inp) of
         (_, Err e) \<Rightarrow>
           Err \<lparr>ge_kind = (if system_fail_verdict e \<noteq> None then ''system_fail'' else ''projection_failed''), ge_message = rpc_error_text e\<rparr>
       | (context, Ok _) \<Rightarrow> Ok (lowered, context))))"

definition debug_lowered_context :: "('d, 'h) runtime_env \<Rightarrow> ('d, 'h) evaluate_input \<Rightarrow> engine_error + json" where
  "debug_lowered_context env inp =
     bind_result (check_manifest_count (length (ei_bundles inp)) ''debug_lowered_context_v2_json'') (\<lambda>_.
     bind_result (lower_input env (ei_action inp) (ei_meta inp) (ei_tx inp) (ei_host inp)) (\<lambda>lowered.
     bind_result (matching_valid_manifests env (map bu_manifest (ei_bundles inp)) (ei_action inp) (ei_tx inp)) (\<lambda>manifests.
       let context = (case plan env manifests (ei_action inp) lowered (ei_tx inp) of
           Ok planned \<Rightarrow> fst (materialize (la_context lowered) planned (ei_results inp))
         | Err _ \<Rightarrow> la_context lowered)
       in Ok (JObject (fmap_of_list
         [(''principal'', JString (la_principal lowered)), (''actionUid'', JString (la_action_uid lowered)),
          (''resource'', JString (la_resource lowered)), (''context'', context)])))))"

section \<open>The JSON boundary\<close>

record matched_policy_dto =
  md_policy_id :: string
  md_reason :: "string option"
  md_severity :: string
  md_origin :: string

datatype verdict_dto = DtoPass | DtoWarn "matched_policy_dto list" | DtoFail "matched_policy_dto list"

definition MAX_WASM_INPUT_JSON_LEN :: nat where
  "MAX_WASM_INPUT_JSON_LEN = 4 * 1024 * 1024"

definition check_input_size :: "string \<Rightarrow> string \<Rightarrow> engine_error + unit" where
  "check_input_size input_json entry =
     (if length input_json > MAX_WASM_INPUT_JSON_LEN
      then Err \<lparr>ge_kind = ''input_too_large'', ge_message = entry @ '' input json length '' @ dec_string (length input_json) @
        '' exceeds '' @ dec_string MAX_WASM_INPUT_JSON_LEN @ '' byte limit''\<rparr>
      else Ok ())"

definition matched_to_dto :: "matched_policy \<Rightarrow> matched_policy_dto" where
  "matched_to_dto m =
     \<lparr>md_policy_id = mp_policy_id m, md_reason = mp_reason m,
      md_severity = (case mp_severity m of SevDeny \<Rightarrow> ''deny'' | SevWarn \<Rightarrow> ''warn''),
      md_origin = (case mp_origin m of OriginAction \<Rightarrow> ''action'' | OriginTx \<Rightarrow> ''tx'')\<rparr>"

definition verdict_to_dto :: "verdict \<Rightarrow> verdict_dto" where
  "verdict_to_dto v =
     (case v of Pass \<Rightarrow> DtoPass | Warn ms \<Rightarrow> DtoWarn (map matched_to_dto ms) | Fail ms \<Rightarrow> DtoFail (map matched_to_dto ms))"

definition engine_error_verdict :: "engine_error \<Rightarrow> verdict_dto" where
  "engine_error_verdict e =
     (let pid = ''__engine::'' @ ge_kind e in
      DtoFail [\<lparr>md_policy_id = pid, md_reason = Some (if ge_message e = [] then pid else ge_message e),
        md_severity = ''deny'', md_origin = ''engine_error''\<rparr>])"

definition invalid_input_json :: "string \<Rightarrow> engine_error" where
  "invalid_input_json m = \<lparr>ge_kind = ''invalid_input_json'', ge_message = ''invalid input json: '' @ m\<rparr>"

text \<open>\<open>parse\<close> is the derived deserializer of the input type.\<close>

definition evaluate_action_v2 ::
  "(string \<Rightarrow> string + ('d, 'h) evaluate_input) \<Rightarrow> ('d, 'h) runtime_env \<Rightarrow> ('p, 'ps, 's, 'u, 'e, 'c, 'r) cedar \<Rightarrow> string \<Rightarrow> verdict_dto" where
  "evaluate_action_v2 parse env cd input_json =
     (case bind_result (check_input_size input_json ''evaluate_action_v2_json'') (\<lambda>_.
           bind_result (map_err invalid_input_json (parse input_json)) (\<lambda>inp. evaluate_action env cd inp)) of
        Ok v \<Rightarrow> verdict_to_dto v
      | Err e \<Rightarrow> engine_error_verdict e)"

definition plan_action_rpc_v2 ::
  "(string \<Rightarrow> string + ('d, 'h) plan_input) \<Rightarrow> ('d, 'h) runtime_env \<Rightarrow> string \<Rightarrow> engine_error + planned_call_dto list" where
  "plan_action_rpc_v2 parse env input_json =
     bind_result (check_input_size input_json ''plan_action_rpc_v2_json'') (\<lambda>_.
     bind_result (map_err invalid_input_json (parse input_json)) (\<lambda>inp. plan_action env inp))"

definition debug_lowered_context_v2 ::
  "(string \<Rightarrow> string + ('d, 'h) evaluate_input) \<Rightarrow> ('d, 'h) runtime_env \<Rightarrow> string \<Rightarrow> engine_error + json" where
  "debug_lowered_context_v2 parse env input_json =
     bind_result (check_input_size input_json ''debug_lowered_context_v2_json'') (\<lambda>_.
     bind_result (map_err invalid_input_json (parse input_json)) (\<lambda>inp. debug_lowered_context env inp))"

section \<open>The plan of an evaluation\<close>

lemma distinct_insert_iff:
  "a \<notin> set seen \<and> distinct xs \<and> set xs \<inter> set (a # seen) = {} \<longleftrightarrow> distinct (a # xs) \<and> set (a # xs) \<inter> set seen = {}"
  by auto

lemma distinct_ids_step:
  "f m \<notin> set seen \<and> (\<exists>rest. out = m # rest \<and> rest = ms \<and> distinct (map f rest) \<and> set (map f rest) \<inter> set (f m # seen) = {}) \<longleftrightarrow>
     out = m # ms \<and> distinct (map f out) \<and> set (map f out) \<inter> set seen = {}"
  (is "?l \<longleftrightarrow> ?r")
proof -
  have "?l \<longleftrightarrow> out = m # ms \<and> f m \<notin> set seen \<and> distinct (map f ms) \<and> set (map f ms) \<inter> set (f m # seen) = {}"
    by blast
  also have "\<dots> \<longleftrightarrow> out = m # ms \<and> distinct (map f (m # ms)) \<and> set (map f (m # ms)) \<inter> set seen = {}"
    unfolding distinct_insert_iff list.map ..
  finally show ?thesis by blast
qed

lemma matching_valid_loop_ok:
  "matching_valid_loop env body tx seen ms = Ok out \<longleftrightarrow>
     out = filter (\<lambda>m. manifest_applies env body tx m \<and> manifest_validate m = Ok ()) ms \<and>
     distinct (map mf_id out) \<and> set (map mf_id out) \<inter> set seen = {}"
proof (induction ms arbitrary: seen out)
  case (Cons m ms)
  show ?case
  proof (cases "manifest_applies env body tx m \<and> manifest_validate m = Ok ()")
    case False
    then show ?thesis
      using Cons.IH [of seen out] by (auto simp: is_ok_iff)
  next
    case True
    then have "matching_valid_loop env body tx seen (m # ms) = Ok out \<longleftrightarrow>
        mf_id m \<notin> set seen \<and> (\<exists>rest. out = m # rest \<and> matching_valid_loop env body tx (mf_id m # seen) ms = Ok rest)"
      by (auto simp: is_ok_iff)
    then show ?thesis
      unfolding Cons.IH distinct_ids_step using True by simp
  qed
qed auto

abbreviation live_manifests :: "('d, 'h) runtime_env \<Rightarrow> 'd action_body \<Rightarrow> tx_input \<Rightarrow> bundle_input list \<Rightarrow> manifest_v2 list" where
  "live_manifests env body tx bundles \<equiv>
     filter (\<lambda>m. manifest_applies env body tx m \<and> manifest_validate m = Ok ()) (map bu_manifest bundles)"

abbreviation live_calls :: "tx_input \<Rightarrow> lowered_action \<Rightarrow> manifest_v2 list \<Rightarrow> planned_call list" where
  "live_calls tx lowered ms \<equiv> concat (map (manifest_calls (tx_view_of tx) (la_context lowered)) ms)"

lemma matching_valid_manifests_ok:
  "matching_valid_manifests env (map bu_manifest bundles) body tx = Ok out \<longleftrightarrow>
     out = live_manifests env body tx bundles \<and> distinct (map mf_id out)"
  by (simp add: matching_valid_manifests_def matching_valid_loop_ok)

lemma plan_ok:
  assumes live: "\<forall>m\<in>set ms. manifest_applies env body tx m \<and> manifest_validate m = Ok ()"
    and len: "length ms \<le> MAX_POLICY_RPC_V2_MANIFESTS"
  shows "plan env ms body lowered tx = Ok planned \<longleftrightarrow>
    (\<forall>m\<in>set ms. specs_resolve (tx_view_of tx) (la_context lowered) m) \<and> planned = live_calls tx lowered ms \<and>
    (planned = [] \<or> length planned \<le> MAX_POLICY_RPC_V2_PLANNED_CALLS)"
proof -
  have all: "filter (manifest_applies env body tx) ms = ms"
    using live by (simp only: filter_id_conv) blast
  have "plan env ms body lowered tx = Ok planned \<longleftrightarrow>
      plan_manifests (body_view env body) (la_context lowered) (tx_view_of tx) [] ms = Ok planned"
    using len by (simp add: plan_def plan_policy_rpc_def)
  also have "\<dots> \<longleftrightarrow> (\<forall>m\<in>set ms. specs_resolve (tx_view_of tx) (la_context lowered) m) \<and>
      planned = live_calls tx lowered ms \<and> (live_calls tx lowered ms = [] \<or> length planned \<le> MAX_POLICY_RPC_V2_PLANNED_CALLS)"
    unfolding plan_manifests_ok all append_Nil using live by blast
  finally show ?thesis by blast
qed

lemma plan_live_ok:
  assumes "length bundles \<le> MAX_POLICY_RPC_V2_MANIFESTS"
  shows "plan env (live_manifests env body tx bundles) body lowered tx = Ok planned \<longleftrightarrow>
    (\<forall>m\<in>set (live_manifests env body tx bundles). specs_resolve (tx_view_of tx) (la_context lowered) m) \<and>
    planned = live_calls tx lowered (live_manifests env body tx bundles) \<and>
    (planned = [] \<or> length planned \<le> MAX_POLICY_RPC_V2_PLANNED_CALLS)"
proof (rule plan_ok)
  have "length (live_manifests env body tx bundles) \<le> length (map bu_manifest bundles)"
    by (rule length_filter_le)
  with assms show "length (live_manifests env body tx bundles) \<le> MAX_POLICY_RPC_V2_MANIFESTS"
    unfolding length_map by (rule order_trans [rotated])
qed (simp only: set_filter, blast)

text \<open>Everything an evaluation needs to reach its bundles.\<close>

lemma evaluate_action_ok:
  "evaluate_action env cd inp = Ok v \<longleftrightarrow>
     length (ei_bundles inp) \<le> MAX_POLICY_RPC_V2_MANIFESTS \<and>
     (\<exists>lowered. lower_input env (ei_action inp) (ei_meta inp) (ei_tx inp) (ei_host inp) = Ok lowered \<and>
        (let ms = live_manifests env (ei_action inp) (ei_tx inp) (ei_bundles inp); calls = live_calls (ei_tx inp) lowered ms in
         distinct (map mf_id ms) \<and>
         (\<forall>m\<in>set ms. specs_resolve (tx_view_of (ei_tx inp)) (la_context lowered) m) \<and>
         (calls = [] \<or> length calls \<le> MAX_POLICY_RPC_V2_PLANNED_CALLS) \<and>
         evaluate_matching_bundles env cd (ei_bundles inp) (ei_action inp) (ei_tx inp) lowered calls (ei_results inp) = Ok v))"
proof (cases "length (ei_bundles inp) \<le> MAX_POLICY_RPC_V2_MANIFESTS")
  case True
  note plan = plan_live_ok [OF True]
  from True have "evaluate_action env cd inp = Ok v \<longleftrightarrow>
      (\<exists>lowered. lower_input env (ei_action inp) (ei_meta inp) (ei_tx inp) (ei_host inp) = Ok lowered \<and>
        (\<exists>ms. matching_valid_manifests env (map bu_manifest (ei_bundles inp)) (ei_action inp) (ei_tx inp) = Ok ms \<and>
        (\<exists>planned. plan env ms (ei_action inp) lowered (ei_tx inp) = Ok planned \<and>
          evaluate_matching_bundles env cd (ei_bundles inp) (ei_action inp) (ei_tx inp) lowered planned (ei_results inp) = Ok v)))"
    by (auto simp: evaluate_action_def check_manifest_count_def)
  also have "\<dots> \<longleftrightarrow> (\<exists>lowered. lower_input env (ei_action inp) (ei_meta inp) (ei_tx inp) (ei_host inp) = Ok lowered \<and>
        distinct (map mf_id (live_manifests env (ei_action inp) (ei_tx inp) (ei_bundles inp))) \<and>
        (\<exists>planned. plan env (live_manifests env (ei_action inp) (ei_tx inp) (ei_bundles inp)) (ei_action inp) lowered (ei_tx inp) = Ok planned \<and>
          evaluate_matching_bundles env cd (ei_bundles inp) (ei_action inp) (ei_tx inp) lowered planned (ei_results inp) = Ok v))"
    unfolding matching_valid_manifests_ok by blast
  finally show ?thesis
    unfolding plan Let_def using True by blast
qed (simp add: evaluate_action_def check_manifest_count_def)

text \<open>The calls of one bundle are those of its own manifest, since the live manifests have distinct ids.\<close>

lemma manifest_calls_id: "call \<in> set (manifest_calls tx lowered m) \<Longrightarrow> pc_manifest_id call = mf_id m"
  by (auto simp: List.map_filter_def spec_call_def split: sum.splits)

lemma filter_calls:
  assumes "distinct (map mf_id ms)" and "m \<in> set ms"
  shows "filter (\<lambda>call. pc_manifest_id call = mf_id m) (live_calls tx lowered ms) =
    manifest_calls (tx_view_of tx) (la_context lowered) m"
  using assms
proof (induction ms)
  case (Cons m' ms)
  let ?calls = "manifest_calls (tx_view_of tx) (la_context lowered)"
  let ?mine = "\<lambda>call. pc_manifest_id call = mf_id m"
  show ?case
  proof (cases "m = m'")
    case True
    have "\<not> ?mine call" if "call \<in> set (live_calls tx lowered ms)" for call
    proof -
      from that obtain m2 where "m2 \<in> set ms" "call \<in> set (?calls m2)" by auto
      with manifest_calls_id have "pc_manifest_id call \<in> mf_id ` set ms" by blast
      with Cons.prems(1) True show ?thesis by auto
    qed
    then have "filter ?mine (live_calls tx lowered ms) = []"
      by (simp only: filter_empty_conv) blast
    moreover have "filter ?mine (?calls m) = ?calls m"
      by (auto simp: filter_id_conv dest: manifest_calls_id)
    ultimately show ?thesis using True by simp
  next
    case False
    with Cons.prems have "m \<in> set ms" "mf_id m \<noteq> mf_id m'"
      by (auto simp: image_iff)
    moreover have "filter ?mine (?calls m') = []"
      using calculation(2) by (auto simp: filter_empty_conv dest: manifest_calls_id)
    ultimately show ?thesis
      using Cons.IH Cons.prems(1) by simp
  qed
qed simp

lemma evaluate_bundle_own:
  assumes "distinct (map mf_id (live_manifests env body tx bundles))" and "b \<in> set bundles"
  shows "evaluate_bundle env cd body tx lowered (live_calls tx lowered (live_manifests env body tx bundles)) results b =
    evaluate_bundle env cd body tx lowered (manifest_calls (tx_view_of tx) (la_context lowered) (bu_manifest b)) results b"
proof (cases "manifest_applies env body tx (bu_manifest b) \<and> manifest_validate (bu_manifest b) = Ok ()")
  case True
  with assms(2) have "bu_manifest b \<in> set (live_manifests env body tx bundles)" by auto
  note own = filter_calls [OF assms(1) this]
  have "filter (\<lambda>call. pc_manifest_id call = mf_id (bu_manifest b)) (manifest_calls (tx_view_of tx) (la_context lowered) (bu_manifest b)) =
      manifest_calls (tx_view_of tx) (la_context lowered) (bu_manifest b)"
    by (auto simp: filter_id_conv dest: manifest_calls_id)
  then show ?thesis
    unfolding evaluate_bundle_def Let_def own by simp
next
  case False
  then show ?thesis
    by (cases "manifest_validate (bu_manifest b)") (auto simp: evaluate_bundle_def Let_def)
qed

section \<open>Isolation of the bundles\<close>

text \<open>The outcome of a bundle with the calls of its own manifest.\<close>

abbreviation own_outcome ::
  "('d, 'h) runtime_env \<Rightarrow> ('p, 'ps, 's, 'u, 'e, 'c, 'r) cedar \<Rightarrow> ('d, 'h) evaluate_input \<Rightarrow> lowered_action \<Rightarrow> bundle_input \<Rightarrow>
     verdict list" where
  "own_outcome env cd inp lowered b \<equiv> outcome_verdicts (evaluate_bundle env cd (ei_action inp) (ei_tx inp) lowered
     (manifest_calls (tx_view_of (ei_tx inp)) (la_context lowered) (bu_manifest b)) (ei_results inp) b)"

definition evaluation_reaches :: "('d, 'h) runtime_env \<Rightarrow> ('d, 'h) evaluate_input \<Rightarrow> lowered_action \<Rightarrow> bool" where
  "evaluation_reaches env inp lowered \<longleftrightarrow>
     (let ms = live_manifests env (ei_action inp) (ei_tx inp) (ei_bundles inp) in
      length (ei_bundles inp) \<le> 128 \<and>
      lower_input env (ei_action inp) (ei_meta inp) (ei_tx inp) (ei_host inp) = Ok lowered \<and>
      distinct (map mf_id ms) \<and>
      list_all (specs_resolve (tx_view_of (ei_tx inp)) (la_context lowered)) ms \<and>
      length (live_calls (ei_tx inp) lowered ms) \<le> 64)"

lemma reach_cong:
  assumes "\<And>l. D \<Longrightarrow> E l = Ok (X l)"
  shows "A \<and> (\<exists>l. B l \<and> D \<and> S l \<and> L l \<and> E l = Ok v) \<longleftrightarrow> (\<exists>l. (A \<and> B l \<and> D \<and> S l \<and> L l) \<and> v = X l)"
  using assms by auto

lemma evaluate_action_reaches:
  "evaluate_action env cd inp = Ok v \<longleftrightarrow>
     (\<exists>lowered. evaluation_reaches env inp lowered \<and> v = aggregate (concat (map (own_outcome env cd inp lowered) (ei_bundles inp))))"
proof -
  have own: "evaluate_matching_bundles env cd (ei_bundles inp) (ei_action inp) (ei_tx inp) lowered
      (live_calls (ei_tx inp) lowered (live_manifests env (ei_action inp) (ei_tx inp) (ei_bundles inp))) (ei_results inp) =
      Ok (aggregate (concat (map (own_outcome env cd inp lowered) (ei_bundles inp))))"
    if "distinct (map mf_id (live_manifests env (ei_action inp) (ei_tx inp) (ei_bundles inp)))" for lowered
  proof -
    have "map (\<lambda>b. outcome_verdicts (evaluate_bundle env cd (ei_action inp) (ei_tx inp) lowered
        (live_calls (ei_tx inp) lowered (live_manifests env (ei_action inp) (ei_tx inp) (ei_bundles inp))) (ei_results inp) b)) (ei_bundles inp) =
      map (own_outcome env cd inp lowered) (ei_bundles inp)"
      by (rule map_cong [OF refl]) (simp only: evaluate_bundle_own [OF that])
    then show ?thesis
      unfolding evaluate_matching_bundles_def by (rule arg_cong)
  qed
  have limit: "calls = [] \<or> length calls \<le> MAX_POLICY_RPC_V2_PLANNED_CALLS \<longleftrightarrow> length calls \<le> 64" for calls :: "planned_call list"
    by (auto simp: MAX_POLICY_RPC_V2_PLANNED_CALLS_def)
  show ?thesis
    unfolding evaluate_action_ok evaluation_reaches_def Let_def list_all_iff limit
    unfolding MAX_POLICY_RPC_V2_MANIFESTS_def
    by (rule reach_cong) (rule own)
qed

lemma length_concat_member: "x \<in> set xs \<Longrightarrow> length (f x) \<le> length (concat (map f xs))"
  by (induction xs) auto

lemma evaluation_reaches_single:
  assumes "evaluation_reaches env inp lowered" and "b \<in> set (ei_bundles inp)"
  shows "evaluation_reaches env (inp\<lparr>ei_bundles := [b]\<rparr>) lowered"
proof (cases "manifest_applies env (ei_action inp) (ei_tx inp) (bu_manifest b) \<and> manifest_validate (bu_manifest b) = Ok ()")
  case True
  let ?ms = "live_manifests env (ei_action inp) (ei_tx inp) (ei_bundles inp)"
  let ?f = "manifest_calls (tx_view_of (ei_tx inp)) (la_context lowered)"
  have mem: "bu_manifest b \<in> set ?ms" using True assms(2) by auto
  have one: "live_manifests env (ei_action inp) (ei_tx inp) [b] = [bu_manifest b]" using True by simp
  have "length (?f (bu_manifest b)) \<le> 64"
    using length_concat_member [OF mem, of ?f] assms(1) unfolding evaluation_reaches_def Let_def by linarith
  moreover have "specs_resolve (tx_view_of (ei_tx inp)) (la_context lowered) (bu_manifest b)"
    using mem assms(1) unfolding evaluation_reaches_def Let_def list_all_iff by blast
  moreover have "lower_input env (ei_action inp) (ei_meta inp) (ei_tx inp) (ei_host inp) = Ok lowered"
    using assms(1) unfolding evaluation_reaches_def Let_def by blast
  ultimately show ?thesis
    unfolding evaluation_reaches_def Let_def by (simp add: True)
next
  case False
  have "lower_input env (ei_action inp) (ei_meta inp) (ei_tx inp) (ei_host inp) = Ok lowered"
    using assms(1) unfolding evaluation_reaches_def Let_def by blast
  with False show ?thesis
    unfolding evaluation_reaches_def Let_def by auto
qed

text \<open>
  C9. Bundles are isolated from each other. When an evaluation returns, evaluating any one of its bundles alone
  returns too, and the verdict is the deny-overrides aggregate of those verdicts: a broken, failing or unserved
  bundle changes neither the result of another bundle nor the calls replayed into its context.
\<close>

theorem evaluate_isolated:
  assumes "evaluate_action env cd inp = Ok v"
  shows "\<exists>vs. list_all2 (\<lambda>b vb. evaluate_action env cd (inp\<lparr>ei_bundles := [b]\<rparr>) = Ok vb) (ei_bundles inp) vs \<and> v = aggregate vs"
proof -
  from assms obtain lowered where reach: "evaluation_reaches env inp lowered"
    and v: "v = aggregate (concat (map (own_outcome env cd inp lowered) (ei_bundles inp)))"
    unfolding evaluate_action_reaches by blast
  let ?vs = "map (\<lambda>b. aggregate (own_outcome env cd inp lowered b)) (ei_bundles inp)"
  have single: "evaluate_action env cd (inp\<lparr>ei_bundles := [b]\<rparr>) = Ok (aggregate (own_outcome env cd inp lowered b))"
    if "b \<in> set (ei_bundles inp)" for b
    unfolding evaluate_action_reaches using evaluation_reaches_single [OF reach that] by (intro exI [of _ lowered]) simp
  have "list_all2 (\<lambda>b vb. evaluate_action env cd (inp\<lparr>ei_bundles := [b]\<rparr>) = Ok vb) (ei_bundles inp) ?vs"
    by (simp add: list_all2_conv_all_nth single)
  moreover have "v = aggregate ?vs"
    unfolding v aggregate_concat [symmetric] by (simp add: comp_def)
  ultimately show ?thesis by blast
qed

section \<open>When an action passes\<close>

text \<open>Cedar's response to a request of a built engine.\<close>

definition authorize ::
  "('p, 'ps, 's, 'u, 'e, 'c, 'r) cedar \<Rightarrow> ('ps, 's) policy_engine \<Rightarrow> string \<Rightarrow> string \<Rightarrow> string \<Rightarrow> json \<Rightarrow> json \<Rightarrow>
     cedar_response \<Rightarrow> bool" where
  "authorize cd eng principal_uid action_uid resource_uid entities_json context_json resp \<longleftrightarrow>
     (\<exists>p a r entities ctx request.
        cd_uid_parse cd principal_uid = Ok p \<and> cd_uid_parse cd action_uid = Ok a \<and> cd_uid_parse cd resource_uid = Ok r \<and>
        cd_entities cd entities_json (pe_schema eng) = Ok entities \<and>
        cd_context cd context_json (map_option (\<lambda>s. (s, a)) (pe_schema eng)) = Ok ctx \<and>
        cd_request cd p a r ctx (pe_schema eng) = Ok request \<and>
        cd_is_authorized cd request (pe_policy_set eng) entities = resp)"

lemma evaluate_authorize:
  "evaluate cd eng p a r es ctx = Ok v \<longleftrightarrow> (\<exists>resp. authorize cd eng p a r es ctx resp \<and> v = verdict_of eng resp)"
  unfolding evaluate_def authorize_def by (simp only: bind_result_eq_Ok map_err_eq_Ok sum.inject) blast

lemma build_from_per_policy_schema: "build_from_per_policy cd bundles = Ok eng \<Longrightarrow> pe_schema eng = None"
  by (auto simp: build_from_per_policy_def)

text \<open>A bundle whose calls are served and whose policy, built on its own, Cedar allows without an error.\<close>

definition bundle_allows ::
  "('d, 'h) runtime_env \<Rightarrow> ('p, 'ps, 's, 'u, 'e, 'c, 'r) cedar \<Rightarrow> ('d, 'h) evaluate_input \<Rightarrow> lowered_action \<Rightarrow> bundle_input \<Rightarrow> bool" where
  "bundle_allows env cd inp lowered b \<longleftrightarrow>
     (\<exists>ctx schema eng resp.
        materialize (la_context lowered) (manifest_calls (tx_view_of (ei_tx inp)) (la_context lowered) (bu_manifest b)) (ei_results inp) = (ctx, Ok ()) \<and>
        re_compose env (bu_manifest b) = Ok schema \<and> build_from_per_policy cd [(bu_policy b, schema)] = Ok eng \<and>
        authorize cd eng (la_principal lowered) (la_action_uid lowered) (la_resource lowered) (entities_for_tx (ei_tx inp)) ctx resp \<and>
        cr_decision resp = CedarAllow \<and> cr_errors resp = [])"

lemma outcome_Pass: "(\<forall>v\<in>set (outcome_verdicts r). v = Pass) \<longleftrightarrow> r = Ok None \<or> r = Ok (Some Pass)"
proof (cases r)
  case (Inr w)
  then show ?thesis by (cases w) (auto simp: outcome_verdicts_def)
qed (simp add: outcome_verdicts_def quarantine_verdict_def Let_def)

lemma system_fail_not_Pass: "system_fail_verdict e \<noteq> Some Pass"
  by (cases e) (simp_all add: system_fail_verdict_def)

lemma own_calls_filter:
  "filter (\<lambda>call. pc_manifest_id call = mf_id m) (manifest_calls tx lowered m) = manifest_calls tx lowered m"
  by (auto simp: filter_id_conv dest: manifest_calls_id)

lemma evaluate_engine_Pass:
  assumes "build_from_per_policy cd bundles = Ok eng"
  shows "evaluate cd eng p a r es ctx = Ok Pass \<longleftrightarrow>
    (\<exists>resp. authorize cd eng p a r es ctx resp \<and> cr_decision resp = CedarAllow \<and> cr_errors resp = [])"
  unfolding evaluate_authorize using build_from_per_policy_schema [OF assms] verdict_of_Pass by metis

lemma own_outcome_Pass:
  "(\<forall>v\<in>set (own_outcome env cd inp lowered b). v = Pass) \<longleftrightarrow>
     \<not> manifest_applies env (ei_action inp) (ei_tx inp) (bu_manifest b) \<or>
     manifest_validate (bu_manifest b) = Ok () \<and> bundle_allows env cd inp lowered b"
proof (cases "manifest_applies env (ei_action inp) (ei_tx inp) (bu_manifest b) \<and> manifest_validate (bu_manifest b) = Ok ()")
  case False
  then show ?thesis
    unfolding outcome_Pass by (cases "manifest_validate (bu_manifest b)") (auto simp: evaluate_bundle_def Let_def)
next
  case True
  let ?calls = "manifest_calls (tx_view_of (ei_tx inp)) (la_context lowered) (bu_manifest b)"
  let ?r = "evaluate_bundle env cd (ei_action inp) (ei_tx inp) lowered ?calls (ei_results inp) b"
  obtain ctx res where mat: "materialize (la_context lowered) ?calls (ei_results inp) = (ctx, res)" by fastforce
  show ?thesis
  proof (cases res)
    case (Inl e)
    then have "?r \<noteq> Ok None" "?r \<noteq> Ok (Some Pass)"
      using True mat system_fail_not_Pass [of e]
      by (auto simp: evaluate_bundle_def Let_def own_calls_filter split: option.splits)
    moreover have "\<not> bundle_allows env cd inp lowered b"
      using mat Inl by (simp add: bundle_allows_def)
    ultimately show ?thesis
      unfolding outcome_Pass using True by blast
  next
    case (Inr u)
    let ?eval = "\<lambda>eng. evaluate cd eng (la_principal lowered) (la_action_uid lowered) (la_resource lowered) (entities_for_tx (ei_tx inp)) ctx"
    have r: "?r = Ok w \<longleftrightarrow> (\<exists>schema eng v. re_compose env (bu_manifest b) = Ok schema \<and>
        build_from_per_policy cd [(bu_policy b, schema)] = Ok eng \<and> ?eval eng = Ok v \<and> w = Some v)" for w
      using True mat Inr by (auto simp: evaluate_bundle_def Let_def own_calls_filter)
    have allows: "bundle_allows env cd inp lowered b \<longleftrightarrow> (\<exists>schema eng. re_compose env (bu_manifest b) = Ok schema \<and>
        build_from_per_policy cd [(bu_policy b, schema)] = Ok eng \<and> ?eval eng = Ok Pass)"
      unfolding bundle_allows_def mat Inr using evaluate_engine_Pass by fastforce
    show ?thesis
      unfolding outcome_Pass r allows using True by blast
  qed
qed

lemma dto_Pass: "(case r of Ok v \<Rightarrow> verdict_to_dto v | Err e \<Rightarrow> engine_error_verdict e) = DtoPass \<longleftrightarrow> r = Ok Pass"
proof (cases r)
  case (Inr v)
  then show ?thesis by (cases v) (simp_all add: verdict_to_dto_def)
qed (simp add: engine_error_verdict_def Let_def)

lemma dto_Fail:
  "(\<exists>ms. (case r of Ok v \<Rightarrow> verdict_to_dto v | Err e \<Rightarrow> engine_error_verdict e) = DtoFail ms) \<longleftrightarrow>
     (\<forall>v. r = Ok v \<longrightarrow> is_failure v)"
proof (cases r)
  case (Inr v)
  then show ?thesis by (cases v) (simp_all add: verdict_to_dto_def)
qed (simp add: engine_error_verdict_def Let_def)

lemma aggregate_map_Pass: "Pass = aggregate (concat (map f bs)) \<longleftrightarrow> (\<forall>b\<in>set bs. \<forall>v\<in>set (f b). v = Pass)"
proof -
  have "Pass = aggregate (concat (map f bs)) \<longleftrightarrow> aggregate (concat (map f bs)) = Pass" by (rule eq_commute)
  then show ?thesis by (simp add: aggregate_Pass_iff)
qed

lemma own_outcome_served:
  "(\<forall>v\<in>set (own_outcome env cd inp lowered b). v = Pass) \<longleftrightarrow>
     (manifest_applies env (ei_action inp) (ei_tx inp) (bu_manifest b) \<longrightarrow>
        manifest_validate (bu_manifest b) = Ok () \<and>
        (\<forall>call\<in>set (manifest_calls (tx_view_of (ei_tx inp)) (la_context lowered) (bu_manifest b)). call_served (ei_results inp) call) \<and>
        bundle_allows env cd inp lowered b)"
proof -
  have "\<forall>call\<in>set (manifest_calls (tx_view_of (ei_tx inp)) (la_context lowered) (bu_manifest b)). call_served (ei_results inp) call"
    if "bundle_allows env cd inp lowered b"
  proof -
    from that obtain ctx where
      "materialize (la_context lowered) (manifest_calls (tx_view_of (ei_tx inp)) (la_context lowered) (bu_manifest b)) (ei_results inp) = (ctx, Ok ())"
      unfolding bundle_allows_def by blast
    then show ?thesis by (rule materialize_served)
  qed
  then show ?thesis
    unfolding own_outcome_Pass by argo
qed

text \<open>
  C1. The boundary passes an action exactly when nothing stands against it. The input is within the size limit, parses,
  has at most 128 bundles and lowers; the manifests that apply and are valid have distinct ids and their calls resolve within the
  limit; and every bundle that applies is valid, has every required call served, its results replay into the context, its
  schema composes, its policy installs, and Cedar allows the request on it without an evaluation error. Every error, quarantine or missing fact rules a pass out.
\<close>

theorem evaluate_action_v2_pass_exact:
  "evaluate_action_v2 parse env cd input_json = DtoPass \<longleftrightarrow>
     length input_json \<le> 4194304 \<and>
     (\<exists>inp lowered. parse input_json = Ok inp \<and> evaluation_reaches env inp lowered \<and>
       (\<forall>b\<in>set (ei_bundles inp). manifest_applies env (ei_action inp) (ei_tx inp) (bu_manifest b) \<longrightarrow>
          manifest_validate (bu_manifest b) = Ok () \<and>
          (\<forall>call\<in>set (manifest_calls (tx_view_of (ei_tx inp)) (la_context lowered) (bu_manifest b)). call_served (ei_results inp) call) \<and>
          bundle_allows env cd inp lowered b))"
proof -
  have "evaluate_action_v2 parse env cd input_json = DtoPass \<longleftrightarrow>
      bind_result (check_input_size input_json ''evaluate_action_v2_json'') (\<lambda>_.
        bind_result (map_err invalid_input_json (parse input_json)) (\<lambda>inp. evaluate_action env cd inp)) = Ok Pass"
    unfolding evaluate_action_v2_def by (rule dto_Pass)
  also have "\<dots> \<longleftrightarrow> length input_json \<le> 4194304 \<and> (\<exists>inp. parse input_json = Ok inp \<and> evaluate_action env cd inp = Ok Pass)"
    by (simp add: check_input_size_def MAX_WASM_INPUT_JSON_LEN_def)
  finally show ?thesis
    unfolding evaluate_action_reaches aggregate_map_Pass own_outcome_served by blast
qed

section \<open>Missing facts fail closed\<close>

text \<open>A call specification is served when it is optional, or its parameters resolve and the results serve its call.\<close>

definition spec_served :: "tx_view \<Rightarrow> json \<Rightarrow> (string, json) fmap \<Rightarrow> string \<Rightarrow> policy_rpc_call_spec \<Rightarrow> bool" where
  "spec_served tx lowered results mid spec \<longleftrightarrow>
     cs_optional spec \<or> (case spec_call tx lowered mid spec of None \<Rightarrow> False | Some call \<Rightarrow> call_served results call)"

lemma unserved_call:
  assumes "spec \<in> set (mf_policy_rpc m)" and "\<not> spec_served tx lowered results (mf_id m) spec" and "specs_resolve tx lowered m"
  obtains call where "call \<in> set (manifest_calls tx lowered m)" and "\<not> call_served results call"
proof -
  from assms obtain call where call: "spec_call tx lowered (mf_id m) spec = Some call" "\<not> call_served results call"
    by (auto simp: spec_served_def specs_resolve_def)
  with assms(1) have "call \<in> set (manifest_calls tx lowered m)"
    by (force simp: List.map_filter_def)
  with call(2) show thesis by (rule that [rotated])
qed

lemma own_outcome_unserved:
  assumes "manifest_applies env (ei_action inp) (ei_tx inp) (bu_manifest b)" and "manifest_validate (bu_manifest b) = Ok ()"
    and "context_manifest (bu_manifest b)" and "la_context lowered = JObject obj" and "custom_free (bu_manifest b) obj"
    and "call \<in> set (manifest_calls (tx_view_of (ei_tx inp)) (la_context lowered) (bu_manifest b))"
    and "\<not> call_served (ei_results inp) call"
  shows "\<exists>v\<in>set (own_outcome env cd inp lowered b). is_failure v"
proof -
  let ?calls = "manifest_calls (tx_view_of (ei_tx inp)) (la_context lowered) (bu_manifest b)"
  have "\<not> (\<forall>call\<in>set ?calls. call_served (ei_results inp) call)"
    using assms(6,7) by blast
  then have "\<exists>ctx' c r. materialize (JObject obj) ?calls (ei_results inp) = (ctx', Err (SystemFail c r))"
    using materialize_manifest [OF assms(2,3,5), of "tx_view_of (ei_tx inp)" "la_context lowered" "ei_results inp"]
    by (simp only: if_False)
  then obtain ctx' c r where mat: "materialize (la_context lowered) ?calls (ei_results inp) = (ctx', Err (SystemFail c r))"
    unfolding assms(4) by blast
  have "system_fail_verdict (SystemFail c r) = Some v \<Longrightarrow> is_failure v" for v
    by (auto simp: system_fail_verdict_def)
  then show ?thesis
    using assms(1,2) mat
    by (auto simp: evaluate_bundle_def Let_def own_calls_filter outcome_verdicts_def system_fail_verdict_def)
qed

text \<open>
  C8. A missing fact fails closed. When a valid bundle applies and one of its required call specifications is not served
  (its parameters do not resolve, the host sent no result, or an output cannot be projected from the result), the boundary
  answers with a fail, whatever the other bundles say and whatever Cedar would decide. The projections are to the context,
  and the lowered context has no field of its own under the names the manifest produces.
\<close>

theorem required_fact_fails:
  assumes "parse input_json = Ok inp"
    and "lower_input env (ei_action inp) (ei_meta inp) (ei_tx inp) (ei_host inp) = Ok lowered"
    and "la_context lowered = JObject obj"
    and "b \<in> set (ei_bundles inp)"
    and "manifest_applies env (ei_action inp) (ei_tx inp) (bu_manifest b)" and "manifest_validate (bu_manifest b) = Ok ()"
    and "context_manifest (bu_manifest b)" and "custom_free (bu_manifest b) obj"
    and "spec \<in> set (mf_policy_rpc (bu_manifest b))"
    and "\<not> spec_served (tx_view_of (ei_tx inp)) (la_context lowered) (ei_results inp) (mf_id (bu_manifest b)) spec"
  shows "\<exists>ms. evaluate_action_v2 parse env cd input_json = DtoFail ms"
proof -
  have fails: "is_failure v" if ok: "evaluate_action env cd inp = Ok v" for v
  proof -
    from ok obtain low where reach: "evaluation_reaches env inp low"
      and v: "v = aggregate (concat (map (own_outcome env cd inp low) (ei_bundles inp)))"
      unfolding evaluate_action_reaches by blast
    then have low: "low = lowered"
      using assms(2) by (simp add: evaluation_reaches_def Let_def)
    have "bu_manifest b \<in> set (live_manifests env (ei_action inp) (ei_tx inp) (ei_bundles inp))"
      using assms(4-6) by auto
    then have "specs_resolve (tx_view_of (ei_tx inp)) (la_context lowered) (bu_manifest b)"
      using reach unfolding low evaluation_reaches_def Let_def list_all_iff by blast
    from unserved_call [OF assms(9,10) this] obtain call where
      "call \<in> set (manifest_calls (tx_view_of (ei_tx inp)) (la_context lowered) (bu_manifest b))" "\<not> call_served (ei_results inp) call" .
    from own_outcome_unserved [where cd = cd, OF assms(5-7,3,8) this] assms(4) show ?thesis
      unfolding v low is_failure_aggregate set_concat set_map by blast
  qed
  show ?thesis
    unfolding evaluate_action_v2_def dto_Fail using assms(1) fails by simp
qed

section \<open>Concrete runs\<close>

text \<open>An authorizer that allows a request exactly when the replayed score is there, and an environment that lowers to one context.\<close>

definition score_cedar :: "(string, string list, string, string, json, json, json) cedar" where
  "score_cedar =
     \<lparr>cd_schema_from_str = Ok, cd_policy_set_from_str = (\<lambda>s. Ok [s]), cd_policies = id, cd_policy_set_new = [],
      cd_policy_set_add = (\<lambda>ps p. Ok (ps @ [p])), cd_policy_id = (\<lambda>p. ''policy0''), cd_policy_new_id = (\<lambda>p _. p),
      cd_annotation = (\<lambda>_ key. if key = ''severity'' then Some ''deny'' else None), cd_validate = (\<lambda>_ _. (True, [])),
      cd_uid_parse = Ok, cd_entities = (\<lambda>es _. Ok es), cd_context = (\<lambda>ctx _. Ok ctx), cd_request = (\<lambda>_ _ _ ctx _. Ok ctx),
      cd_is_authorized = (\<lambda>ctx _ _.
        if bind_result (ok_or () (json_get ctx ''custom'')) (\<lambda>custom. ok_or () (json_get custom ''score'')) = Ok (JNumber (PosInt 7))
        then \<lparr>cr_decision = CedarAllow, cr_reason = [BASELINE_ID], cr_errors = []\<rparr>
        else \<lparr>cr_decision = CedarDeny, cr_reason = [''policy0''], cr_errors = []\<rparr>)\<rparr>"

definition score_lowered :: lowered_action where
  "score_lowered = \<lparr>la_principal = ''Wallet::0xa'', la_action_uid = ''Action::multicall'', la_resource = ''Protocol::0xb'',
     la_context = JObject score_context\<rparr>"

definition score_env :: "(unit, unit) runtime_env" where
  "score_env = \<lparr>re_tag = (\<lambda>_. ''tag''), re_venue = (\<lambda>_. None), re_lower = (\<lambda>_ _ _ _ _. Ok score_lowered), re_compose = (\<lambda>m. Ok (mf_id m))\<rparr>"

definition score_bundle :: bundle_input where
  "score_bundle = \<lparr>bu_policy = ''forbid unless score'', bu_manifest = score_manifest\<rparr>"

definition broken_bundle :: bundle_input where
  "broken_bundle = \<lparr>bu_policy = ''forbid'', bu_manifest = score_manifest\<lparr>mf_schema_version := 1\<rparr>\<rparr>"

definition score_meta :: action_meta where
  "score_meta = \<lparr>am_submitted_at = Time 0, am_submitter = 1,
     am_nature = OffchainSig \<lparr>ed_name = ''app'', ed_version = None, ed_chain_id = None, ed_verifying_contract = None, ed_salt = None\<rparr>
       (Time 60) None\<rparr>"

definition score_input :: "bundle_input list \<Rightarrow> (string, json) fmap \<Rightarrow> (unit, unit) evaluate_input" where
  "score_input bundles results =
     \<lparr>ei_action = Multicall [], ei_meta = score_meta, ei_tx = tx_input_new ''eip155:1'' ''0xA'' ''0xB'', ei_bundles = bundles,
      ei_results = results, ei_host = ()\<rparr>"

theorem evaluate_isolated_witness:
  "\<exists>vs. list_all2 (\<lambda>b vb. evaluate_action score_env score_cedar (score_input [b] score_results) = Ok vb) [broken_bundle, score_bundle] vs \<and>
     evaluate_action score_env score_cedar (score_input [broken_bundle, score_bundle] score_results) = Ok (aggregate vs)"
proof -
  let ?inp = "score_input [broken_bundle, score_bundle] score_results"
  have "is_ok (evaluate_action score_env score_cedar ?inp)" by code_simp
  then obtain v where v: "evaluate_action score_env score_cedar ?inp = Ok v" by (auto simp: is_ok_iff)
  have "?inp\<lparr>ei_bundles := [b]\<rparr> = score_input [b] score_results" "ei_bundles ?inp = [broken_bundle, score_bundle]" for b
    by (simp_all add: score_input_def)
  with evaluate_isolated [OF v] v show ?thesis by auto
qed

theorem evaluate_action_v2_pass_exact_witness:
  "evaluate_action_v2 (\<lambda>_. Ok (score_input [score_bundle] score_results)) score_env score_cedar ''{}'' = DtoPass \<and>
   bundle_allows score_env score_cedar (score_input [score_bundle] score_results) score_lowered score_bundle"
proof -
  let ?inp = "score_input [score_bundle] score_results"
  have "evaluate_action score_env score_cedar ?inp = Ok Pass" by code_simp
  then have pass: "evaluate_action_v2 (\<lambda>_. Ok ?inp) score_env score_cedar ''{}'' = DtoPass"
    by (simp add: evaluate_action_v2_def check_input_size_def MAX_WASM_INPUT_JSON_LEN_def verdict_to_dto_def)
  with evaluate_action_v2_pass_exact [of "\<lambda>_. Ok ?inp" score_env score_cedar "''{}''"] obtain lowered where
    reach: "evaluation_reaches score_env ?inp lowered"
    and all: "\<forall>b\<in>set (ei_bundles ?inp). manifest_applies score_env (ei_action ?inp) (ei_tx ?inp) (bu_manifest b) \<longrightarrow>
      bundle_allows score_env score_cedar ?inp lowered b"
    by auto
  from reach have "lowered = score_lowered"
    by (simp add: evaluation_reaches_def Let_def lower_input_def score_env_def)
  moreover have "manifest_applies score_env (ei_action ?inp) (ei_tx ?inp) (bu_manifest score_bundle)" by code_simp
  moreover have "score_bundle \<in> set (ei_bundles ?inp)" by (simp add: score_input_def)
  ultimately show ?thesis using all pass by blast
qed

theorem required_fact_fails_witness:
  "\<exists>ms. evaluate_action_v2 (\<lambda>_. Ok (score_input [score_bundle] fmempty)) score_env score_cedar ''{}'' = DtoFail ms"
proof (rule required_fact_fails [where inp = "score_input [score_bundle] fmempty" and b = score_bundle and spec = score_spec
      and lowered = score_lowered and obj = score_context])
  let ?inp = "score_input [score_bundle] fmempty"
  show "manifest_applies score_env (ei_action ?inp) (ei_tx ?inp) (bu_manifest score_bundle)" by code_simp
  show "\<not> spec_served (tx_view_of (ei_tx ?inp)) (la_context score_lowered) (ei_results ?inp) (mf_id (bu_manifest score_bundle)) score_spec"
    by code_simp
qed (simp_all add: score_input_def score_bundle_def score_lowered_def score_env_def lower_input_def score_facts,
  simp add: score_manifest_def)

section \<open>Limits of the guarantees\<close>

text \<open>
  The kind of a projection is not validated with the manifest. A served call with an output of another kind stops the replay
  before the missing required call after it is looked at, so the bundle is quarantined to a warning.
\<close>

definition odd_manifest :: manifest_v2 where
  "odd_manifest = score_manifest\<lparr>
     mf_policy_rpc := [score_spec\<lparr>cs_outputs := map (\<lambda>out. out\<lparr>cp_kind := ''annotation''\<rparr>) (cs_outputs score_spec)\<rparr>,
       score_spec\<lparr>cs_id := ''limit'', cs_outputs := map (\<lambda>out. out\<lparr>cp_field := ''limit''\<rparr>) (cs_outputs score_spec)\<rparr>],
     mf_custom_context := [(''limit'', ''Long''), (''score'', ''Long'')]\<rparr>"

lemma missing_required_quarantined:
  "manifest_validate odd_manifest = Ok () \<and> fmlookup score_results ''risk::limit'' = None \<and>
   (case evaluate_action score_env score_cedar (score_input [\<lparr>bu_policy = ''forbid'', bu_manifest = odd_manifest\<rparr>] score_results) of
      Ok (Warn ms) \<Rightarrow> map mp_policy_id ms = [''__engine::quarantine::projection_failed''] | _ \<Rightarrow> False)"
  by code_simp

text \<open>The call id joins the two ids with a separator either may contain.\<close>

lemma call_ids_collide: "policy_rpc_call_id ''a::b'' ''c'' = policy_rpc_call_id ''a'' ''b::c''"
  by (simp add: policy_rpc_call_id_def)

end
