(* ===== verification/Spec2Isabelle.thy ===== *)
theory Spec2Isabelle
  imports Reducer Scam_Rules Policy_Runtime
begin

text \<open>
  DAMBI: wallet state transitions, the scam filter and policy evaluation.

  The program decides whether a wallet should sign a decoded action. Three parts of it are modelled. The asset model
  (\<open>src/crates/asset-model\<close>) holds a wallet snapshot and computes the delta of an action. The scam filter
  (\<open>src/crates/scam-filter\<close>) counts suspicious events in the history of a liquidity pool. The policy pipeline
  (\<open>src/crates/policy-engine\<close> and the runtime of \<open>src/crates/dambi-core\<close>) plans the facts an action's policies need,
  replays the host's answers and evaluates every policy with Cedar into one verdict.

  \<^bold>\<open>Asset model.\<close> \<open>Asset_Types\<close>, \<open>Position_Types\<close> and \<open>Wallet_State\<close> are the structs and enums of the state crate, with the
  source's field and variant order; \<open>U256\<close>, \<open>u64\<close> and addresses are words, \<open>BTreeMap\<close>s finite maps. \<open>Reducer_Base\<close> has the reducer
  errors. \<open>Delta_Helpers\<close> (\<open>helpers/delta.rs\<close>) is \<open>apply_delta\<close> and \<open>merge_delta\<close>: well-formedness, frame,
  associativity, and that a merged delta is sequential composition; the locale \<open>commuting_steps\<close>, interpreted on
  the three kinds of changes, carries the reordering. \<open>Balance_Helpers\<close>, \<open>Approval_Helpers\<close> and \<open>Position_Helpers\<close> are the helpers that
  build a delta; their lemmas relate the effective state they read to the wallet after the delta is applied.
  \<open>Token_Action\<close> and \<open>Token_Effect\<close> are the fourteen token actions and their reducers, \<open>Hyperliquid_Effect\<close> the HyperCore outflows. \<open>Reducer\<close>
  is the dispatcher with multicalls; the locale \<open>gasless_reducer\<close>, interpreted on the reducer of every domain and on the dispatcher itself, gives
  that the delta of a multicall is exact. The domains whose reducers return an empty delta keep their payload as a type parameter.

  \<^bold>\<open>AMM domain.\<close> \<open>Amm_Types\<close> has the actions, venues and pool snapshots (\<open>action/src/amm\<close>). \<open>Amm_Quotes\<close> and \<open>Amm_Stable\<close> are the quotes of
  all venues (\<open>effect/amm/*.rs\<close>), every checked 256-bit operation a branch. The locales \<open>venue_quote\<close> (a quote never
  exceeds the reserve) and \<open>monotone_quote\<close> (selling more never returns less) are interpreted on every venue; the Newton solver of the
  stable pools is shown to stop within its 255 rounds, at the root to one unit. \<open>Amm_Swap\<close> composes hops to paths and
  routes and adds the slippage floor and the aggregator hooks; \<open>Amm_Liquidity\<close> deposits, withdraws and collects fees; \<open>Amm_Effect\<close> has intent orders and the dispatch.
  \<open>Balance_Flow\<close> is the shared account of debits and credits: its locale \<open>balance_op\<close>, interpreted on \<open>debit\<close> and \<open>credit\<close>, gives the exact balances
  after a list of them.

  \<^bold>\<open>Lending, perpetuals, airdrops and launchpads.\<close> These domains keep one position per venue. \<open>Position_Flow\<close> relates the position changes of a delta to
  the positions of the wallet it is applied to, and \<open>Entry_List\<close> is the list of amounts by key inside a position: its locale \<open>entries\<close> gives the
  laws of merging and reducing an entry and is interpreted on collaterals, debts and payments. \<open>Lending_Types\<close> has the thirteen lending actions
  (\<open>action/src/lending\<close>), \<open>Lending_Math\<close> the rate curves and the share conversions of the venues, \<open>Lending_Effect\<close> the reducers (\<open>effect/lending\<close>);
  \<open>Lending_Accounts\<close> shows that a supply can be withdrawn, that a borrow is within its limits and exact, that changing the rate mode
  conserves the debt and that every action keeps the accounts well-formed. \<open>Perp_Types\<close>, \<open>Perp_Math\<close> and \<open>Perp_Effect\<close> are the ten perpetual
  actions, the formulas the venues share and the reducers (\<open>action/src/perp\<close>, \<open>effect/perp\<close>); \<open>Perp_Positions\<close> gives the exact effect of opening and
  closing a position and of adjusting its margin. \<open>Airdrop_Effect\<close> and \<open>Launchpad_Effect\<close> are \<open>effect/airdrop.rs\<close> and \<open>effect/launchpad.rs\<close> with their actions: the
  effect of a claim and of a commit. \<open>Rust_Decimal\<close> is the interface to decimals and integer parsers these domains compute with.

  \<^bold>\<open>Scam filter.\<close> \<open>F64\<close> is IEEE binary64 arithmetic over rationals with explicit rounding. \<open>Scam_Types\<close> is \<open>types.rs\<close>.
  \<open>Scam_Generators\<close> is \<open>generators.rs\<close>, with the locale \<open>event_generator\<close> interpreted on its four generators; \<open>Scam_Drop\<close> proves the deque
  algorithm of \<open>drop_events\<close> equal to its slow definition. \<open>Scam_Series\<close> is \<open>series.rs\<close>: validity and breaks of a metric series and the exact meaning of
  \<open>coverage_bps\<close>. \<open>Scam_Rules\<close> is \<open>rules.rs\<close>: when \<open>analyze\<close> succeeds, what its results mean and what a \<open>clear\<close> outcome guarantees.

  \<^bold>\<open>Policy pipeline.\<close> \<open>Policy_Verdict\<close> is deny-overrides aggregation, \<open>Policy_Engine\<close> the engine over Cedar, \<open>Policy_Manifest\<close> manifests, their
  validation and triggers, \<open>Policy_Rpc\<close> selectors, planning and the replay of results into \<open>context.custom\<close>. \<open>Policy_Runtime\<close> is
  \<open>dambi-core/src/runtime\<close>: the plan, evaluate and diagnostic entry points and their JSON boundary. Its theorems characterise exactly when an
  action passes, show that bundles are isolated from each other and that a missing required fact fails closed.

  \<^bold>\<open>Conventions.\<close> \<open>Result\<close> is a sum with the error on the left, and every early return is a branch. Loops are structural recursions over the
  lists the source iterates, or over its own round limit (\<open>MAX_ITER\<close>), so no fuel is needed and every function is total. In-place mutation returns the new value, also beside an
  error where the caller still sees it (\<open>materialize\<close>). \<open>Dambi_Prelude\<close> has the result operations and shared lemmas, \<open>Fixtures\<close> the
  concrete wallets of the witnesses.

  \<^bold>\<open>Parameters.\<close> Third-party code is an argument: Cedar (the record \<open>cedar\<close>), decimal arithmetic (\<open>rust_decimal\<close>), the position
  serializer (\<open>position_codec\<close>), powers of ten, the integer parsers (\<open>int_parsers\<close>) and the deserializer of the boundary input. The
  hypotheses on them are named in the theorems: decimals that compare as numbers and whose sums and differences are exact when they fit the
  96-bit format, parsers that read what the integer types print,
  positions that read back, positive powers. Code of the repository that is not translated is an argument too, with no hypothesis: the
  lowering and the schema composition (\<open>runtime_env\<close>).
  The order of a hash set, where the code iterates one, is the order of the given list.

  \<^bold>\<open>Limits shown.\<close> Theorems and lemmas also record where the code does less than its comments say: gas in a merged delta, ERC-721 transfers, repeated
  updates of a position, Permit2 approvals, permit ids across chains, saturating deadlines, call ids containing the
  separator, a missing required result behind an output of unsupported kind, rounding of stable and concentrated quotes,
  empty swap paths, cancelled intent orders, burned position tokens, repeated airdrop claims, vested tokens credited twice and
  margin entries a closed perpetual position does not return, the end of a window in \<open>coverage_bps\<close> and in a \<open>clear\<close> outcome, borrow
  rates cut to whole basis points, a liquidation price an adjusted margin leaves stale and open interest compared with the size.

  \<^bold>\<open>Not modelled.\<close> Calldata adapters, lowering and schema synthesis, sessions and snapshots, the servers, WebAssembly
  glue and the browser extension: generated tables, conversion code, I/O and user interface.
\<close>

end
